(* ===== verification/Prelude.thy ===== *)
theory Prelude
  imports Main
begin

text \<open>
  The shared vocabulary of the development. Go code returns a value or an error and changes
  state on the way: a call is a function from the state to a result (\<open>Inl\<close> the error, \<open>Inr\<close> the
  value) and the next state. The theory holds the error values of the program, the sequencing
  operators its control flow is written with, the rules of a weakest-precondition calculus for
  them (collection \<open>wp\<close>), and a few list facts the components share.
\<close>

named_theorems wp "weakest preconditions of the sequencing operators and of the model's calls"
named_theorems go_defs "definitions of the sequencing operators"

section \<open>Error values\<close>

text \<open>
  \<open>ErrNil\<close> is the redis client's answer for a missing key or field. \<open>DnsErrAuth\<close> and
  \<open>DnsErrSubdomainUsed\<close> are the variables of dns/errors.go, \<open>ProxyErrAuth\<close> the one of
  proxy/errors.go. \<open>NewErr\<close> is a fresh error with its text, \<open>Wrapped\<close> an error that carries a
  text of its own and the error it wraps, \<open>StdErr\<close> an error made by Go's standard library, named by
  the call that failed, \<open>Extern\<close> an error made outside the program (a redis or network failure,
  an explorer failure). \<open>Panic\<close> is not an error value of the program but a run-time panic; it
  travels to the caller as an error does, past the code that examines errors.
\<close>

datatype go_error =
    ErrNil
  | DnsErrAuth
  | DnsErrSubdomainUsed
  | ProxyErrAuth
  | NewErr string
  | Wrapped string go_error
  | StdErr string
  | Extern string
  | Panic string

fun error_text :: "go_error \<Rightarrow> string" where
  "error_text ErrNil = ''redigo: nil returned''"
| "error_text DnsErrAuth = ''unauthorized error''"
| "error_text DnsErrSubdomainUsed = ''subdomain already reserved''"
| "error_text ProxyErrAuth = ''unauthorized error''"
| "error_text (NewErr t) = t"
| "error_text (Wrapped t e) = t"
| "error_text (StdErr t) = t"
| "error_text (Extern t) = t"
| "error_text (Panic t) = t"

text \<open>\<open>errors.Is\<close>: the error itself or one it wraps.\<close>

fun errors_is :: "go_error \<Rightarrow> go_error \<Rightarrow> bool" where
  "errors_is (Wrapped t e) target = (Wrapped t e = target \<or> errors_is e target)"
| "errors_is e target = (e = target)"

text \<open>\<open>errors.Wrap\<close> and \<open>errors.Wrapf\<close>: the message, a colon, the wrapped error's text.\<close>

definition wrap_err :: "go_error \<Rightarrow> string \<Rightarrow> go_error" where
  "wrap_err e msg = Wrapped (msg @ '': '' @ error_text e) e"

lemma errors_is_refl [simp]: "errors_is e e"
  by (cases e) simp_all

lemma errors_is_wrap_err [simp]:
  "errors_is (wrap_err e msg) target \<longleftrightarrow> wrap_err e msg = target \<or> errors_is e target"
  by (simp add: wrap_err_def)

section \<open>Calls with state and errors\<close>

type_synonym ('s, 'a) go = "'s \<Rightarrow> (go_error + 'a) \<times> 's"

definition returnM :: "'a \<Rightarrow> ('s, 'a) go" where
  "returnM x s = (Inr x, s)"

definition raiseM :: "go_error \<Rightarrow> ('s, 'a) go" where
  "raiseM e s = (Inl e, s)"

text \<open>\<open>x, err := m; if err != nil { return err }; f x\<close>\<close>

definition bindM :: "('s, 'a) go \<Rightarrow> ('a \<Rightarrow> ('s, 'b) go) \<Rightarrow> ('s, 'b) go" where
  "bindM m f s = (case m s of (Inl e, s') \<Rightarrow> (Inl e, s') | (Inr x, s') \<Rightarrow> f x s')"

text \<open>\<open>x, err := m\<close>, with both results examined by the code that follows.\<close>

definition handleM :: "('s, 'a) go \<Rightarrow> (go_error + 'a \<Rightarrow> ('s, 'b) go) \<Rightarrow> ('s, 'b) go" where
  "handleM m f s = (case m s of (r, s') \<Rightarrow> f r s')"

text \<open>\<open>if err := m; err != nil { return g err }\<close>\<close>

definition wrapM :: "(go_error \<Rightarrow> go_error) \<Rightarrow> ('s, 'a) go \<Rightarrow> ('s, 'a) go" where
  "wrapM g m = handleM m (\<lambda>r. case r of Inl e \<Rightarrow> raiseM (g e) | Inr x \<Rightarrow> returnM x)"

text \<open>\<open>defer func() { if err != nil { clean } }()\<close> around a body that leaves its error in \<open>err\<close>. A
  panic leaves \<open>err\<close> nil; the error of the clean-up is logged only.\<close>

definition is_panic :: "go_error \<Rightarrow> bool" where
  "is_panic e = (case e of Panic t \<Rightarrow> True | _ \<Rightarrow> False)"

definition on_errorM :: "('s, unit) go \<Rightarrow> ('s, 'a) go \<Rightarrow> ('s, 'a) go" where
  "on_errorM clean body =
     handleM body (\<lambda>r. case r of
       Inl e \<Rightarrow> if is_panic e then raiseM e else handleM clean (\<lambda>_. raiseM e)
     | Inr x \<Rightarrow> returnM x)"

text \<open>\<open>defer clean()\<close> around the rest of a function: it runs on every exit, its result is dropped.\<close>

definition deferM :: "('s, 'b) go \<Rightarrow> ('s, 'a) go \<Rightarrow> ('s, 'a) go" where
  "deferM clean body s = (case body s of (r, s') \<Rightarrow> (r, snd (clean s')))"

text \<open>A call whose error is logged and dropped.\<close>

definition ignoreM :: "('s, 'a) go \<Rightarrow> ('s, unit) go" where
  "ignoreM m = handleM m (\<lambda>_. returnM ())"

text \<open>A value already computed, or its error.\<close>

definition liftM :: "go_error + 'a \<Rightarrow> ('s, 'a) go" where
  "liftM r s = (r, s)"

text \<open>\<open>for _, x := range xs { ... }\<close> whose body returns on an error.\<close>

fun forM :: "'a list \<Rightarrow> ('a \<Rightarrow> ('s, unit) go) \<Rightarrow> ('s, unit) go" where
  "forM [] f = returnM ()"
| "forM (x # xs) f = bindM (f x) (\<lambda>_. forM xs f)"

text \<open>A loop that computes a value from each element and returns on the first error.\<close>

fun map_sum_list :: "('a \<Rightarrow> go_error + 'b) \<Rightarrow> 'a list \<Rightarrow> go_error + 'b list" where
  "map_sum_list f [] = Inr []"
| "map_sum_list f (x # xs) =
     (case f x of Inl e \<Rightarrow> Inl e
      | Inr y \<Rightarrow> (case map_sum_list f xs of Inl e \<Rightarrow> Inl e | Inr ys \<Rightarrow> Inr (y # ys)))"

lemmas go_run_defs [go_defs] = deferM_def on_errorM_def ignoreM_def returnM_def raiseM_def bindM_def handleM_def wrapM_def liftM_def

section \<open>Weakest preconditions\<close>

definition wpM :: "('s, 'a) go \<Rightarrow> (go_error + 'a \<Rightarrow> 's \<Rightarrow> bool) \<Rightarrow> 's \<Rightarrow> bool" where
  "wpM m Q s = (case m s of (r, s') \<Rightarrow> Q r s')"

lemma wpM_I: "(\<And>r s'. m s = (r, s') \<Longrightarrow> Q r s') \<Longrightarrow> wpM m Q s"
  by (simp add: wpM_def split: prod.split)

lemma wpM_D: "wpM m Q s \<Longrightarrow> m s = (r, s') \<Longrightarrow> Q r s'"
  by (simp add: wpM_def)

lemma wpM_mono: "wpM m Q s \<Longrightarrow> (\<And>r s'. Q r s' \<Longrightarrow> Q' r s') \<Longrightarrow> wpM m Q' s"
  by (simp add: wpM_def split: prod.splits)

lemma wpM_returnM [wp, simp]: "wpM (returnM x) Q s = Q (Inr x) s"
  by (simp add: wpM_def returnM_def)

lemma wpM_raiseM [wp, simp]: "wpM (raiseM e) Q s = Q (Inl e) s"
  by (simp add: wpM_def raiseM_def)

lemma wpM_liftM [wp, simp]: "wpM (liftM r) Q s = Q r s"
  by (simp add: wpM_def liftM_def)

lemma wpM_handleM [wp]: "wpM (handleM m f) Q s = wpM m (\<lambda>r. wpM (f r) Q) s"
  by (simp add: wpM_def handleM_def split: prod.split)

lemma wpM_bindM [wp]:
  "wpM (bindM m f) Q s =
     wpM m (\<lambda>r s'. case r of Inl e \<Rightarrow> Q (Inl e) s' | Inr x \<Rightarrow> wpM (f x) Q s') s"
  by (simp add: wpM_def bindM_def split: prod.split sum.split)

lemma wpM_wrapM [wp]:
  "wpM (wrapM g m) Q s =
     wpM m (\<lambda>r s'. case r of Inl e \<Rightarrow> Q (Inl (g e)) s' | Inr x \<Rightarrow> Q (Inr x) s') s"
  by (simp add: wpM_def wrapM_def handleM_def raiseM_def returnM_def split: prod.split sum.split)

lemma wpM_on_errorM [wp]:
  "wpM (on_errorM clean body) Q s =
     wpM body (\<lambda>r s'. case r of
       Inl e \<Rightarrow> if is_panic e then Q (Inl e) s' else wpM clean (\<lambda>_. Q (Inl e)) s'
     | Inr x \<Rightarrow> Q (Inr x) s') s"
  by (simp add: wpM_def on_errorM_def handleM_def raiseM_def returnM_def split: prod.split sum.split)

lemma wpM_deferM [wp]: "wpM (deferM clean body) Q s = wpM body (\<lambda>r. wpM clean (\<lambda>_. Q r)) s"
  by (simp add: wpM_def deferM_def case_prod_beta)

lemma wpM_ignoreM [wp]: "wpM (ignoreM m) Q s = wpM m (\<lambda>_. Q (Inr ())) s"
  by (simp add: wpM_def ignoreM_def handleM_def returnM_def split: prod.split)

lemma wpM_if [wp]: "wpM (if b then m1 else m2) Q s = (if b then wpM m1 Q s else wpM m2 Q s)"
  by simp

lemma wpM_case_sum [wp]:
  "wpM (case r of Inl e \<Rightarrow> f e | Inr x \<Rightarrow> g x) Q s =
     (case r of Inl e \<Rightarrow> wpM (f e) Q s | Inr x \<Rightarrow> wpM (g x) Q s)"
  by (simp split: sum.split)

lemma wpM_forM:
  assumes step: "\<And>x s. x \<in> set xs \<Longrightarrow> I s \<Longrightarrow> wpM (f x) (\<lambda>r s'. I s') s"
    and init: "I s"
  shows "wpM (forM xs f) (\<lambda>r s'. I s') s"
  using step init
proof (induction xs arbitrary: s)
  case Nil
  then show ?case by simp
next
  case (Cons x xs)
  have "wpM (f x) (\<lambda>r s'. I s') s"
    using Cons.prems by simp
  then have "wpM (f x) (\<lambda>r s'. case r of Inl e \<Rightarrow> I s' | Inr u \<Rightarrow> wpM (forM xs f) (\<lambda>r. I) s') s"
    by (rule wpM_mono) (use Cons in \<open>auto split: sum.split\<close>)
  then show ?case by (simp add: wpM_bindM)
qed

lemma is_panic_simps [simp]:
  "\<not> is_panic (Extern t)" "\<not> is_panic ErrNil" "\<not> is_panic (Wrapped t e)" "\<not> is_panic (NewErr t)"
  "\<not> is_panic (StdErr t)" "\<not> is_panic DnsErrAuth" "\<not> is_panic DnsErrSubdomainUsed"
  "\<not> is_panic ProxyErrAuth" "\<not> is_panic (wrap_err e t)" "is_panic (Panic t)"
  by (simp_all add: is_panic_def wrap_err_def)

section \<open>Lists\<close>

lemma map_filter_cong_set:
  "(\<And>x. x \<in> set xs \<Longrightarrow> P x \<Longrightarrow> f x = g x) \<Longrightarrow> map f (filter P xs) = map g (filter P xs)"
  by (induction xs) auto

end
