(* ===== verification/GoStrings.thy ===== *)
theory GoStrings
  imports Prelude "HOL-Library.Sublist" "HOL-Library.Char_ord" "HOL-Library.List_Lexorder"
begin

text \<open>
  What the program uses of the Go packages strings, strconv, fmt and sort on strings. A Go string
  is a sequence of bytes, as is HOL's \<^typ>\<open>string\<close>; \<open>of_char\<close> is a byte's value. The order of
  Go strings is the lexicographic order of their bytes, which is the order of the library's
  \<open>List_Lexorder\<close> over \<open>Char_ord\<close>.
\<close>

section \<open>Package strings\<close>

definition HasPrefix :: "string \<Rightarrow> string \<Rightarrow> bool" where
  "HasPrefix s p = prefix p s"

definition TrimSuffix :: "string \<Rightarrow> string \<Rightarrow> string" where
  "TrimSuffix s suf = (if suffix suf s then take (length s - length suf) s else s)"

text \<open>\<open>strings.Split\<close> with a separator of one byte, \<open>strings.Join\<close>.\<close>

fun SplitByte :: "char \<Rightarrow> string \<Rightarrow> string list" where
  "SplitByte sep [] = [[]]"
| "SplitByte sep (c # cs) =
     (if c = sep then [] # SplitByte sep cs
      else case SplitByte sep cs of [] \<Rightarrow> [[c]] | w # ws \<Rightarrow> (c # w) # ws)"

fun Join :: "string list \<Rightarrow> string \<Rightarrow> string" where
  "Join [] sep = []"
| "Join [w] sep = w"
| "Join (w # ws) sep = w @ sep @ Join ws sep"

text \<open>\<open>strings.Count\<close> of a one-byte string, \<open>strings.Contains\<close>, a text between single quotes as the
  messages print it.\<close>

definition CountByte :: "string \<Rightarrow> char \<Rightarrow> nat" where
  "CountByte s c = count_list s c"

definition quoted :: "string \<Rightarrow> string" where
  "quoted s = CHR 0x27 # s @ [CHR 0x27]"

definition Contains :: "string \<Rightarrow> string \<Rightarrow> bool" where
  "Contains s sub = sublist sub s"

lemma SplitByte_nonempty [simp]: "SplitByte sep s \<noteq> []"
  by (induction s) (auto split: list.split)

lemma Join_Cons: "ws \<noteq> [] \<Longrightarrow> Join (w # ws) sep = w @ sep @ Join ws sep"
  by (cases ws) simp_all

lemma Join_SplitByte: "Join (SplitByte sep s) [sep] = s"
proof (induction s)
  case Nil
  then show ?case by simp
next
  case (Cons c cs)
  obtain w ws where split: "SplitByte sep cs = w # ws"
    by (cases "SplitByte sep cs") auto
  with Cons show ?case
    by (cases ws) (auto simp: Join_Cons)
qed

lemma SplitByte_no_sep: "w \<in> set (SplitByte sep s) \<Longrightarrow> sep \<notin> set w"
  by (induction s arbitrary: w) (auto split: list.splits if_splits)

lemma length_SplitByte: "length (SplitByte sep s) = Suc (count_list s sep)"
proof (induction s)
  case (Cons c cs)
  then show ?case
    by (cases "SplitByte sep cs") auto
qed simp

lemma TrimSuffix_append [simp]: "TrimSuffix (s @ suf) suf = s"
  by (simp add: TrimSuffix_def suffixI)

lemma TrimSuffix_byte: "TrimSuffix s [c] = (if s \<noteq> [] \<and> last s = c then butlast s else s)"
  by (cases s rule: rev_cases) (auto simp: TrimSuffix_def)

lemma CountByte_pos: "0 < CountByte s c \<longleftrightarrow> c \<in> set s"
  by (induction s) (auto simp: CountByte_def)

section \<open>Decimal numbers\<close>

definition digit_char :: "nat \<Rightarrow> char" where
  "digit_char d = char_of (48 + d)"

definition is_digit :: "char \<Rightarrow> bool" where
  "is_digit c \<longleftrightarrow> 48 \<le> (of_char c :: nat) \<and> (of_char c :: nat) \<le> 57"

definition digit_val :: "char \<Rightarrow> nat" where
  "digit_val c = of_char c - 48"

fun decimal :: "nat \<Rightarrow> string" where
  "decimal n = (if n < 10 then [digit_char n] else decimal (n div 10) @ [digit_char (n mod 10)])"

declare decimal.simps [simp del]

fun dec_val :: "nat \<Rightarrow> string \<Rightarrow> nat" where
  "dec_val acc [] = acc"
| "dec_val acc (c # cs) = dec_val (10 * acc + digit_val c) cs"

lemma of_char_digit [simp]: "d < 10 \<Longrightarrow> of_char (digit_char d) = 48 + d"
  by (simp add: digit_char_def)

lemma is_digit_digit_char [simp]: "d < 10 \<Longrightarrow> is_digit (digit_char d)"
  by (simp add: is_digit_def)

lemma digit_val_digit_char [simp]: "d < 10 \<Longrightarrow> digit_val (digit_char d) = d"
  by (simp add: digit_val_def)

lemma dec_val_append: "dec_val acc (xs @ ys) = dec_val (dec_val acc xs) ys"
  by (induction xs arbitrary: acc) simp_all

lemma dec_val_dec [simp]: "dec_val 0 (decimal n) = n"
proof (induction n rule: decimal.induct)
  case (1 n)
  then show ?case
    by (subst decimal.simps) (simp add: dec_val_append)
qed

lemma dec_digits: "c \<in> set (decimal n) \<Longrightarrow> is_digit c"
proof (induction n rule: decimal.induct)
  case (1 n)
  then show ?case
    by (subst (asm) (2) decimal.simps) (auto split: if_splits)
qed

lemma decimal_digits_ascii: "c \<in> set (decimal n) \<Longrightarrow> of_char c < (128 :: nat)"
  using dec_digits [of c n] by (simp add: is_digit_def)

lemma dec_nonempty [simp]: "decimal n \<noteq> []"
  by (subst decimal.simps) simp

lemma dec_inject [simp]: "decimal m = decimal n \<longleftrightarrow> m = n"
  by (metis dec_val_dec)

lemma dec_leading: "n > 0 \<Longrightarrow> hd (decimal n) \<noteq> CHR ''0''"
proof (induction n rule: decimal.induct)
  case (1 n)
  show ?case
  proof (cases "n < 10")
    case True
    then have "(of_char (digit_char n) :: nat) \<noteq> of_char CHR ''0''"
      using "1.prems" by simp
    then have "digit_char n \<noteq> CHR ''0''" by metis
    with True show ?thesis by (simp add: decimal.simps)
  next
    case False
    with 1 show ?thesis by (subst decimal.simps) simp
  qed
qed

text \<open>\<open>fmt.Sprintf("%d")\<close> and \<open>strconv.AppendInt\<close> in base 10; \<open>strconv.ParseInt(s, 10, 64)\<close>,
  which is \<open>strconv.Atoi\<close> on a 64-bit machine, and \<open>strconv.ParseUint(s, 10, 64)\<close>.\<close>

definition itoa :: "int \<Rightarrow> string" where
  "itoa i = (if i < 0 then CHR ''-'' # decimal (nat (- i)) else decimal (nat i))"

definition parse_digits :: "string \<Rightarrow> nat option" where
  "parse_digits s = (if s \<noteq> [] \<and> list_all is_digit s then Some (dec_val 0 s) else None)"

definition int64_range :: "int \<Rightarrow> bool" where
  "int64_range i \<longleftrightarrow> - (2 ^ 63) \<le> i \<and> i < 2 ^ 63"

definition atoi :: "string \<Rightarrow> int option" where
  "atoi s =
     (let neg = (s \<noteq> [] \<and> hd s = CHR ''-'');
          ds = (if s \<noteq> [] \<and> hd s \<in> {CHR ''-'', CHR ''+''} then tl s else s)
      in case parse_digits ds of
           None \<Rightarrow> None
         | Some n \<Rightarrow> (let i = (if neg then - int n else int n) in if int64_range i then Some i else None))"

lemma parse_digits_dec [simp]: "parse_digits (decimal n) = Some n"
  using dec_digits by (auto simp: parse_digits_def list_all_iff)

lemma hd_dec_digit: "is_digit (hd (decimal n))"
  by (rule dec_digits [OF hd_in_set]) simp

lemma atoi_itoa: "int64_range i \<Longrightarrow> atoi (itoa i) = Some i"
proof -
  assume range: "int64_range i"
  have "hd (decimal (nat i)) \<notin> {CHR ''-'', CHR ''+''}"
    using hd_dec_digit [of "nat i"] by (auto simp: is_digit_def)
  with range show ?thesis
    by (auto simp: atoi_def itoa_def Let_def)
qed

lemma itoa_inject [simp]: "itoa i = itoa j \<longleftrightarrow> i = j"
proof
  assume eq: "itoa i = itoa j"
  have minus: "hd (decimal n) \<noteq> CHR ''-''" for n
    using hd_dec_digit [of n] by (auto simp: is_digit_def)
  have "decimal n \<noteq> CHR ''-'' # decimal m" for m n
    using minus [of n] by (metis list.sel(1))
  with eq show "i = j"
    by (auto simp: itoa_def split: if_splits) (metis)+
qed simp

end
