(* ===== verification/Utf8.thy ===== *)
theory Utf8
  imports GoStrings
begin

text \<open>
  What the program uses of unicode/utf8: a Go string read as UTF-8, rune by rune, where a byte
  that starts no valid encoding counts as one invalid byte. The JSON encoder and decoder of the
  next theory replace invalid bytes; \<open>to_valid\<close> is that replacement.
\<close>

abbreviation byte :: "char \<Rightarrow> nat" where
  "byte c \<equiv> of_char c"

text \<open>Hexadecimal digits, lower case as the encoders write them, either case when read.\<close>

definition hex_char :: "nat \<Rightarrow> char" where
  "hex_char d = (if d < 10 then char_of (48 + d) else char_of (87 + d))"

definition hex_val :: "char \<Rightarrow> nat option" where
  "hex_val c =
     (if 48 \<le> byte c \<and> byte c \<le> 57 then Some (byte c - 48)
      else if 97 \<le> byte c \<and> byte c \<le> 102 then Some (byte c - 87)
      else if 65 \<le> byte c \<and> byte c \<le> 70 then Some (byte c - 55)
      else None)"

lemma hex_val_hex_char [simp]: "d < 16 \<Longrightarrow> hex_val (hex_char d) = Some d"
  by (auto simp: hex_val_def hex_char_def)

definition cont_byte :: "char \<Rightarrow> bool" where
  "cont_byte c \<longleftrightarrow> 128 \<le> byte c \<and> byte c \<le> 191"

definition lead_len :: "char \<Rightarrow> nat" where
  "lead_len c =
     (if byte c < 128 then 1
      else if 194 \<le> byte c \<and> byte c \<le> 223 then 2
      else if 224 \<le> byte c \<and> byte c \<le> 239 then 3
      else if 240 \<le> byte c \<and> byte c \<le> 244 then 4 else 0)"

text \<open>The second byte has a narrower range after four of the lead bytes: no overlong encodings,
  no surrogates, nothing above the last code point.\<close>

definition second_ok :: "char \<Rightarrow> char \<Rightarrow> bool" where
  "second_ok c d \<longleftrightarrow>
     (if byte c = 224 then 160 \<le> byte d \<and> byte d \<le> 191
      else if byte c = 237 then 128 \<le> byte d \<and> byte d \<le> 159
      else if byte c = 240 then 144 \<le> byte d \<and> byte d \<le> 191
      else if byte c = 244 then 128 \<le> byte d \<and> byte d \<le> 143
      else cont_byte d)"

text \<open>The length of the rune a string starts with, 0 when its first byte is invalid.\<close>

fun rune_len :: "string \<Rightarrow> nat" where
  "rune_len [] = 0"
| "rune_len (c # t) =
     (let n = lead_len c in
      if n \<le> 1 then n
      else if n - 1 \<le> length t \<and> second_ok c (hd t) \<and> list_all cont_byte (take (n - 2) (tl t)) then n
      else 0)"

lemma lead_len_le: "lead_len c \<le> 4"
  by (simp add: lead_len_def)

lemma rune_len_le: "rune_len s \<le> length s"
  by (cases s) (auto simp: Let_def)

lemma rune_len_drop: "s \<noteq> [] \<Longrightarrow> 0 < rune_len s \<Longrightarrow> length (drop (rune_len s) s) < length s"
  by (cases s) auto

lemma rune_len_ascii [simp]: "byte c < 128 \<Longrightarrow> rune_len (c # t) = 1"
  by (simp add: lead_len_def)

text \<open>A string as a list of runes and invalid bytes.\<close>

datatype chunk = Rune string | Bad char

function chunks :: "string \<Rightarrow> chunk list" where
  "chunks [] = []"
| "chunks (c # t) =
     (let n = rune_len (c # t) in
      if n = 0 then Bad c # chunks t
      else Rune (take n (c # t)) # chunks (drop n (c # t)))"
  by pat_completeness auto
termination
  by (relation "measure length") (auto simp del: rune_len.simps simp: rune_len_drop Let_def)

declare chunks.simps(2) [simp del]

definition wf_rune :: "string \<Rightarrow> bool" where
  "wf_rune r \<longleftrightarrow> r \<noteq> [] \<and> rune_len r = length r"

fun wf_chunk :: "chunk \<Rightarrow> bool" where
  "wf_chunk (Rune r) = wf_rune r"
| "wf_chunk (Bad c) = True"

lemma rune_len_append:
  assumes "wf_rune r"
  shows "rune_len (r @ rest) = length r"
proof (cases r)
  case Nil
  with assms show ?thesis by (simp add: wf_rune_def)
next
  case (Cons c t)
  let ?n = "lead_len c"
  from assms Cons have len: "rune_len (c # t) = Suc (length t)"
    by (simp add: wf_rune_def)
  show ?thesis
  proof (cases "?n \<le> 1")
    case True
    with len Cons show ?thesis by simp
  next
    case False
    with len have n: "?n = Suc (length t)" and ok: "second_ok c (hd t)"
      and conts: "list_all cont_byte (take (?n - 2) (tl t))"
      by (auto simp: Let_def split: if_splits)
    from False n obtain d u where t: "t = d # u" by (cases t) auto
    with n ok conts Cons show ?thesis by (simp add: Let_def)
  qed
qed

lemma wf_rune_take: "rune_len s \<noteq> 0 \<Longrightarrow> wf_rune (take (rune_len s) s)"
proof (cases s)
  case (Cons c t)
  let ?n = "lead_len c"
  assume nz: "rune_len s \<noteq> 0"
  with Cons have len: "rune_len s = ?n" by (auto simp: Let_def split: if_splits)
  show ?thesis
  proof (cases "?n \<le> 1")
    case True
    with nz len Cons have "?n = 1" by simp
    with Cons len show ?thesis by (simp add: wf_rune_def)
  next
    case False
    with nz Cons have "?n - 1 \<le> length t" "second_ok c (hd t)"
      "list_all cont_byte (take (?n - 2) (tl t))"
      by (auto simp: Let_def split: if_splits)
    moreover from False this(1) obtain d u where "t = d # u" by (cases t) auto
    moreover from False obtain m where "?n = Suc (Suc m)" by (metis Suc_diff_le diff_Suc_1 not_less_eq_eq One_nat_def not0_implies_Suc le0)
    ultimately show ?thesis
      using len Cons by (simp add: wf_rune_def Let_def)
  qed
qed simp

lemma wf_chunks: "c \<in> set (chunks s) \<Longrightarrow> wf_chunk c"
proof (induction s rule: chunks.induct)
  case (2 c' t)
  then show ?case
    by (auto simp: chunks.simps(2) Let_def wf_rune_take simp del: rune_len.simps split: if_splits)
qed simp

text \<open>The replacement character, and what is left of a string when its invalid bytes are
  replaced by it.\<close>

definition replacement :: string where
  "replacement = [CHR 0xEF, CHR 0xBF, CHR 0xBD]"

fun chunk_text :: "chunk \<Rightarrow> string" where
  "chunk_text (Rune r) = r"
| "chunk_text (Bad c) = replacement"

definition to_valid :: "string \<Rightarrow> string" where
  "to_valid s = concat (map chunk_text (chunks s))"

definition valid_utf8 :: "string \<Rightarrow> bool" where
  "valid_utf8 s \<longleftrightarrow> list_all (\<lambda>c. case c of Rune r \<Rightarrow> True | Bad b \<Rightarrow> False) (chunks s)"

definition ascii :: "string \<Rightarrow> bool" where
  "ascii s \<longleftrightarrow> list_all (\<lambda>c. byte c < 128) s"

lemma to_valid_id: "valid_utf8 s \<Longrightarrow> to_valid s = s"
proof (induction s rule: chunks.induct)
  case (2 c t)
  then show ?case
    by (auto simp: to_valid_def valid_utf8_def chunks.simps(2) Let_def simp del: rune_len.simps
        take_Suc_Cons drop_Suc_Cons split: if_splits)
qed (simp add: to_valid_def)

lemma ascii_valid: "ascii s \<Longrightarrow> valid_utf8 s"
proof (induction s rule: chunks.induct)
  case (2 c t)
  then show ?case
    by (auto simp: valid_utf8_def ascii_def chunks.simps(2) simp del: rune_len.simps)
qed (simp add: valid_utf8_def)

lemma chunks_append_rune: "wf_rune r \<Longrightarrow> chunks (r @ s) = Rune r # chunks s"
proof (cases r)
  case (Cons c t)
  assume wf: "wf_rune r"
  then have "rune_len (c # t @ s) = length r"
    using rune_len_append [OF wf, of s] Cons by simp
  with Cons show ?thesis
    by (simp add: chunks.simps(2) Let_def del: rune_len.simps)
qed (simp add: wf_rune_def)

lemma wf_rune_replacement [simp]: "wf_rune replacement"
  by (simp add: wf_rune_def replacement_def lead_len_def second_ok_def cont_byte_def)

lemma chunks_concat:
  "list_all wf_chunk cs \<Longrightarrow>
   chunks (concat (map chunk_text cs)) = map (\<lambda>c. Rune (chunk_text c)) cs"
proof (induction cs)
  case (Cons c cs)
  then show ?case by (cases c) (simp_all add: chunks_append_rune)
qed simp

lemma valid_to_valid [simp]: "valid_utf8 (to_valid s)"
  using chunks_concat [of "chunks s"] wf_chunks [of _ s]
  by (simp add: valid_utf8_def to_valid_def list_all_iff)

lemma to_valid_idem [simp]: "to_valid (to_valid s) = to_valid s"
  by (simp add: to_valid_id)

end
