(* ===== verification/Json.thy ===== *)
theory Json
  imports Utf8
begin

text \<open>
  What the program uses of encoding/json: the text Marshal writes, the values Unmarshal reads.
  A document is a tree; \<open>print_json\<close> is the encoder's text (compact, HTML characters and invalid
  UTF-8 escaped), \<open>parse_json\<close> the decoder's grammar. A member of type \<open>json.RawMessage\<close> is the
  subtree itself. The main result is \<open>parse_print\<close>: reading back what was written gives the tree
  with the invalid bytes of its strings replaced. The parser recurses on fuel;
  \<open>pvalue_fuel_enough\<close> shows that the fuel \<open>parse_json\<close> gives it is never what makes it fail.
\<close>

datatype json =
    JNull
  | JBool bool
  | JNum string
  | JStr string
  | JArr "json list"
  | JObj "(string \<times> json) list"

section \<open>Strings\<close>

text \<open>The bytes written as they are, and the escapes of the others.\<close>

definition html_safe :: "char \<Rightarrow> bool" where
  "html_safe c \<longleftrightarrow> 32 \<le> byte c \<and> byte c < 128 \<and>
     c \<notin> {CHR 0x22, CHR 0x5C, CHR ''<'', CHR ''>'', CHR ''&''}"

definition esc_byte :: "char \<Rightarrow> string" where
  "esc_byte c =
     (if html_safe c then [c]
      else if c = CHR 0x5C \<or> c = CHR 0x22 then [CHR 0x5C, c]
      else if c = CHR 0x0A then [CHR 0x5C, CHR ''n'']
      else if c = CHR 0x0D then [CHR 0x5C, CHR ''r'']
      else if c = CHR 0x09 then [CHR 0x5C, CHR ''t'']
      else [CHR 0x5C, CHR ''u'', CHR ''0'', CHR ''0'', hex_char (byte c div 16), hex_char (byte c mod 16)])"

fun esc_chunk :: "chunk \<Rightarrow> string" where
  "esc_chunk (Bad c) = CHR 0x5C # ''ufffd''"
| "esc_chunk (Rune r) =
     (if length r = 1 then esc_byte (hd r)
      else if r = [CHR 0xE2, CHR 0x80, CHR 0xA8] then CHR 0x5C # ''u2028''
      else if r = [CHR 0xE2, CHR 0x80, CHR 0xA9] then CHR 0x5C # ''u2029''
      else r)"

definition esc_string :: "string \<Rightarrow> string" where
  "esc_string s = concat (map esc_chunk (chunks s))"

definition quote :: "string \<Rightarrow> string" where
  "quote s = CHR 0x22 # esc_string s @ [CHR 0x22]"

text \<open>The encoding of a code point.\<close>

definition encode_rune :: "nat \<Rightarrow> string" where
  "encode_rune w =
     (if w < 128 then [char_of w]
      else if w < 2048 then [char_of (192 + w div 64), char_of (128 + w mod 64)]
      else if w < 65536 then
        [char_of (224 + w div 4096), char_of (128 + w div 64 mod 64), char_of (128 + w mod 64)]
      else
        [char_of (240 + w div 262144), char_of (128 + w div 4096 mod 64),
         char_of (128 + w div 64 mod 64), char_of (128 + w mod 64)])"

fun hex4 :: "string \<Rightarrow> (nat \<times> string) option" where
  "hex4 (a # b # c # d # u) =
     (case (hex_val a, hex_val b, hex_val c, hex_val d) of
        (Some x, Some y, Some z, Some w) \<Rightarrow> Some (((x * 16 + y) * 16 + z) * 16 + w, u)
      | _ \<Rightarrow> None)"
| "hex4 _ = None"

text \<open>The runes after \<open>\u\<close>: a surrogate pair is one code point, a lone surrogate is replaced.\<close>

definition low_surrogate :: "string \<Rightarrow> (nat \<times> string) option" where
  "low_surrogate u =
     (case u of a # b # v \<Rightarrow>
        (if a = CHR 0x5C \<and> b = CHR ''u'' then
           (case hex4 v of Some (w, rest) \<Rightarrow> (if 56320 \<le> w \<and> w < 57344 then Some (w, rest) else None)
            | None \<Rightarrow> None)
         else None)
      | _ \<Rightarrow> None)"

definition unicode_escape :: "string \<Rightarrow> (string \<times> string) option" where
  "unicode_escape u =
     (case hex4 u of
        None \<Rightarrow> None
      | Some (w, v) \<Rightarrow>
          if 55296 \<le> w \<and> w < 57344 then
            (case low_surrogate v of
               Some (w2, rest) \<Rightarrow>
                 if w < 56320 then Some (encode_rune (65536 + (w - 55296) * 1024 + (w2 - 56320)), rest)
                 else Some (replacement, v)
             | None \<Rightarrow> Some (replacement, v))
          else Some (encode_rune w, v))"

definition simple_escape :: "char \<Rightarrow> char option" where
  "simple_escape e =
     (if e = CHR 0x22 \<or> e = CHR 0x5C \<or> e = CHR ''/'' then Some e
      else if e = CHR ''b'' then Some (CHR 0x08)
      else if e = CHR ''f'' then Some (CHR 0x0C)
      else if e = CHR ''n'' then Some (CHR 0x0A)
      else if e = CHR ''r'' then Some (CHR 0x0D)
      else if e = CHR ''t'' then Some (CHR 0x09)
      else None)"

definition emit :: "string \<Rightarrow> (string \<times> string) option \<Rightarrow> (string \<times> string) option" where
  "emit x r = map_option (\<lambda>(y, rest). (x @ y, rest)) r"

lemma hex4_shorter: "hex4 u = Some (w, v) \<Longrightarrow> length v < length u"
  by (cases u rule: hex4.cases) (auto split: option.splits)

lemma low_surrogate_shorter: "low_surrogate u = Some (w, v) \<Longrightarrow> length v < length u"
  by (auto simp: low_surrogate_def dest!: hex4_shorter split: list.splits if_splits option.splits)

lemma unicode_escape_shorter: "unicode_escape u = Some (x, v) \<Longrightarrow> length v < length u"
  by (auto simp: unicode_escape_def dest!: hex4_shorter low_surrogate_shorter
      split: option.splits if_splits prod.splits)

text \<open>The characters of a string literal up to its closing quote.\<close>

function pstring :: "string \<Rightarrow> (string \<times> string) option" where
  "pstring [] = None"
| "pstring (c # t) =
     (if c = CHR 0x22 then Some ([], t)
      else if c = CHR 0x5C then
        (case t of
           [] \<Rightarrow> None
         | e # u \<Rightarrow>
             if e = CHR ''u'' then
               (case unicode_escape u of None \<Rightarrow> None | Some (x, v) \<Rightarrow> emit x (pstring v))
             else (case simple_escape e of None \<Rightarrow> None | Some d \<Rightarrow> emit [d] (pstring u)))
      else if byte c < 32 then None
      else let n = rune_len (c # t) in
           if n = 0 then emit replacement (pstring t)
           else emit (take n (c # t)) (pstring (drop n (c # t))))"
  by pat_completeness auto
termination
  by (relation "measure length")
    (auto simp del: rune_len.simps simp: rune_len_drop Let_def dest!: unicode_escape_shorter)

declare pstring.simps(2) [simp del]

lemma pstring_bs:
  "pstring (CHR 0x5C # e # u) =
     (if e = CHR ''u'' then
        (case unicode_escape u of None \<Rightarrow> None | Some (x, v) \<Rightarrow> emit x (pstring v))
      else (case simple_escape e of None \<Rightarrow> None | Some d \<Rightarrow> emit [d] (pstring u)))"
  by (subst pstring.simps(2)) simp

lemma pstring_esc_byte:
  assumes "byte c < 128"
  shows "pstring (esc_byte c @ rest) = emit [c] (pstring rest)"
proof (cases "html_safe c")
  case True
  then have "c \<noteq> CHR 0x22" "c \<noteq> CHR 0x5C" "32 \<le> byte c"
    by (auto simp: html_safe_def)
  with assms have "pstring (c # rest) = emit [c] (pstring rest)"
    by (subst pstring.simps(2)) (auto simp: lead_len_def)
  with True show ?thesis by (simp add: esc_byte_def)
next
  case False
  show ?thesis
  proof (cases "c \<in> {CHR 0x5C, CHR 0x22, CHR 0x0A, CHR 0x0D, CHR 0x09}")
    case True
    with False show ?thesis
      by (auto simp: esc_byte_def pstring_bs simple_escape_def)
  next
    case other: False
    have bound: "byte c div 16 < 16" "byte c mod 16 < 16"
      using assms by auto
    have "byte c < 55296" using assms by simp
    with bound assms have "unicode_escape (CHR ''0'' # CHR ''0'' # hex_char (byte c div 16) #
        hex_char (byte c mod 16) # rest) = Some ([c], rest)"
      by (simp add: unicode_escape_def encode_rune_def hex_val_def [of "CHR ''0''"])
    with False other show ?thesis
      by (simp add: esc_byte_def pstring_bs)
  qed
qed

lemma pstring_rune:
  assumes wf: "wf_rune r" and len: "length r \<noteq> 1"
  shows "pstring (r @ rest) = emit r (pstring rest)"
proof -
  from wf obtain c t where r: "r = c # t" by (cases r) (auto simp: wf_rune_def)
  have n: "rune_len (c # t @ rest) = length r"
    using rune_len_append [OF wf, of rest] r by simp
  have "\<not> byte c < 128"
    using n len by (auto simp del: rune_len.simps)
  with n r wf show ?thesis
    by (auto simp: pstring.simps(2) Let_def wf_rune_def simp del: rune_len.simps)
qed

lemma pstring_esc_chunk:
  assumes "wf_chunk c"
  shows "pstring (esc_chunk c @ rest) = emit (chunk_text c) (pstring rest)"
proof (cases c)
  case (Bad b)
  have "unicode_escape (''fffd'' @ rest) = Some (replacement, rest)"
    by (simp add: unicode_escape_def hex_val_def encode_rune_def replacement_def char_of_def bit_Suc_0_iff)
  with Bad show ?thesis by (simp add: pstring_bs)
next
  case (Rune r)
  with assms have wf: "wf_rune r" by simp
  consider (one) "length r = 1" | (ls) "r = [CHR 0xE2, CHR 0x80, CHR 0xA8]"
    | (ps) "r = [CHR 0xE2, CHR 0x80, CHR 0xA9]"
    | (other) "length r \<noteq> 1" "r \<noteq> [CHR 0xE2, CHR 0x80, CHR 0xA8]" "r \<noteq> [CHR 0xE2, CHR 0x80, CHR 0xA9]"
    by blast
  then show ?thesis
  proof cases
    case one
    then obtain b where r: "r = [b]" by (auto simp: length_Suc_conv)
    with wf have "lead_len b = 1" by (auto simp: wf_rune_def Let_def split: if_splits)
    then have "byte b < 128" by (simp add: lead_len_def split: if_splits)
    with r Rune show ?thesis by (simp add: pstring_esc_byte)
  next
    case ls
    have "unicode_escape (''2028'' @ rest) = Some (r, rest)"
      by (simp add: unicode_escape_def hex_val_def encode_rune_def ls char_of_def bit_Suc_0_iff)
    with ls Rune show ?thesis by (simp add: pstring_bs)
  next
    case ps
    have "unicode_escape (''2029'' @ rest) = Some (r, rest)"
      by (simp add: unicode_escape_def hex_val_def encode_rune_def ps char_of_def bit_Suc_0_iff)
    with ps Rune show ?thesis by (simp add: pstring_bs)
  next
    case other
    with wf Rune show ?thesis by (simp add: pstring_rune)
  qed
qed

lemma pstring_chunks:
  "list_all wf_chunk cs \<Longrightarrow>
   pstring (concat (map esc_chunk cs) @ CHR 0x22 # rest) = Some (concat (map chunk_text cs), rest)"
proof (induction cs)
  case Nil
  show ?case by (simp add: pstring.simps(2))
next
  case (Cons c cs)
  then show ?case by (simp add: pstring_esc_chunk emit_def)
qed

lemma pstring_esc_string: "pstring (esc_string s @ CHR 0x22 # rest) = Some (to_valid s, rest)"
  using pstring_chunks [of "chunks s" rest] wf_chunks [of _ s]
  by (simp add: esc_string_def to_valid_def list_all_iff)

section \<open>Documents\<close>

fun is_ws :: "char \<Rightarrow> bool" where
  "is_ws c = (c \<in> {CHR '' '', CHR 0x09, CHR 0x0A, CHR 0x0D})"

definition skip_ws :: "string \<Rightarrow> string" where
  "skip_ws s = dropWhile is_ws s"

text \<open>A number literal: its integer part, fraction and exponent.\<close>

definition scan_int :: "string \<Rightarrow> (string \<times> string) option" where
  "scan_int s =
     (case s of
        [] \<Rightarrow> None
      | c # t \<Rightarrow>
          if \<not> is_digit c then None
          else if c = CHR ''0'' then Some ([c], t)
          else Some (c # takeWhile is_digit t, dropWhile is_digit t))"

definition scan_frac :: "string \<Rightarrow> (string \<times> string) option" where
  "scan_frac s =
     (case s of
        [] \<Rightarrow> Some ([], [])
      | c # t \<Rightarrow>
          if c \<noteq> CHR ''.'' then Some ([], s)
          else if takeWhile is_digit t = [] then None
          else Some (c # takeWhile is_digit t, dropWhile is_digit t))"

definition scan_exp :: "string \<Rightarrow> (string \<times> string) option" where
  "scan_exp s =
     (case s of
        [] \<Rightarrow> Some ([], [])
      | c # t \<Rightarrow>
          if c \<noteq> CHR ''e'' \<and> c \<noteq> CHR ''E'' then Some ([], s)
          else let sgn = (if t \<noteq> [] \<and> hd t \<in> {CHR ''+'', CHR ''-''} then [hd t] else []);
                   u = drop (length sgn) t
               in if takeWhile is_digit u = [] then None
                  else Some (c # sgn @ takeWhile is_digit u, dropWhile is_digit u))"

definition pnumber :: "string \<Rightarrow> (string \<times> string) option" where
  "pnumber s =
     (let sgn = (if s \<noteq> [] \<and> hd s = CHR ''-'' then [hd s] else []) in
      case scan_int (drop (length sgn) s) of
        None \<Rightarrow> None
      | Some (i, s1) \<Rightarrow>
          (case scan_frac s1 of
             None \<Rightarrow> None
           | Some (f, s2) \<Rightarrow>
               (case scan_exp s2 of
                  None \<Rightarrow> None
                | Some (e, s3) \<Rightarrow> Some (sgn @ i @ f @ e, s3))))"

definition pliteral :: "string \<Rightarrow> (json \<times> string) option" where
  "pliteral s =
     (if prefix ''null'' s then Some (JNull, drop 4 s)
      else if prefix ''true'' s then Some (JBool True, drop 4 s)
      else if prefix ''false'' s then Some (JBool False, drop 5 s)
      else map_option (\<lambda>(n, rest). (JNum n, rest)) (pnumber s))"

text \<open>The key of a member and the colon after it.\<close>

definition pkey :: "string \<Rightarrow> (string \<times> string) option" where
  "pkey s =
     (case skip_ws s of
        [] \<Rightarrow> None
      | c # t \<Rightarrow>
          if c \<noteq> CHR 0x22 then None
          else (case pstring t of
                  None \<Rightarrow> None
                | Some (k, u) \<Rightarrow>
                    (case skip_ws u of
                       [] \<Rightarrow> None
                     | d # v \<Rightarrow> if d = CHR '':'' then Some (k, v) else None)))"

fun pvalue :: "nat \<Rightarrow> string \<Rightarrow> (json \<times> string) option"
  and pelems :: "nat \<Rightarrow> string \<Rightarrow> (json list \<times> string) option"
  and pmembers :: "nat \<Rightarrow> string \<Rightarrow> ((string \<times> json) list \<times> string) option" where
  "pvalue 0 s = None"
| "pvalue (Suc n) s =
     (case skip_ws s of
        [] \<Rightarrow> None
      | c # t \<Rightarrow>
          if c = CHR 0x22 then map_option (\<lambda>(x, rest). (JStr x, rest)) (pstring t)
          else if c = CHR ''['' then
            (if skip_ws t \<noteq> [] \<and> hd (skip_ws t) = CHR '']'' then Some (JArr [], tl (skip_ws t))
             else map_option (\<lambda>(xs, rest). (JArr xs, rest)) (pelems n t))
          else if c = CHR ''{'' then
            (if skip_ws t \<noteq> [] \<and> hd (skip_ws t) = CHR ''}'' then Some (JObj [], tl (skip_ws t))
             else map_option (\<lambda>(ms, rest). (JObj ms, rest)) (pmembers n t))
          else pliteral (c # t))"
| "pelems 0 s = None"
| "pelems (Suc n) s =
     (case pvalue n s of
        None \<Rightarrow> None
      | Some (x, t) \<Rightarrow>
          (case skip_ws t of
             [] \<Rightarrow> None
           | c # u \<Rightarrow>
               if c = CHR '']'' then Some ([x], u)
               else if c = CHR '','' then map_option (\<lambda>(xs, rest). (x # xs, rest)) (pelems n u)
               else None))"
| "pmembers 0 s = None"
| "pmembers (Suc n) s =
     (case pkey s of
        None \<Rightarrow> None
      | Some (k, s1) \<Rightarrow>
          (case pvalue n s1 of
             None \<Rightarrow> None
           | Some (x, t) \<Rightarrow>
               (case skip_ws t of
                  [] \<Rightarrow> None
                | c # u \<Rightarrow>
                    if c = CHR ''}'' then Some ([(k, x)], u)
                    else if c = CHR '','' then
                      map_option (\<lambda>(ms, rest). ((k, x) # ms, rest)) (pmembers n u)
                    else None)))"

text \<open>The whole input is one document.\<close>

definition parse_json :: "string \<Rightarrow> json option" where
  "parse_json s =
     (case pvalue (2 * length s + 1) s of
        None \<Rightarrow> None
      | Some (j, rest) \<Rightarrow> if skip_ws rest = [] then Some j else None)"

text \<open>What the encoder writes.\<close>

fun print_json :: "json \<Rightarrow> string" where
  "print_json JNull = ''null''"
| "print_json (JBool b) = (if b then ''true'' else ''false'')"
| "print_json (JNum n) = n"
| "print_json (JStr s) = quote s"
| "print_json (JArr xs) = CHR ''['' # Join (map print_json xs) '','' @ '']''"
| "print_json (JObj ms) =
     CHR ''{'' # Join (map (\<lambda>(k, x). quote k @ '':'' @ print_json x) ms) '','' @ ''}''"

text \<open>The trees the encoder makes: their numbers are integers. Reading one back replaces the
  invalid bytes of its strings.\<close>

fun wf_json :: "json \<Rightarrow> bool" where
  "wf_json (JNum n) = (\<exists>i. n = itoa i)"
| "wf_json (JArr xs) = list_all wf_json xs"
| "wf_json (JObj ms) = list_all (\<lambda>(k, x). wf_json x) ms"
| "wf_json _ = True"

fun norm_json :: "json \<Rightarrow> json" where
  "norm_json (JStr s) = JStr (to_valid s)"
| "norm_json (JArr xs) = JArr (map norm_json xs)"
| "norm_json (JObj ms) = JObj (map (\<lambda>(k, x). (to_valid k, norm_json x)) ms)"
| "norm_json j = j"

section \<open>Reading back what was written\<close>

definition at_delim :: "string \<Rightarrow> bool" where
  "at_delim s \<longleftrightarrow> s = [] \<or> hd s \<in> {CHR '','', CHR '']'', CHR ''}''}"

lemma at_delim_simps [simp]:
  "at_delim []" "at_delim (CHR '','' # s)" "at_delim (CHR '']'' # s)" "at_delim (CHR ''}'' # s)"
  by (simp_all add: at_delim_def)

lemma skip_ws_Cons: "\<not> is_ws c \<Longrightarrow> skip_ws (c # t) = c # t"
  by (simp add: skip_ws_def)

lemma skip_ws_length: "length (skip_ws s) \<le> length s"
  by (simp add: skip_ws_def length_dropWhile_le)

lemma at_delim_stop:
  assumes "at_delim s"
  shows "s = [] \<or> \<not> is_digit (hd s) \<and> hd s \<noteq> CHR ''.'' \<and> hd s \<noteq> CHR ''e'' \<and> hd s \<noteq> CHR ''E''"
  using assms by (auto simp: at_delim_def is_digit_def)

lemma takeWhile_digits:
  assumes "list_all P xs" and "s = [] \<or> \<not> P (hd s)"
  shows "takeWhile P (xs @ s) = xs \<and> dropWhile P (xs @ s) = s"
  using assms by (cases s) (auto simp: takeWhile_append dropWhile_append list_all_iff)

lemma scan_int_dec:
  assumes "s = [] \<or> \<not> is_digit (hd s)"
  shows "scan_int (decimal n @ s) = Some (decimal n, s)"
proof (cases "n = 0")
  case True
  then show ?thesis by (simp add: decimal.simps scan_int_def digit_char_def is_digit_def char_of_def bit_Suc_0_iff)
next
  case False
  obtain c t where d: "decimal n = c # t" by (cases "decimal n") auto
  from False d have "c \<noteq> CHR ''0''" using dec_leading [of n] by simp
  moreover have "is_digit c" "list_all is_digit t"
    using dec_digits [of _ n] d by (auto simp: list_all_iff)
  ultimately show ?thesis
    using takeWhile_digits [of is_digit t s] assms by (simp add: scan_int_def d)
qed

lemma scan_at_delim: "at_delim s \<Longrightarrow> scan_frac s = Some ([], s) \<and> scan_exp s = Some ([], s)"
  using at_delim_stop [of s] by (auto simp: scan_frac_def scan_exp_def split: list.split)

lemma pnumber_itoa:
  assumes "at_delim s"
  shows "pnumber (itoa i @ s) = Some (itoa i, s)"
proof -
  have stop: "s = [] \<or> \<not> is_digit (hd s)" using at_delim_stop [OF assms] by blast
  have nominus: "hd (decimal n @ s) \<noteq> CHR ''-''" for n
    using hd_dec_digit [of n] by (auto simp: is_digit_def)
  show ?thesis
    using scan_int_dec [OF stop] scan_at_delim [OF assms] nominus
    by (simp add: pnumber_def itoa_def Let_def)
qed

lemma itoa_head: "\<exists>c t. itoa i = c # t \<and> (is_digit c \<or> c = CHR ''-'')"
proof (cases "i < 0")
  case False
  obtain c t where "decimal (nat i) = c # t" by (cases "decimal (nat i)") auto
  with False dec_digits [of c "nat i"] show ?thesis by (simp add: itoa_def)
qed (simp add: itoa_def)

lemma pliteral_itoa:
  assumes "at_delim s"
  shows "pliteral (itoa i @ s) = Some (JNum (itoa i), s)"
proof -
  obtain c t where h: "itoa i = c # t" and c: "is_digit c \<or> c = CHR ''-''"
    using itoa_head by blast
  from c have "c \<notin> {CHR ''n'', CHR ''t'', CHR ''f''}" by (auto simp: is_digit_def)
  then show ?thesis
    using pnumber_itoa [OF assms, of i] by (auto simp: pliteral_def h)
qed

lemma print_head:
  assumes "wf_json j"
  obtains c t where "print_json j = c # t" "\<not> is_ws c" "c \<noteq> CHR '']''" "c \<noteq> CHR ''}''"
proof (cases j)
  case (JNum n)
  with assms obtain i where i: "n = itoa i" by auto
  obtain c t where h: "itoa i = c # t" and c: "is_digit c \<or> c = CHR ''-''"
    using itoa_head by blast
  from c have "\<not> is_ws c" "c \<noteq> CHR '']''" "c \<noteq> CHR ''}''"
    by (auto simp: is_digit_def)
  with h i JNum show ?thesis by (intro that) simp_all
next
  case (JBool b)
  then show ?thesis by (cases b) (auto intro: that)
qed (auto simp: quote_def intro: that)

lemma pvalue_JNum:
  assumes "at_delim s"
  shows "pvalue (Suc n) (itoa i @ s) = Some (JNum (itoa i), s)"
proof -
  obtain c t where h: "itoa i = c # t" and c: "is_digit c \<or> c = CHR ''-''"
    using itoa_head by blast
  from c have "\<not> is_ws c" "c \<noteq> CHR 0x22" "c \<noteq> CHR ''[''" "c \<noteq> CHR ''{''"
    by (auto simp: is_digit_def)
  then show ?thesis
    using pliteral_itoa [OF assms, of i] by (simp add: h skip_ws_Cons)
qed

lemma pkey_quote: "pkey (quote k @ CHR '':'' # s) = Some (to_valid k, s)"
  using pstring_esc_string [of k "CHR '':'' # s"]
  by (simp add: pkey_def quote_def skip_ws_Cons)

text \<open>Elements and members, given that each value reads back.\<close>

definition reads :: "json \<Rightarrow> bool" where
  "reads j \<longleftrightarrow> (\<forall>n s. 2 * length (print_json j) \<le> n \<longrightarrow> at_delim s \<longrightarrow>
     pvalue n (print_json j @ s) = Some (norm_json j, s))"

lemma readsD:
  "reads j \<Longrightarrow> 2 * length (print_json j) \<le> n \<Longrightarrow> at_delim s \<Longrightarrow>
   pvalue n (print_json j @ s) = Some (norm_json j, s)"
  by (simp add: reads_def)

lemma pelems_print:
  assumes "\<And>x. x \<in> set xs \<Longrightarrow> reads x" and "xs \<noteq> []"
    and "2 * length (Join (map print_json xs) '','') + 1 \<le> n"
  shows "pelems n (Join (map print_json xs) '','' @ CHR '']'' # s) = Some (map norm_json xs, s)"
  using assms
proof (induction xs arbitrary: n)
  case Nil
  then show ?case by simp
next
  case (Cons x xs)
  obtain m where n: "n = Suc m" using Cons.prems(3) by (cases n) auto
  show ?case
  proof (cases "xs = []")
    case True
    with Cons.prems n readsD [of x m "CHR '']'' # s"] show ?thesis
      by (simp add: skip_ws_Cons)
  next
    case False
    let ?tail = "Join (map print_json xs) '','' @ CHR '']'' # s"
    have len: "2 * length (print_json x) \<le> m" "2 * length (Join (map print_json xs) '','') + 1 \<le> m"
      using Cons.prems(3) n False by (simp_all add: Join_Cons)
    have "pvalue m (print_json x @ CHR '','' # ?tail) = Some (norm_json x, CHR '','' # ?tail)"
      using Cons.prems(1) len(1) by (intro readsD) simp_all
    moreover have "pelems m ?tail = Some (map norm_json xs, s)"
      using Cons.IH [OF Cons.prems(1) False len(2)] by simp
    ultimately show ?thesis
      using False n by (simp add: Join_Cons skip_ws_Cons)
  qed
qed

definition print_member :: "string \<times> json \<Rightarrow> string" where
  "print_member m = quote (fst m) @ '':'' @ print_json (snd m)"

lemma print_member_pair: "print_member (k, x) = quote k @ '':'' @ print_json x"
  by (simp add: print_member_def)

lemma print_json_JObj:
  "print_json (JObj ms) = CHR ''{'' # Join (map print_member ms) '','' @ ''}''"
  by (simp add: print_member_def case_prod_unfold cong: map_cong)

lemma pmembers_print:
  assumes "\<And>m. m \<in> set ms \<Longrightarrow> reads (snd m)" and "ms \<noteq> []"
    and "2 * length (Join (map print_member ms) '','') + 1 \<le> n"
  shows "pmembers n (Join (map print_member ms) '','' @ CHR ''}'' # s) =
    Some (map (\<lambda>(k, x). (to_valid k, norm_json x)) ms, s)"
  using assms
proof (induction ms arbitrary: n)
  case Nil
  then show ?case by simp
next
  case (Cons m ms)
  obtain i where n: "n = Suc i" using Cons.prems(3) by (cases n) auto
  obtain k x where m: "m = (k, x)" by force
  show ?case
  proof (cases "ms = []")
    case True
    with Cons.prems n m readsD [of x i "CHR ''}'' # s"] show ?thesis
      by (simp add: print_member_pair pkey_quote skip_ws_Cons)
  next
    case False
    let ?tail = "Join (map print_member ms) '','' @ CHR ''}'' # s"
    have len: "2 * length (print_json x) \<le> i" "2 * length (Join (map print_member ms) '','') + 1 \<le> i"
      using Cons.prems(3) n m False by (simp_all add: Join_Cons print_member_pair)
    have "pvalue i (print_json x @ CHR '','' # ?tail) = Some (norm_json x, CHR '','' # ?tail)"
      using Cons.prems(1) [of m] len(1) m by (intro readsD) simp_all
    moreover have "pmembers i ?tail = Some (map (\<lambda>(k, x). (to_valid k, norm_json x)) ms, s)"
      using Cons.IH [OF Cons.prems(1) False len(2)] by simp
    ultimately show ?thesis
      using False n m by (simp add: Join_Cons print_member_pair pkey_quote skip_ws_Cons)
  qed
qed

lemma reads_wf: "wf_json j \<Longrightarrow> reads j"
proof (induction j)
  case JNull
  have "pvalue n (''null'' @ s) = Some (JNull, s)" if "1 \<le> n" for n s
    using that by (cases n) (simp_all add: skip_ws_Cons pliteral_def)
  then show ?case by (simp add: reads_def)
next
  case (JBool b)
  have "pvalue n ((if b then ''true'' else ''false'') @ s) = Some (JBool b, s)" if "1 \<le> n" for n s
    using that by (cases n) (simp_all add: skip_ws_Cons pliteral_def)
  then show ?case by (cases b) (auto simp: reads_def)
next
  case (JNum n)
  then obtain i where i: "n = itoa i" by auto
  have "pvalue k (itoa i @ s) = Some (JNum (itoa i), s)"
    if "2 * length (itoa i) \<le> k" "at_delim s" for k s
    using that itoa_head [of i] pvalue_JNum [of s "k - 1" i] by (cases k) auto
  with i show ?case by (simp add: reads_def)
next
  case (JStr x)
  have "pvalue k (quote x @ s) = Some (JStr (to_valid x), s)" if "2 * length (quote x) \<le> k" for k s
    using that pstring_esc_string [of x s] by (cases k) (simp_all add: quote_def skip_ws_Cons)
  then show ?case by (simp add: reads_def)
next
  case (JArr xs)
  show ?case
    unfolding reads_def
  proof (intro allI impI)
    fix n s
    assume n: "2 * length (print_json (JArr xs)) \<le> n" and "at_delim s"
    obtain m where m: "n = Suc m" using n by (cases n) auto
    have sub: "\<And>x. x \<in> set xs \<Longrightarrow> reads x" and wf: "\<And>x. x \<in> set xs \<Longrightarrow> wf_json x"
      using JArr by (auto simp: list_all_iff)
    show "pvalue n (print_json (JArr xs) @ s) = Some (norm_json (JArr xs), s)"
    proof (cases xs)
      case Nil
      with m show ?thesis by (simp add: skip_ws_Cons)
    next
      case (Cons x xs')
      obtain c t where c: "print_json x = c # t" "\<not> is_ws c" "c \<noteq> CHR '']''"
        using print_head [of x] wf [of x] Cons by (metis list.set_intros(1))
      have "Join (map print_json xs) '','' = c # tl (Join (map print_json xs) '','')"
        using c Cons by (cases xs') auto
      then have head: "skip_ws (Join (map print_json xs) '','' @ CHR '']'' # s) =
          c # tl (Join (map print_json xs) '','') @ CHR '']'' # s"
        by (metis append_Cons c(2) skip_ws_Cons)
      have "pelems m (Join (map print_json xs) '','' @ CHR '']'' # s) = Some (map norm_json xs, s)"
        using n m Cons by (intro pelems_print sub) simp_all
      with m head c show ?thesis by (simp add: skip_ws_Cons)
    qed
  qed
next
  case (JObj ms)
  show ?case
    unfolding reads_def print_json_JObj
  proof (intro allI impI)
    fix n s
    assume n: "2 * length (CHR ''{'' # Join (map print_member ms) '','' @ ''}'') \<le> n" and "at_delim s"
    obtain m where m: "n = Suc m" using n by (cases n) auto
    have sub: "\<And>x. x \<in> set ms \<Longrightarrow> reads (snd x)"
      using JObj by (fastforce simp: list_all_iff)
    show "pvalue n ((CHR ''{'' # Join (map print_member ms) '','' @ ''}'') @ s) =
        Some (norm_json (JObj ms), s)"
    proof (cases ms)
      case Nil
      with m show ?thesis by (simp add: skip_ws_Cons)
    next
      case (Cons x ms')
      have "\<exists>t. Join (map print_member ms) '','' = CHR 0x22 # t"
        using Cons by (cases ms') (auto simp: print_member_def quote_def)
      then obtain t where t: "Join (map print_member ms) '','' = CHR 0x22 # t" by blast
      have "pmembers m (Join (map print_member ms) '','' @ CHR ''}'' # s) =
          Some (map (\<lambda>(k, x). (to_valid k, norm_json x)) ms, s)"
        using n m Cons by (intro pmembers_print sub) simp_all
      with m t show ?thesis by (simp add: skip_ws_Cons)
    qed
  qed
qed

theorem parse_print: "wf_json j \<Longrightarrow> parse_json (print_json j) = Some (norm_json j)"
  using readsD [OF reads_wf, of j "2 * length (print_json j) + 1" "[]"]
  by (simp add: parse_json_def skip_ws_def)

section \<open>The parser's fuel\<close>

lemma emit_Some: "emit x r = Some (y, rest) \<longleftrightarrow> (\<exists>z. r = Some (z, rest) \<and> y = x @ z)"
  by (auto simp: emit_def)

lemma pstring_shorter: "pstring s = Some (x, r) \<Longrightarrow> length r < length s"
proof (induction s arbitrary: x r rule: pstring.induct)
  case (2 c t)
  show ?case
  proof (cases "c = CHR 0x22 \<or> c = CHR 0x5C")
    case True
    with 2 show ?thesis
      by (fastforce simp: pstring.simps(2) emit_Some dest: unicode_escape_shorter
          split: list.splits option.splits if_splits prod.splits)
  next
    case False
    show ?thesis
    proof (cases "rune_len (c # t) = 0")
      case True
      with 2 False show ?thesis
        by (fastforce simp: pstring.simps(2) emit_Some Let_def simp del: rune_len.simps split: if_splits)
    next
      case nz: False
      then have "length (drop (rune_len (c # t)) (c # t)) < length (c # t)"
        by (intro rune_len_drop) simp_all
      with 2 False nz show ?thesis
        by (fastforce simp: pstring.simps(2) emit_Some Let_def simp del: rune_len.simps split: if_splits)
    qed
  qed
qed simp

lemma scan_shorter:
  "scan_int s = Some (x, r) \<Longrightarrow> length r < length s"
  "scan_frac s = Some (x, r) \<Longrightarrow> length r \<le> length s"
  "scan_exp s = Some (x, r) \<Longrightarrow> length r \<le> length s"
  by (auto simp: scan_int_def scan_frac_def scan_exp_def Let_def le_SucI length_dropWhile_le
      intro: le_imp_less_Suc order_trans [OF length_dropWhile_le] split: list.splits if_splits)

lemma pnumber_shorter: "pnumber s = Some (x, r) \<Longrightarrow> length r < length s"
  by (fastforce simp: pnumber_def Let_def dest: scan_shorter split: option.splits prod.splits if_splits)

lemma pliteral_shorter: "pliteral s = Some (x, r) \<Longrightarrow> length r < length s"
  by (auto simp: pliteral_def prefix_def dest: pnumber_shorter split: if_splits)

lemma skip_ws_shorter: "skip_ws s = c # t \<Longrightarrow> length t < length s"
  using skip_ws_length [of s] by simp

lemma pkey_shorter: "pkey s = Some (k, r) \<Longrightarrow> length r < length s"
  by (fastforce simp: pkey_def dest: skip_ws_shorter pstring_shorter
      split: list.splits if_splits option.splits prod.splits)

lemma parser_shorter:
  "pvalue n s = Some (j, r) \<Longrightarrow> length r < length s"
  "pelems n s = Some (xs, r) \<Longrightarrow> length r < length s"
  "pmembers n s = Some (ms, r) \<Longrightarrow> length r < length s"
proof (induction n s and n s and n s arbitrary: j r and xs r and ms r rule: pvalue_pelems_pmembers.induct)
  case (2 n s)
  then obtain c t where s: "skip_ws s = c # t" by (auto split: list.splits)
  then have t: "length t < length s" "length (c # t) \<le> length s"
    using skip_ws_shorter skip_ws_length [of s] by auto
  have "length (tl (skip_ws t)) \<le> length t" using skip_ws_length [of t] by simp
  with 2 s t show ?case
    by (fastforce dest: pstring_shorter pliteral_shorter split: if_splits)
next
  case (4 n s)
  then show ?case by (fastforce dest: skip_ws_shorter split: option.splits list.splits if_splits)
next
  case (6 n s)
  then show ?case
    by (fastforce dest: skip_ws_shorter pkey_shorter split: option.splits list.splits if_splits)
qed simp_all

lemma parser_fuel:
  "(\<forall>s. 2 * length s + 1 \<le> n \<longrightarrow> pvalue (Suc n) s = pvalue n s) \<and>
   (\<forall>s. 2 * length s + 2 \<le> n \<longrightarrow> pelems (Suc n) s = pelems n s) \<and>
   (\<forall>s. 2 * length s + 2 \<le> n \<longrightarrow> pmembers (Suc n) s = pmembers n s)"
proof (induction n)
  case 0
  then show ?case by simp
next
  case (Suc n)
  have val: "pvalue (Suc (Suc n)) s = pvalue (Suc n) s" if "2 * length s + 1 \<le> Suc n" for s
  proof (cases "skip_ws s")
    case (Cons c t)
    then have "2 * length t + 2 \<le> n" using that skip_ws_shorter by fastforce
    then have "pelems (Suc n) t = pelems n t" "pmembers (Suc n) t = pmembers n t"
      using Suc.IH by blast+
    with Cons show ?thesis by (simp del: pelems.simps pmembers.simps)
  qed simp
  have el: "pelems (Suc (Suc n)) s = pelems (Suc n) s" if "2 * length s + 2 \<le> Suc n" for s
  proof -
    have v: "pvalue (Suc n) s = pvalue n s" using Suc.IH that by simp
    have r: "pelems (Suc n) u = pelems n u"
      if "pvalue n s = Some (x, t)" "skip_ws t = c # u" for x t c u
      using parser_shorter(1) [OF that(1)] skip_ws_shorter [OF that(2)] Suc.IH
        \<open>2 * length s + 2 \<le> Suc n\<close> by simp
    show ?thesis
      by (auto simp: pelems.simps(2) [of "Suc n" s] pelems.simps(2) [of n s] v r
          simp del: pelems.simps pvalue.simps split: option.split list.split)
  qed
  have mem: "pmembers (Suc (Suc n)) s = pmembers (Suc n) s" if "2 * length s + 2 \<le> Suc n" for s
  proof -
    have v: "pvalue (Suc n) s1 = pvalue n s1" if "pkey s = Some (k, s1)" for k s1
      using Suc.IH \<open>2 * length s + 2 \<le> Suc n\<close> pkey_shorter [OF that] by simp
    have r: "pmembers (Suc n) u = pmembers n u"
      if "pkey s = Some (k, s1)" "pvalue n s1 = Some (x, t)" "skip_ws t = c # u" for k s1 x t c u
      using pkey_shorter [OF that(1)] parser_shorter(1) [OF that(2)] skip_ws_shorter [OF that(3)]
        Suc.IH \<open>2 * length s + 2 \<le> Suc n\<close> by simp
    show ?thesis
      by (auto simp: pmembers.simps(2) [of "Suc n" s] pmembers.simps(2) [of n s] v r
          simp del: pmembers.simps pvalue.simps split: option.split list.split)
  qed
  from val el mem show ?case by blast
qed

lemma pvalue_fuel_enough: "2 * length s + 1 \<le> n \<Longrightarrow> pvalue n s = pvalue (2 * length s + 1) s"
proof (induction n rule: dec_induct)
  case (step n)
  then show ?case using parser_fuel [of n] by simp
qed simp

end
