(* ===== verification/JsonValid.thy ===== *)
theory JsonValid
  imports Json
begin

text \<open>
  Whatever the JSON decoder accepts, the strings it returns are valid UTF-8: raw invalid bytes and
  lone surrogates are replaced, escapes are encoded. This is what makes a decoded value fit to be
  encoded again.
\<close>

lemma valid_concat_runes:
  assumes "list_all wf_rune rs"
  shows "valid_utf8 (concat rs)"
proof -
  have "list_all wf_chunk (map Rune rs)" using assms by (simp add: list_all_iff)
  then have "chunks (concat (map chunk_text (map Rune rs))) = map (\<lambda>c. Rune (chunk_text c)) (map Rune rs)"
    by (rule chunks_concat)
  then show ?thesis by (simp add: valid_utf8_def comp_def list_all_iff)
qed

definition code_point :: "nat \<Rightarrow> bool" where
  "code_point w \<longleftrightarrow> w < 55296 \<or> 57344 \<le> w \<and> w < 1114112"

lemma wf_rune_ascii: "byte c < 128 \<Longrightarrow> wf_rune [c]"
  by (simp add: wf_rune_def lead_len_def)

lemma wf_rune_encode2:
  fixes w :: nat
  assumes "128 \<le> w" "w < 2048"
  shows "wf_rune [char_of (192 + w div 64), char_of (128 + w mod 64)]"
proof -
  have "2 \<le> w div 64" "w div 64 < 32" "w mod 64 < 64" using assms by auto
  then show ?thesis
    by (simp add: wf_rune_def lead_len_def second_ok_def cont_byte_def)
qed

lemma wf_rune_encode3:
  fixes w :: nat
  assumes "2048 \<le> w" "w < 65536" "code_point w"
  shows "wf_rune [char_of (224 + w div 4096), char_of (128 + w div 64 mod 64), char_of (128 + w mod 64)]"
proof -
  define a b c where "a = w div 4096" and "b = w div 64 mod 64" and "c = w mod 64"
  note flip = a_def [symmetric] b_def [symmetric] c_def [symmetric]
  have "w div 64 = w div 64 div 64 * 64 + w div 64 mod 64" by simp
  then have "w div 64 = a * 64 + b" using div_mult2_eq [of w 64 64] by (simp add: a_def b_def)
  then have w: "w = (a * 64 + b) * 64 + c" unfolding c_def by (metis div_mult_mod_eq)
  have lt: "a < 16" "b < 64" "c < 64" using assms by (auto simp: a_def b_def c_def)
  have "32 \<le> b" if "a = 0" using assms(1) w lt that by simp
  moreover have "b \<le> 31" if "a = 13"
  proof (rule ccontr)
    assume "\<not> b \<le> 31"
    with that w lt have "55296 \<le> w" "w < 57344" by simp_all
    with assms(3) show False by (simp add: code_point_def)
  qed
  ultimately show ?thesis
    unfolding flip using lt by (auto simp add: wf_rune_def lead_len_def second_ok_def cont_byte_def)
qed

lemma wf_rune_encode4:
  fixes w :: nat
  assumes "65536 \<le> w" "w < 1114112"
  shows "wf_rune [char_of (240 + w div 262144), char_of (128 + w div 4096 mod 64),
    char_of (128 + w div 64 mod 64), char_of (128 + w mod 64)]"
proof -
  define a b c d where "a = w div 262144" and "b = w div 4096 mod 64"
    and "c = w div 64 mod 64" and "d = w mod 64"
  note flip = a_def [symmetric] b_def [symmetric] c_def [symmetric] d_def [symmetric]
  have lt: "a < 5" "b < 64" "c < 64" "d < 64" using assms by (auto simp: a_def b_def c_def d_def)
  have "w div 4096 = a * 64 + b" "16 \<le> w div 4096" "w div 4096 < 272"
    using assms div_mult2_eq [of w 4096 64] by (auto simp: a_def b_def)
  then have "a = 0 \<Longrightarrow> 16 \<le> b" "a = 4 \<Longrightarrow> b \<le> 15" by simp_all
  with lt show ?thesis
    unfolding flip by (auto simp add: wf_rune_def lead_len_def second_ok_def cont_byte_def)
qed

lemma wf_encode_rune: "code_point w \<Longrightarrow> wf_rune (encode_rune w)"
  by (auto simp: encode_rune_def code_point_def wf_rune_ascii wf_rune_encode2 wf_rune_encode3
      wf_rune_encode4)

lemma hex_val_lt: "hex_val c = Some x \<Longrightarrow> x < 16"
  by (auto simp: hex_val_def split: if_splits)

lemma hex4_lt: "hex4 u = Some (w, v) \<Longrightarrow> w < 65536"
  by (cases u rule: hex4.cases) (auto split: option.splits dest!: hex_val_lt)

lemma low_surrogate_range: "low_surrogate u = Some (w, v) \<Longrightarrow> 56320 \<le> w \<and> w < 57344"
  by (auto simp: low_surrogate_def split: list.splits if_splits option.splits)

lemma unicode_escape_wf: "unicode_escape u = Some (x, v) \<Longrightarrow> wf_rune x"
  by (auto simp: unicode_escape_def code_point_def intro!: wf_encode_rune
      dest!: hex4_lt low_surrogate_range split: option.splits if_splits prod.splits)

lemma pstring_runes: "pstring s = Some (x, r) \<Longrightarrow> \<exists>rs. list_all wf_rune rs \<and> x = concat rs"
proof (induction s arbitrary: x r rule: pstring.induct)
  case (2 c t)
  have extend: "\<exists>rs. list_all wf_rune rs \<and> x = concat rs"
    if "emit y m = Some (x, r)" "wf_rune y" "\<And>z. m = Some (z, r) \<Longrightarrow> \<exists>rs. list_all wf_rune rs \<and> z = concat rs"
    for y m
  proof -
    from that(1) obtain z where "m = Some (z, r)" "x = y @ z" by (auto simp: emit_def)
    with that(2,3) obtain rs where "list_all wf_rune (y # rs)" "x = concat (y # rs)" by auto
    then show ?thesis by blast
  qed
  consider (close) "c = CHR 0x22" | (esc) "c = CHR 0x5C" | (ctl) "c \<noteq> CHR 0x22" "c \<noteq> CHR 0x5C" "byte c < 32"
    | (raw) "c \<noteq> CHR 0x22" "c \<noteq> CHR 0x5C" "\<not> byte c < 32" by blast
  then show ?case
  proof cases
    case close
    with "2.prems" show ?thesis by (intro exI [of _ "[]"]) (simp add: pstring.simps(2))
  next
    case ctl
    with "2.prems" show ?thesis by (simp add: pstring.simps(2))
  next
    case esc
    with "2.prems" obtain e u where t: "t = e # u" by (auto simp: pstring.simps(2) split: list.splits)
    show ?thesis
    proof (cases "e = CHR ''u''")
      case True
      with "2.prems" esc t obtain y v where y: "unicode_escape u = Some (y, v)" "emit y (pstring v) = Some (x, r)"
        by (auto simp: pstring_bs split: option.splits)
      show ?thesis
        by (rule extend [OF y(2) unicode_escape_wf [OF y(1)]])
          (use "2.IH"(1) esc t True y in simp)
    next
      case False
      with "2.prems" esc t obtain d where d: "simple_escape e = Some d" "emit [d] (pstring u) = Some (x, r)"
        by (auto simp: pstring_bs split: option.splits)
      have "wf_rune [d]" using d(1) by (auto simp: simple_escape_def wf_rune_ascii split: if_splits)
      then show ?thesis
        by (rule extend [OF d(2)]) (use "2.IH"(2) esc t False d in simp)
    qed
  next
    case raw
    show ?thesis
    proof (cases "rune_len (c # t) = 0")
      case True
      with "2.prems" raw have "emit replacement (pstring t) = Some (x, r)"
        by (simp add: pstring.simps(2) Let_def del: rune_len.simps)
      then show ?thesis
        by (rule extend) (use "2.IH"(3) raw True in \<open>simp_all del: rune_len.simps\<close>)
    next
      case False
      with "2.prems" raw have e: "emit (take (rune_len (c # t)) (c # t)) (pstring (drop (rune_len (c # t)) (c # t))) = Some (x, r)"
        by (simp add: pstring.simps(2) Let_def del: rune_len.simps)
      show ?thesis
        by (rule extend [OF e wf_rune_take [OF False]])
          (use "2.IH"(4) raw False in \<open>simp del: rune_len.simps\<close>)
    qed
  qed
qed simp

lemma pstring_valid: "pstring s = Some (x, r) \<Longrightarrow> valid_utf8 x"
  using pstring_runes valid_concat_runes by blast

fun valid_json :: "json \<Rightarrow> bool" where
  "valid_json (JStr s) = valid_utf8 s"
| "valid_json (JArr xs) = list_all valid_json xs"
| "valid_json (JObj ms) = list_all (\<lambda>(k, x). valid_utf8 k \<and> valid_json x) ms"
| "valid_json _ = True"

lemma pkey_valid: "pkey s = Some (k, r) \<Longrightarrow> valid_utf8 k"
  by (auto simp: pkey_def dest: pstring_valid split: list.splits if_splits option.splits)

lemma pliteral_valid: "pliteral s = Some (j, r) \<Longrightarrow> valid_json j"
  by (auto simp: pliteral_def split: if_splits)

lemma parser_valid:
  "pvalue n s = Some (j, r) \<Longrightarrow> valid_json j"
  "pelems n s = Some (xs, r) \<Longrightarrow> list_all valid_json xs"
  "pmembers n s = Some (ms, r) \<Longrightarrow> list_all (\<lambda>(k, x). valid_utf8 k \<and> valid_json x) ms"
proof (induction n s and n s and n s arbitrary: j r and xs r and ms r rule: pvalue_pelems_pmembers.induct)
  case (2 n s)
  then show ?case
    by (auto dest: pstring_valid pliteral_valid split: list.splits if_splits)
next
  case (4 n s)
  then show ?case by (fastforce split: option.splits list.splits if_splits)
next
  case (6 n s)
  then show ?case by (fastforce dest: pkey_valid split: option.splits list.splits if_splits)
qed simp_all

theorem parse_json_valid: "parse_json s = Some j \<Longrightarrow> valid_json j"
  by (auto simp: parse_json_def simp del: pvalue.simps dest: parser_valid split: option.splits if_splits)

section \<open>What the encoder writes is valid UTF-8\<close>

text \<open>A text made of whole runes; such texts are closed under concatenation.\<close>

definition runes :: "string \<Rightarrow> bool" where
  "runes s \<longleftrightarrow> (\<exists>rs. list_all wf_rune rs \<and> s = concat rs)"

lemma runes_valid: "runes s \<Longrightarrow> valid_utf8 s"
  by (auto simp: runes_def intro: valid_concat_runes)

lemma runes_Nil [simp]: "runes []"
  by (auto simp: runes_def intro: exI [of _ "[]"])

lemma runes_append [intro]: "runes s \<Longrightarrow> runes t \<Longrightarrow> runes (s @ t)"
  unfolding runes_def by (metis concat_append list_all_append)

lemma runes_rune: "wf_rune r \<Longrightarrow> runes r"
  by (auto simp: runes_def intro: exI [of _ "[r]"])

lemma runes_Cons: "byte c < 128 \<Longrightarrow> runes s \<Longrightarrow> runes (c # s)"
  using runes_append [OF runes_rune [OF wf_rune_ascii], of c s] by simp

lemma runes_ascii: "ascii s \<Longrightarrow> runes s"
  by (induction s) (auto simp: ascii_def intro: runes_Cons)

lemma runes_concat: "list_all runes ss \<Longrightarrow> runes (concat ss)"
  by (induction ss) auto

lemma runes_Join: "list_all runes ss \<Longrightarrow> runes sep \<Longrightarrow> runes (Join ss sep)"
  by (induction ss sep rule: Join.induct) auto

lemma byte_hex_digit: "d < 16 \<Longrightarrow> byte (hex_char d) < 128"
  by (auto simp: hex_char_def)

lemma runes_esc_byte: "byte c < 128 \<Longrightarrow> runes (esc_byte c)"
  by (rule runes_ascii) (auto simp: esc_byte_def ascii_def byte_hex_digit less_mult_imp_div_less)

lemma runes_esc_chunk: "wf_chunk c \<Longrightarrow> runes (esc_chunk c)"
proof (cases c)
  case (Rune r)
  assume "wf_chunk c"
  with Rune have wf: "wf_rune r" by simp
  show ?thesis
  proof (cases "length r = 1")
    case True
    then obtain b where r: "r = [b]" by (auto simp: length_Suc_conv)
    with wf have "lead_len b = 1" by (auto simp: wf_rune_def Let_def split: if_splits)
    then have "byte b < 128" by (simp add: lead_len_def split: if_splits)
    with r Rune show ?thesis by (simp add: runes_esc_byte)
  next
    case False
    then show ?thesis using Rune runes_rune [OF wf] by (auto intro!: runes_ascii simp: ascii_def)
  qed
qed (simp add: runes_ascii ascii_def)

lemma runes_quote: "runes (quote s)"
  unfolding quote_def esc_string_def
  using wf_chunks [of _ s]
  by (intro runes_Cons runes_append runes_concat) (auto simp: list_all_iff runes_esc_chunk)

lemma runes_itoa: "runes (itoa i)"
  using decimal_digits_ascii by (intro runes_ascii) (auto simp: itoa_def ascii_def list_all_iff)

lemma print_json_runes: "wf_json j \<Longrightarrow> runes (print_json j)"
proof (induction j)
  case (JArr xs)
  then show ?case
    by (auto intro!: runes_Cons runes_append runes_Join simp: list_all_iff)
next
  case (JObj ms)
  then show ?case
    by (fastforce intro!: runes_Cons runes_append runes_Join simp: list_all_iff runes_quote)
qed (auto simp: runes_quote intro: runes_itoa runes_ascii simp: ascii_def)

lemma json_text_valid: "wf_json j \<Longrightarrow> valid_utf8 (print_json j)"
  by (rule runes_valid [OF print_json_runes])

end
