(* ===== verification/GoMap.thy ===== *)
theory GoMap
  imports Prelude
begin

text \<open>
  Go maps with ordered keys. A Go map has no order of its own, but the JSON encoder visits it by
  increasing key, so the model keeps a map as an association list sorted by key: two maps with the
  same entries are the same list (\<open>gm_ext\<close>). The locale \<open>go_map\<close> is the contract of a map that
  the rest of the development uses; it is interpreted on the list operations.
\<close>

type_synonym ('k, 'v) gomap = "('k \<times> 'v) list"

fun gm_put :: "'k::linorder \<Rightarrow> 'v \<Rightarrow> ('k, 'v) gomap \<Rightarrow> ('k, 'v) gomap" where
  "gm_put k v [] = [(k, v)]"
| "gm_put k v ((a, b) # m) =
     (if k < a then (k, v) # (a, b) # m else if k = a then (k, v) # m else (a, b) # gm_put k v m)"

fun gm_del :: "'k::linorder \<Rightarrow> ('k, 'v) gomap \<Rightarrow> ('k, 'v) gomap" where
  "gm_del k [] = []"
| "gm_del k ((a, b) # m) = (if k = a then m else (a, b) # gm_del k m)"

definition gm_wf :: "('k::linorder, 'v) gomap \<Rightarrow> bool" where
  "gm_wf m \<longleftrightarrow> sorted_wrt (<) (map fst m)"

text \<open>Reading a slice from a map of slices: a missing key is the empty slice.\<close>

definition gm_slice :: "('k::linorder, 'v list) gomap \<Rightarrow> 'k \<Rightarrow> 'v list" where
  "gm_slice m k = (case map_of m k of None \<Rightarrow> [] | Some xs \<Rightarrow> xs)"

lemma gm_wf_simps [simp]:
  "gm_wf []" "gm_wf ((a, b) # m) \<longleftrightarrow> (\<forall>k \<in> fst ` set m. a < k) \<and> gm_wf m"
  by (auto simp: gm_wf_def)

lemma gm_keys_put [simp]: "fst ` set (gm_put k v m) = insert k (fst ` set m)"
  by (induction k v m rule: gm_put.induct) auto

lemma gm_get_put: "map_of (gm_put k v m) = (map_of m)(k \<mapsto> v)"
  by (induction k v m rule: gm_put.induct) (auto simp: fun_eq_iff)

lemma gm_wf_put: "gm_wf m \<Longrightarrow> gm_wf (gm_put k v m)"
proof (induction k v m rule: gm_put.induct)
  case (2 k v a b m)
  then show ?case by (auto dest: less_trans)
qed simp

lemma gm_keys_del: "fst ` set (gm_del k m) \<subseteq> fst ` set m"
  by (induction k m rule: gm_del.induct) auto

lemma gm_wf_del: "gm_wf m \<Longrightarrow> gm_wf (gm_del k m)"
proof (induction k m rule: gm_del.induct)
  case (2 k a b m)
  then have "\<forall>x \<in> fst ` set (gm_del k m). a < x" using gm_keys_del [of k m] by fastforce
  with 2 show ?case by (simp del: ball_simps)
qed simp

lemma gm_get_del: "gm_wf m \<Longrightarrow> map_of (gm_del k m) = (map_of m)(k := None)"
proof (induction k m rule: gm_del.induct)
  case (2 k a b m)
  have "map_of m a = None"
    using 2(2) by (auto simp: map_of_eq_None_iff)
  with 2 show ?case by (auto simp: fun_eq_iff)
qed simp

lemma gm_set_del: "gm_wf m \<Longrightarrow> set (gm_del k m) = {p \<in> set m. fst p \<noteq> k}"
  by (induction k m rule: gm_del.induct) auto

lemma gm_set_put: "gm_wf m \<Longrightarrow> set (gm_put k v m) = insert (k, v) {p \<in> set m. fst p \<noteq> k}"
proof (induction k v m rule: gm_put.induct)
  case (2 k v a b m)
  then show ?case by (auto dest: less_trans)
qed simp

lemma gm_ext: "gm_wf m \<Longrightarrow> gm_wf m' \<Longrightarrow> map_of m = map_of m' \<Longrightarrow> m = m'"
proof (induction m arbitrary: m')
  case Nil
  then have "dom (map_of m') = {}" by simp
  then show ?case by (cases m') (auto simp: dom_map_of_conv_image_fst)
next
  case (Cons p m)
  obtain a b where p: "p = (a, b)" by force
  from Cons.prems(3) p have "map_of m' a = Some b" by (metis map_of_Cons_code(2))
  then obtain c d n where m': "m' = (c, d) # n" by (cases m') auto
  have "a = c"
  proof (rule ccontr)
    assume "a \<noteq> c"
    then consider "a < c" | "c < a" by fastforce
    then show False
    proof cases
      case 1
      with Cons.prems(2) m' have "map_of m' a = None" by (auto simp: map_of_eq_None_iff)
      with \<open>map_of m' a = Some b\<close> show False by simp
    next
      case 2
      with Cons.prems(1) p have "map_of (p # m) c = None" by (auto simp: map_of_eq_None_iff)
      moreover have "map_of m' c = Some d" by (simp add: m')
      ultimately show False using fun_cong [OF Cons.prems(3), of c] by simp
    qed
  qed
  with \<open>map_of m' a = Some b\<close> m' have "b = d" by simp
  have "map_of m x = map_of n x" for x
  proof (cases "x = a")
    case True
    have "map_of m a = None" "map_of n c = None"
      using Cons.prems(1,2) p m' by (auto simp: map_of_eq_None_iff)
    with True \<open>a = c\<close> show ?thesis by simp
  next
    case False
    with Cons.prems(3) p m' \<open>a = c\<close> show ?thesis by (metis map_of_Cons_code(2))
  qed
  then have "m = n" using Cons.IH [of n] Cons.prems(1,2) p m' by auto
  with p m' \<open>a = c\<close> \<open>b = d\<close> show ?case by simp
qed

text \<open>A key above all others goes to the end.\<close>

lemma gm_put_last: "\<forall>a \<in> fst ` set m. a < k \<Longrightarrow> gm_put k v m = m @ [(k, v)]"
  by (induction k v m rule: gm_put.induct) auto

lemma gm_put_again: "\<forall>a \<in> fst ` set m. a < k \<Longrightarrow> gm_put k v (m @ [(k, u)]) = m @ [(k, v)]"
  by (induction m) auto

lemma gm_slice_last: "\<forall>a \<in> fst ` set m. a < k \<Longrightarrow> gm_slice (m @ [(k, v)]) k = v"
proof -
  assume "\<forall>a \<in> fst ` set m. a < k"
  then have "map_of m k = None" by (auto simp: map_of_eq_None_iff)
  then show ?thesis by (simp add: gm_slice_def map_add_def)
qed

lemma gm_slice_fresh: "\<forall>a \<in> fst ` set m. a < k \<Longrightarrow> gm_slice m k = []"
  by (auto simp: gm_slice_def split: option.split dest!: map_of_SomeD)

section \<open>The contract of a map\<close>

locale go_map =
  fixes put :: "'k \<Rightarrow> 'v \<Rightarrow> 'm \<Rightarrow> 'm"
    and del :: "'k \<Rightarrow> 'm \<Rightarrow> 'm"
    and get :: "'m \<Rightarrow> 'k \<Rightarrow> 'v option"
    and inv :: "'m \<Rightarrow> bool"
  assumes get_put: "inv m \<Longrightarrow> get (put k v m) = (get m)(k \<mapsto> v)"
    and get_del: "inv m \<Longrightarrow> get (del k m) = (get m)(k := None)"
    and inv_put: "inv m \<Longrightarrow> inv (put k v m)"
    and inv_del: "inv m \<Longrightarrow> inv (del k m)"
    and ext: "inv m \<Longrightarrow> inv m' \<Longrightarrow> get m = get m' \<Longrightarrow> m = m'"
begin

lemmas map_laws = get_put get_del inv_put inv_del

lemma del_put: "inv m \<Longrightarrow> get m k = None \<Longrightarrow> del k (put k v m) = m"
  by (rule ext) (auto simp: map_laws)

lemma put_put: "inv m \<Longrightarrow> put k w (put k v m) = put k w m"
  by (rule ext) (auto simp: map_laws)

lemma put_get: "inv m \<Longrightarrow> get m k = Some v \<Longrightarrow> put k v m = m"
  by (rule ext) (auto simp: map_laws)

end

interpretation gm: go_map gm_put gm_del map_of gm_wf
  by unfold_locales (rule gm_get_put gm_get_del gm_wf_put gm_wf_del gm_ext; assumption)+

end
