(* ===== verification/JsonCodec.thy ===== *)
theory JsonCodec
  imports JsonValid GoMap
begin

text \<open>
  Encoding and decoding Go values. \<open>json_marshal\<close> and \<open>json_unmarshal\<close> compose the tree with a
  type's own conversion. The decoder matches the members of an object with the fields of a struct
  by name, exactly or up to case, and reads each field from the last member that names it. The
  locales \<open>codec\<close> and \<open>json_codec\<close> are the contract between the types that go through the store
  and the components that read them back.
\<close>

definition json_marshal :: "('a \<Rightarrow> json) \<Rightarrow> 'a \<Rightarrow> string" where
  "json_marshal to_json x = print_json (to_json x)"

lemma json_marshal_valid: "wf_json (to_json x) \<Longrightarrow> valid_utf8 (json_marshal to_json x)"
  by (simp add: json_marshal_def json_text_valid)

definition json_error :: go_error where
  "json_error = StdErr ''json.Unmarshal''"

definition json_unmarshal :: "(json \<Rightarrow> 'a option) \<Rightarrow> string \<Rightarrow> go_error + 'a" where
  "json_unmarshal of_json b =
     (case parse_json b of
        None \<Rightarrow> Inl json_error
      | Some j \<Rightarrow> (case of_json j of None \<Rightarrow> Inl json_error | Some x \<Rightarrow> Inr x))"

lemma json_unmarshal_no_panic: "json_unmarshal d b = Inl e \<Longrightarrow> \<not> is_panic e"
  by (auto simp: json_unmarshal_def json_error_def split: option.splits)

section \<open>Struct fields\<close>

text \<open>Names are compared up to the case of ASCII letters; the decoder's comparison also accepts the
  long s and the Kelvin sign for s and k.\<close>

definition lower_byte :: "char \<Rightarrow> char" where
  "lower_byte c = (if 65 \<le> byte c \<and> byte c \<le> 90 then char_of (byte c + 32) else c)"

fun fold_key :: "string \<Rightarrow> string" where
  "fold_key (c # d # e # s) =
     (if c = CHR 0xE2 \<and> d = CHR 0x84 \<and> e = CHR 0xAA then CHR ''k'' # fold_key s
      else if c = CHR 0xC5 \<and> d = CHR 0xBF then CHR ''s'' # fold_key (e # s)
      else lower_byte c # fold_key (d # e # s))"
| "fold_key [c, d] = (if c = CHR 0xC5 \<and> d = CHR 0xBF then ''s'' else [lower_byte c, lower_byte d])"
| "fold_key [c] = [lower_byte c]"
| "fold_key [] = []"

definition match_field :: "string list \<Rightarrow> string \<Rightarrow> string option" where
  "match_field fs key = (if key \<in> set fs then Some key else find (\<lambda>f. fold_key f = fold_key key) fs)"

fun fold_field :: "(json \<Rightarrow> 'a \<Rightarrow> 'a option) \<Rightarrow> json list \<Rightarrow> 'a \<Rightarrow> 'a option" where
  "fold_field dec [] x = Some x"
| "fold_field dec (j # js) x = (case dec j x of None \<Rightarrow> None | Some y \<Rightarrow> fold_field dec js y)"

definition get_field ::
    "string list \<Rightarrow> string \<Rightarrow> (json \<Rightarrow> 'a \<Rightarrow> 'a option) \<Rightarrow> 'a \<Rightarrow> (string \<times> json) list \<Rightarrow> 'a option" where
  "get_field fs f dec x ms = fold_field dec (map snd (filter (\<lambda>m. match_field fs (fst m) = Some f) ms)) x"

text \<open>The decoders of the basic field types. \<open>null\<close> leaves a field as it is.\<close>

fun dec_string :: "json \<Rightarrow> string \<Rightarrow> string option" where
  "dec_string JNull x = Some x"
| "dec_string (JStr s) x = Some s"
| "dec_string _ x = None"

fun dec_int :: "json \<Rightarrow> int \<Rightarrow> int option" where
  "dec_int JNull x = Some x"
| "dec_int (JNum n) x = atoi n"
| "dec_int _ x = None"

definition uint32_max :: nat where
  "uint32_max = 2 ^ 32"

fun dec_uint32 :: "json \<Rightarrow> nat \<Rightarrow> nat option" where
  "dec_uint32 JNull x = Some x"
| "dec_uint32 (JNum n) x =
     (case parse_digits n of None \<Rightarrow> None | Some v \<Rightarrow> if v < uint32_max then Some v else None)"
| "dec_uint32 _ x = None"

text \<open>A struct: \<open>null\<close> leaves it as it is, an object sets its fields, anything else is an error.\<close>

fun dec_struct :: "((string \<times> json) list \<Rightarrow> 'a \<Rightarrow> 'a option) \<Rightarrow> json \<Rightarrow> 'a \<Rightarrow> 'a option" where
  "dec_struct fields JNull x = Some x"
| "dec_struct fields (JObj ms) x = fields ms x"
| "dec_struct fields _ x = None"

definition enc_int :: "int \<Rightarrow> json" where
  "enc_int i = JNum (itoa i)"

lemma enc_int_simps [simp]: "wf_json (enc_int i)" "norm_json (enc_int i) = enc_int i"
  by (auto simp: enc_int_def)

lemma dec_int_enc [simp]: "int64_range i \<Longrightarrow> dec_int (enc_int i) x = Some i"
  by (simp add: enc_int_def atoi_itoa)

lemma dec_uint32_enc [simp]: "n < uint32_max \<Longrightarrow> dec_uint32 (enc_int (int n)) x = Some n"
  by (simp add: enc_int_def itoa_def)

lemma dec_int_range: "dec_int j x = Some i \<Longrightarrow> int64_range x \<Longrightarrow> int64_range i"
  by (cases j) (auto simp: atoi_def Let_def split: option.splits if_splits)

lemma fold_field_inv:
  "(\<And>j x y. j \<in> set js \<Longrightarrow> dec j x = Some y \<Longrightarrow> P x \<Longrightarrow> P y) \<Longrightarrow>
   fold_field dec js x = Some y \<Longrightarrow> P x \<Longrightarrow> P y"
  by (induction js arbitrary: x) (auto split: option.splits)

lemma get_field_inv:
  assumes "\<And>j y z. valid_json j \<Longrightarrow> dec j y = Some z \<Longrightarrow> P y \<Longrightarrow> P z"
    and "list_all (\<lambda>(k, j). valid_utf8 k \<and> valid_json j) ms"
    and "get_field fs f dec x ms = Some y" and "P x"
  shows "P y"
  using assms(3,4) unfolding get_field_def
  by (rule fold_field_inv [rotated]) (use assms(1,2) in \<open>auto simp: list_all_iff\<close>)

lemma dec_string_valid: "valid_json j \<Longrightarrow> dec_string j x = Some y \<Longrightarrow> valid_utf8 x \<Longrightarrow> valid_utf8 y"
  by (cases j) auto

lemma json_unmarshal_inv:
  assumes "json_unmarshal of_json b = Inr x" and "\<And>j. valid_json j \<Longrightarrow> of_json j = Some x \<Longrightarrow> P x"
  shows "P x"
  using assms by (auto simp: json_unmarshal_def dest: parse_json_valid split: option.splits)

section \<open>The contract of an encoding\<close>

locale codec =
  fixes enc :: "'a \<Rightarrow> string" and dec :: "string \<Rightarrow> go_error + 'a" and ok :: "'a \<Rightarrow> bool"
  assumes dec_enc: "ok x \<Longrightarrow> dec (enc x) = Inr x"
begin

lemma enc_inject: "ok x \<Longrightarrow> ok y \<Longrightarrow> enc x = enc y \<longleftrightarrow> x = y"
  using dec_enc by (metis sum.inject(2))

end

locale json_codec =
  fixes to_json :: "'a \<Rightarrow> json" and of_json :: "json \<Rightarrow> 'a option" and ok :: "'a \<Rightarrow> bool"
  assumes wf_to_json: "ok x \<Longrightarrow> wf_json (to_json x)"
    and of_to_json: "ok x \<Longrightarrow> of_json (norm_json (to_json x)) = Some x"
begin

lemma unmarshal_marshal: "ok x \<Longrightarrow> json_unmarshal of_json (json_marshal to_json x) = Inr x"
  by (simp add: json_unmarshal_def json_marshal_def parse_print wf_to_json of_to_json)

sublocale codec "json_marshal to_json" "json_unmarshal of_json" ok
  by unfold_locales (rule unmarshal_marshal)

end

end
