(* ===== verification/NetIP.thy ===== *)
theory NetIP
  imports Utf8
begin

text \<open>
  What the program uses of package net's IP addresses. An \<open>IP\<close> is a sequence of bytes, of length 4
  or 16 when it is an address and empty when it is nil. \<open>To4\<close>, \<open>To16\<close>, \<open>String\<close> follow the
  package's behaviour, the compression of the longest run of zero groups included.
\<close>

type_synonym IP = string

definition v4_in_v6_prefix :: string where
  "v4_in_v6_prefix = replicate 10 (CHR 0x00) @ [CHR 0xFF, CHR 0xFF]"

definition To4 :: "IP \<Rightarrow> IP option" where
  "To4 ip =
     (if length ip = 4 then Some ip
      else if length ip = 16 \<and> take 12 ip = v4_in_v6_prefix then Some (drop 12 ip)
      else None)"

definition IPv4 :: "char \<Rightarrow> char \<Rightarrow> char \<Rightarrow> char \<Rightarrow> IP" where
  "IPv4 a b c d = v4_in_v6_prefix @ [a, b, c, d]"

definition To16 :: "IP \<Rightarrow> IP option" where
  "To16 ip =
     (if length ip = 4 then Some (v4_in_v6_prefix @ ip)
      else if length ip = 16 then Some ip else None)"

section \<open>Text of an address\<close>

fun hex_digits :: "nat \<Rightarrow> string" where
  "hex_digits n = (if n < 16 then [hex_char n] else hex_digits (n div 16) @ [hex_char (n mod 16)])"

declare hex_digits.simps [simp del]

fun dotted :: "IP \<Rightarrow> string" where
  "dotted [] = []"
| "dotted [a] = decimal (byte a)"
| "dotted (a # s) = decimal (byte a) @ ''.'' @ dotted s"

text \<open>The 16-bit groups of an address, and the length of the run of zero groups at an index.\<close>

fun groups :: "IP \<Rightarrow> nat list" where
  "groups (a # b # s) = (byte a * 256 + byte b) # groups s"
| "groups _ = []"

definition zero_run :: "nat list \<Rightarrow> nat \<Rightarrow> nat" where
  "zero_run gs i = length (takeWhile (\<lambda>g. g = 0) (drop i gs))"

text \<open>The first longest run, as start and length; runs shorter than two groups do not count.\<close>

function best_run :: "nat list \<Rightarrow> nat \<Rightarrow> nat \<times> nat \<Rightarrow> nat \<times> nat" where
  "best_run gs i best =
     (if length gs \<le> i then best
      else let l = zero_run gs i in
           if snd best < l then best_run gs (Suc (i + l)) (i, l)
           else best_run gs (Suc i) best)"
  by pat_completeness auto
termination
  by (relation "measure (\<lambda>(gs, i, best). length gs - i)") auto

declare best_run.simps [simp del]

definition elision :: "nat list \<Rightarrow> nat \<times> nat" where
  "elision gs = (let best = best_run gs 0 (0, 0) in if snd best \<le> 1 then (0, 0) else best)"

function print_groups :: "nat list \<Rightarrow> nat \<Rightarrow> nat \<times> nat \<Rightarrow> string" where
  "print_groups gs i e =
     (if length gs \<le> i then []
      else if 0 < snd e \<and> i = fst e then
        ''::'' @ (let k = i + snd e in
                  if length gs \<le> k then [] else hex_digits (gs ! k) @ print_groups gs (Suc k) e)
      else (if 0 < i then '':'' else []) @ hex_digits (gs ! i) @ print_groups gs (Suc i) e)"
  by pat_completeness auto
termination
  by (relation "measure (\<lambda>(gs, i, e). length gs - i)") auto

declare print_groups.simps [simp del]

definition IP_String :: "IP \<Rightarrow> string" where
  "IP_String ip =
     (if ip = [] then ''<nil>''
      else case To4 ip of
             Some p4 \<Rightarrow> dotted p4
           | None \<Rightarrow>
               if length ip \<noteq> 16 then
                 CHR ''?'' # concat (map (\<lambda>c. [hex_char (byte c div 16), hex_char (byte c mod 16)]) ip)
               else print_groups (groups ip) 0 (elision (groups ip)))"

lemma To4_length: "To4 ip = Some p \<Longrightarrow> length p = 4"
  by (auto simp: To4_def split: if_splits)

lemma To4_IPv4 [simp]: "To4 (IPv4 a b c d) = Some [a, b, c, d]"
  by (simp add: To4_def IPv4_def v4_in_v6_prefix_def)

lemma To4_Nil [simp]: "To4 [] = None"
  by (simp add: To4_def)

lemma IP_String_Nil [simp]: "IP_String [] = ''<nil>''"
  by (simp add: IP_String_def)

section \<open>The text is ASCII\<close>

lemma ascii_simps [simp]:
  "ascii []" "ascii (c # s) \<longleftrightarrow> byte c < 128 \<and> ascii s" "ascii (s @ t) \<longleftrightarrow> ascii s \<and> ascii t"
  by (auto simp: ascii_def)

lemma ascii_decimal [simp]: "ascii (decimal n)"
  using decimal_digits_ascii by (auto simp: ascii_def list_all_iff)

lemma byte_hex_char: "d < 16 \<Longrightarrow> byte (hex_char d) < 128"
  by (auto simp: hex_char_def)

lemma ascii_hex_digits [simp]: "ascii (hex_digits n)"
proof (induction n rule: hex_digits.induct)
  case (1 n)
  then show ?case by (subst hex_digits.simps) (simp add: byte_hex_char)
qed

lemma ascii_dotted [simp]: "ascii (dotted p)"
  by (induction p rule: dotted.induct) simp_all

lemma ascii_print_groups [simp]: "ascii (print_groups gs i e)"
proof (induction gs i e rule: print_groups.induct)
  case (1 gs i e)
  then show ?case by (subst print_groups.simps) (auto simp: Let_def)
qed

lemma ascii_IP_String [simp]: "ascii (IP_String ip)"
proof -
  have "ascii (concat (map (\<lambda>c. [hex_char (byte c div 16), hex_char (byte c mod 16)]) xs))" for xs
    by (induction xs) (simp_all add: byte_hex_char less_mult_imp_div_less)
  then show ?thesis
    by (simp add: IP_String_def split: option.split)
qed

end
