(* ===== verification/DnsZone.thy ===== *)
theory DnsZone
  imports JsonCodec NetIP
begin

text \<open>
  Component dns, file dns/dns_zone.go: the DNS records, the zone they are kept in, the JSON form
  CoreDNS reads. A record is one of the four structs that implement the interface \<open>Record\<close>; a
  nil interface is \<open>None\<close>. A zone holds a map from record type to a list of records, which may be
  the nil map.
\<close>

section \<open>Records\<close>

type_synonym RecordType = string

definition RecordTypeA :: RecordType where "RecordTypeA = ''a''"
definition RecordTypeAAAA :: RecordType where "RecordTypeAAAA = ''aaaa''"
definition RecordTypeCNAME :: RecordType where "RecordTypeCNAME = ''cname''"
definition RecordTypeTXT :: RecordType where "RecordTypeTXT = ''txt''"

lemmas RecordType_defs = RecordTypeA_def RecordTypeAAAA_def RecordTypeCNAME_def RecordTypeTXT_def

datatype Record =
    RecordA (IP4: string) (A_TTL: int)
  | RecordAAAA (IP6: string) (AAAA_TTL: int)
  | RecordCname (Host: string) (Cname_TTL: int)
  | RecordTXT (Text: string) (TXT_TTL: int)

fun Record_Type :: "Record \<Rightarrow> RecordType" where
  "Record_Type (RecordA ip ttl) = RecordTypeA"
| "Record_Type (RecordAAAA ip ttl) = RecordTypeAAAA"
| "Record_Type (RecordCname host ttl) = RecordTypeCNAME"
| "Record_Type (RecordTXT text ttl) = RecordTypeTXT"

type_synonym records = "(RecordType, Record option list) gomap"

record Zone =
  Records :: "records option"

section \<open>Zone operations\<close>

definition zone_map :: "Zone \<Rightarrow> records" where
  "zone_map z = (case Records z of None \<Rightarrow> [] | Some m \<Rightarrow> m)"

definition Zone_Add :: "Zone \<Rightarrow> Record \<Rightarrow> Zone" where
  "Zone_Add z r =
     (let m = zone_map z
      in z\<lparr>Records := Some (gm_put (Record_Type r) (gm_slice m (Record_Type r) @ [Some r]) m)\<rparr>)"

definition Zone_Remove :: "Zone \<Rightarrow> Record \<Rightarrow> Zone" where
  "Zone_Remove z r =
     (let m = zone_map z in
      case map_of m (Record_Type r) of
        None \<Rightarrow> z\<lparr>Records := Some m\<rparr>
      | Some rs \<Rightarrow>
          (let newrecords = filter (\<lambda>x. x \<noteq> Some r) rs in
           if newrecords = [] then z\<lparr>Records := Some (gm_del (Record_Type r) m)\<rparr>
           else z\<lparr>Records := Some (gm_put (Record_Type r) newrecords m)\<rparr>))"

definition records_IsEmpty :: "records option \<Rightarrow> bool" where
  "records_IsEmpty rs = (case rs of None \<Rightarrow> True | Some m \<Rightarrow> list_all (\<lambda>(t, xs). xs = []) m)"

text \<open>What a zone holds of a type; its records of all types.\<close>

definition zone_get :: "Zone \<Rightarrow> RecordType \<Rightarrow> Record option list" where
  "zone_get z t = gm_slice (zone_map z) t"

section \<open>JSON\<close>

fun enc_record :: "Record option \<Rightarrow> json" where
  "enc_record None = JNull"
| "enc_record (Some (RecordA ip ttl)) = JObj [(''ip'', JStr ip), (''ttl'', enc_int ttl)]"
| "enc_record (Some (RecordAAAA ip ttl)) = JObj [(''ip'', JStr ip), (''ttl'', enc_int ttl)]"
| "enc_record (Some (RecordCname host ttl)) = JObj [(''host'', JStr host), (''ttl'', enc_int ttl)]"
| "enc_record (Some (RecordTXT text ttl)) = JObj [(''text'', JStr text), (''ttl'', enc_int ttl)]"

definition enc_records :: "records option \<Rightarrow> json" where
  "enc_records rs =
     (case rs of None \<Rightarrow> JNull
      | Some m \<Rightarrow> JObj (map (\<lambda>(t, xs). (t, JArr (map enc_record xs))) m))"

text \<open>One record of a known type: a struct with a text field and a TTL. A record of another type
  is the nil interface.\<close>

definition dec_text_ttl :: "string \<Rightarrow> json \<Rightarrow> (string \<times> int) option" where
  "dec_text_ttl f j =
     dec_struct (\<lambda>ms x.
       case (get_field [f, ''ttl''] f dec_string (fst x) ms,
             get_field [f, ''ttl''] ''ttl'' dec_int (snd x) ms) of
         (Some text, Some ttl) \<Rightarrow> Some (text, ttl)
       | _ \<Rightarrow> None) j ([], 0)"

definition dec_record :: "RecordType \<Rightarrow> json \<Rightarrow> Record option option" where
  "dec_record typ b =
     (if typ = RecordTypeA then map_option (\<lambda>(ip, ttl). Some (RecordA ip ttl)) (dec_text_ttl ''ip'' b)
      else if typ = RecordTypeAAAA then
        map_option (\<lambda>(ip, ttl). Some (RecordAAAA ip ttl)) (dec_text_ttl ''ip'' b)
      else if typ = RecordTypeCNAME then
        map_option (\<lambda>(host, ttl). Some (RecordCname host ttl)) (dec_text_ttl ''host'' b)
      else if typ = RecordTypeTXT then
        map_option (\<lambda>(text, ttl). Some (RecordTXT text ttl)) (dec_text_ttl ''text'' b)
      else Some None)"

text \<open>The intermediate map from type to raw messages; a repeated key replaces the earlier one.\<close>

fun raw_list :: "json \<Rightarrow> json list option" where
  "raw_list JNull = Some []"
| "raw_list (JArr xs) = Some xs"
| "raw_list _ = None"

fun raw_members :: "(string \<times> json) list \<Rightarrow> (RecordType, json list) gomap \<Rightarrow>
    (RecordType, json list) gomap option" where
  "raw_members [] m = Some m"
| "raw_members ((t, j) # ms) m =
     (case raw_list j of None \<Rightarrow> None | Some xs \<Rightarrow> raw_members ms (gm_put t xs m))"

fun raw_map :: "json \<Rightarrow> (RecordType, json list) gomap option" where
  "raw_map JNull = Some []"
| "raw_map (JObj ms) = raw_members ms []"
| "raw_map _ = None"

fun add_records :: "RecordType \<Rightarrow> json list \<Rightarrow> records \<Rightarrow> records option" where
  "add_records typ [] rs = Some rs"
| "add_records typ (b # bs) rs =
     (case dec_record typ b of
        None \<Rightarrow> None
      | Some r \<Rightarrow> add_records typ bs (gm_put typ (gm_slice rs typ @ [r]) rs))"

fun add_types :: "(RecordType, json list) gomap \<Rightarrow> records \<Rightarrow> records option" where
  "add_types [] rs = Some rs"
| "add_types ((typ, bs) # m) rs =
     (case add_records typ bs rs of None \<Rightarrow> None | Some rs' \<Rightarrow> add_types m rs')"

text \<open>The receiver is a map value: when it is nil the records go to a local map that is dropped.\<close>

definition records_UnmarshalJSON :: "records option \<Rightarrow> json \<Rightarrow> records option option" where
  "records_UnmarshalJSON rs j =
     (case raw_map j of
        None \<Rightarrow> None
      | Some m \<Rightarrow>
          (case add_types m (case rs of None \<Rightarrow> [] | Some m0 \<Rightarrow> m0) of
             None \<Rightarrow> None
           | Some m' \<Rightarrow> Some (case rs of None \<Rightarrow> None | Some m0 \<Rightarrow> Some m')))"

text \<open>The struct ZoneOwner has no JSON tags: its member is named after the field.\<close>

record ZoneOwner =
  Owner :: string

definition enc_ZoneOwner :: "ZoneOwner \<Rightarrow> json" where
  "enc_ZoneOwner o1 = JObj [(''Owner'', JStr (Owner o1))]"

definition dec_ZoneOwner :: "json \<Rightarrow> ZoneOwner option" where
  "dec_ZoneOwner j =
     dec_struct (\<lambda>ms o1. map_option (\<lambda>x. o1\<lparr>Owner := x\<rparr>)
       (get_field [''Owner''] ''Owner'' dec_string (Owner o1) ms)) j \<lparr>Owner = []\<rparr>"

section \<open>Well-formed zones\<close>

definition known_types :: "RecordType set" where
  "known_types = {RecordTypeA, RecordTypeAAAA, RecordTypeCNAME, RecordTypeTXT}"

fun wf_record :: "Record \<Rightarrow> bool" where
  "wf_record (RecordA ip ttl) \<longleftrightarrow> valid_utf8 ip \<and> int64_range ttl"
| "wf_record (RecordAAAA ip ttl) \<longleftrightarrow> valid_utf8 ip \<and> int64_range ttl"
| "wf_record (RecordCname host ttl) \<longleftrightarrow> valid_utf8 host \<and> int64_range ttl"
| "wf_record (RecordTXT text ttl) \<longleftrightarrow> valid_utf8 text \<and> int64_range ttl"

fun wf_entry :: "RecordType \<Rightarrow> Record option \<Rightarrow> bool" where
  "wf_entry t None \<longleftrightarrow> t \<notin> known_types"
| "wf_entry t (Some r) \<longleftrightarrow> Record_Type r = t \<and> wf_record r"

text \<open>Every type that is present has a record, of that type; strings are valid UTF-8 and TTLs fit
  a Go int.\<close>

definition wf_list :: "RecordType \<Rightarrow> Record option list \<Rightarrow> bool" where
  "wf_list t xs \<longleftrightarrow> xs \<noteq> [] \<and> valid_utf8 t \<and> list_all (wf_entry t) xs"

definition wf_records :: "records \<Rightarrow> bool" where
  "wf_records m \<longleftrightarrow> gm_wf m \<and> list_all (\<lambda>(t, xs). wf_list t xs) m"

definition wf_zone :: "Zone \<Rightarrow> bool" where
  "wf_zone z \<longleftrightarrow> wf_records (zone_map z)"

lemma Record_Type_known: "Record_Type r \<in> known_types" "valid_utf8 (Record_Type r)"
  by (cases r; simp add: known_types_def RecordType_defs ascii_valid)+

lemma wf_records_get: "wf_records m \<Longrightarrow> map_of m t = Some xs \<Longrightarrow> wf_list t xs"
  by (auto simp: wf_records_def list_all_iff dest: map_of_SomeD)

lemma wf_records_gm: "wf_records m \<Longrightarrow> gm_wf m"
  by (simp add: wf_records_def)

lemma wf_records_put: "wf_records m \<Longrightarrow> wf_list t xs \<Longrightarrow> wf_records (gm_put t xs m)"
  by (auto simp: wf_records_def gm.inv_put list_all_iff gm_set_put)

lemma wf_records_del: "wf_records m \<Longrightarrow> wf_records (gm_del t m)"
  by (auto simp: wf_records_def gm.inv_del list_all_iff gm_set_del)

lemma wf_slice: "wf_records m \<Longrightarrow> list_all (wf_entry t) (gm_slice m t)"
  by (auto simp: gm_slice_def wf_list_def dest: wf_records_get split: option.split)

lemma wf_records_append:
  "wf_records m \<Longrightarrow> valid_utf8 t \<Longrightarrow> wf_entry t x \<Longrightarrow> wf_records (gm_put t (gm_slice m t @ [x]) m)"
  by (rule wf_records_put) (simp_all add: wf_list_def wf_slice)

lemma zone_map_simps [simp]: "zone_map (z\<lparr>Records := Some m\<rparr>) = m"
  by (simp add: zone_map_def)

lemma wf_zone_Add: "wf_zone z \<Longrightarrow> wf_record r \<Longrightarrow> wf_zone (Zone_Add z r)"
  by (simp add: wf_zone_def Zone_Add_def Let_def wf_records_append Record_Type_known)

lemma wf_zone_Remove: "wf_zone z \<Longrightarrow> wf_zone (Zone_Remove z r)"
proof (cases "map_of (zone_map z) (Record_Type r)")
  case None
  assume "wf_zone z"
  with None show ?thesis by (simp add: Zone_Remove_def wf_zone_def Let_def)
next
  case (Some rs)
  assume wf: "wf_zone z"
  then have "wf_list (Record_Type r) rs"
    using Some by (auto simp: wf_zone_def dest: wf_records_get)
  then have "filter (\<lambda>x. x \<noteq> Some r) rs \<noteq> [] \<Longrightarrow>
      wf_list (Record_Type r) (filter (\<lambda>x. x \<noteq> Some r) rs)"
    by (simp add: wf_list_def list_all_iff)
  with wf Some show ?thesis
    by (simp add: Zone_Remove_def wf_zone_def Let_def wf_records_put wf_records_del)
qed

lemma zone_get_Add:
  "zone_get (Zone_Add z r) t =
     (if t = Record_Type r then zone_get z t @ [Some r] else zone_get z t)"
  by (simp add: zone_get_def Zone_Add_def Let_def gm_slice_def gm_get_put)

lemma zone_get_Remove:
  "wf_zone z \<Longrightarrow> zone_get (Zone_Remove z r) t =
     (if t = Record_Type r then filter (\<lambda>x. x \<noteq> Some r) (zone_get z t) else zone_get z t)"
  by (auto simp: zone_get_def Zone_Remove_def Let_def gm_slice_def gm_get_put gm.get_del wf_zone_def
      wf_records_gm split: option.split)

lemma records_IsEmpty_wf: "wf_records m \<Longrightarrow> records_IsEmpty (Some m) \<longleftrightarrow> m = []"
  by (cases m) (auto simp: records_IsEmpty_def wf_records_def wf_list_def)

lemma zone_empty_iff: "wf_zone z \<Longrightarrow> records_IsEmpty (Records z) \<longleftrightarrow> (\<forall>t. zone_get z t = [])"
proof -
  assume wf: "wf_zone z"
  have "records_IsEmpty (Records z) \<longleftrightarrow> zone_map z = []"
    using wf records_IsEmpty_wf [of "zone_map z"]
    by (cases "Records z") (simp_all add: zone_map_def wf_zone_def records_IsEmpty_def)
  also have "\<dots> \<longleftrightarrow> (\<forall>t. zone_get z t = [])"
  proof
    assume all: "\<forall>t. zone_get z t = []"
    show "zone_map z = []"
    proof (cases "zone_map z")
      case (Cons p m)
      then obtain t xs where "zone_map z = (t, xs) # m" by (cases p) auto
      moreover from this wf have "xs \<noteq> []" by (simp add: wf_zone_def wf_records_def wf_list_def)
      ultimately show ?thesis using spec [OF all, of t] by (simp add: zone_get_def gm_slice_def)
    qed
  qed (simp add: zone_get_def gm_slice_def)
  finally show ?thesis .
qed

section \<open>Reading back records\<close>

lemma field_names [simp]:
  "match_field [''ip'', ''ttl''] ''ip'' = Some ''ip''" "match_field [''ip'', ''ttl''] ''ttl'' = Some ''ttl''"
  "match_field [''host'', ''ttl''] ''host'' = Some ''host''" "match_field [''host'', ''ttl''] ''ttl'' = Some ''ttl''"
  "match_field [''text'', ''ttl''] ''text'' = Some ''text''" "match_field [''text'', ''ttl''] ''ttl'' = Some ''ttl''"
  by (simp_all add: match_field_def)

lemma to_valid_ascii [simp]: "ascii s \<Longrightarrow> to_valid s = s"
  by (simp add: ascii_valid to_valid_id)

lemma dec_text_ttl_enc:
  assumes "f \<in> {''ip'', ''host'', ''text''}" "valid_utf8 x" "int64_range ttl"
  shows "dec_text_ttl f (norm_json (JObj [(f, JStr x), (''ttl'', enc_int ttl)])) = Some (x, ttl)"
  using assms by (auto simp: dec_text_ttl_def get_field_def to_valid_id)

lemma dec_record_enc:
  assumes "wf_entry t x"
  shows "dec_record t (norm_json (enc_record x)) = Some x"
proof (cases x)
  case None
  with assms show ?thesis by (simp add: dec_record_def known_types_def)
next
  case (Some r)
  with assms show ?thesis
    using dec_text_ttl_enc [of "''ip''"] dec_text_ttl_enc [of "''host''"] dec_text_ttl_enc [of "''text''"]
    by (cases r) (auto simp: dec_record_def RecordType_defs simp del: norm_json.simps)
qed

lemma wf_json_enc_record: "wf_json (enc_record x)"
  by (cases x rule: enc_record.cases) simp_all

lemma add_records_last:
  assumes "\<forall>a \<in> fst ` set rs. a < t" and "list_all (wf_entry t) xs"
  shows "add_records t (map (\<lambda>x. norm_json (enc_record x)) xs) (rs @ [(t, ys)]) =
    Some (rs @ [(t, ys @ xs)])"
  using assms
  by (induction xs arbitrary: ys) (simp_all add: dec_record_enc gm_slice_last gm_put_again)

lemma add_records_fresh:
  assumes "\<forall>a \<in> fst ` set rs. a < t" and "wf_list t xs"
  shows "add_records t (map (\<lambda>x. norm_json (enc_record x)) xs) rs = Some (rs @ [(t, xs)])"
proof (cases xs)
  case (Cons x xs')
  with assms add_records_last [OF assms(1), of xs' "[x]"] show ?thesis
    by (simp add: wf_list_def dec_record_enc gm_slice_fresh gm_put_last)
qed (use assms in \<open>simp add: wf_list_def\<close>)

definition raw_of :: "records \<Rightarrow> (RecordType, json list) gomap" where
  "raw_of m = map (\<lambda>(t, xs). (t, map (\<lambda>x. norm_json (enc_record x)) xs)) m"

lemma add_types_raw:
  assumes "wf_records m" and "\<forall>a \<in> fst ` set rs. \<forall>b \<in> fst ` set m. a < b"
  shows "add_types (raw_of m) rs = Some (rs @ m)"
  using assms
proof (induction m arbitrary: rs)
  case (Cons p m)
  obtain t xs where p: "p = (t, xs)" by force
  have wf: "wf_list t xs" "wf_records m" and t: "\<forall>b \<in> fst ` set m. t < b"
    using Cons.prems(1) p by (auto simp: wf_records_def)
  have "add_records t (map (\<lambda>x. norm_json (enc_record x)) xs) rs = Some (rs @ [(t, xs)])"
    using Cons.prems(2) p wf(1) by (intro add_records_fresh) auto
  moreover have "add_types (raw_of m) (rs @ [(t, xs)]) = Some ((rs @ [(t, xs)]) @ m)"
    using Cons.prems(2) t wf(2) p by (intro Cons.IH) auto
  ultimately show ?case by (simp add: p raw_of_def)
qed (simp add: raw_of_def)

lemma raw_members_sorted:
  assumes "gm_wf m" and "\<forall>a \<in> fst ` set acc. \<forall>b \<in> fst ` set m. a < b"
  shows "raw_members (map (\<lambda>(t, xs). (t, JArr xs)) m) acc = Some (acc @ m)"
  using assms
proof (induction m arbitrary: acc)
  case (Cons p m)
  obtain t xs where p: "p = (t, xs)" by force
  then have "gm_put t xs acc = acc @ [(t, xs)]"
    using Cons.prems(2) by (intro gm_put_last) auto
  moreover have "raw_members (map (\<lambda>(t, xs). (t, JArr xs)) m) (acc @ [(t, xs)]) = Some ((acc @ [(t, xs)]) @ m)"
    using Cons.prems p by (intro Cons.IH) auto
  ultimately show ?case by (simp add: p)
qed simp

lemma raw_map_enc:
  assumes "wf_records m"
  shows "raw_map (norm_json (enc_records (Some m))) = Some (raw_of m)"
proof -
  have keys: "map fst (raw_of m) = map fst m"
    by (auto simp: raw_of_def)
  then have "gm_wf (raw_of m)"
    using wf_records_gm [OF assms] by (simp add: gm_wf_def)
  then have "raw_members (map (\<lambda>(t, xs). (t, JArr xs)) (raw_of m)) [] = Some (raw_of m)"
    using raw_members_sorted [of "raw_of m" "[]"] by simp
  moreover have "norm_json (enc_records (Some m)) = JObj (map (\<lambda>(t, xs). (t, JArr xs)) (raw_of m))"
    using assms by (auto simp: enc_records_def raw_of_def wf_records_def wf_list_def list_all_iff to_valid_id)
  ultimately show ?thesis by simp
qed

lemma records_read_back:
  "wf_records m \<Longrightarrow>
   records_UnmarshalJSON (Some []) (norm_json (enc_records (Some m))) = Some (Some m)"
  using add_types_raw [of m "[]"] by (simp add: records_UnmarshalJSON_def raw_map_enc)

lemma wf_json_enc_records: "wf_json (enc_records rs)"
  by (auto simp: enc_records_def list_all_iff wf_json_enc_record split: option.split)

definition stored_records :: "records option \<Rightarrow> bool" where
  "stored_records rs \<longleftrightarrow> (case rs of None \<Rightarrow> False | Some m \<Rightarrow> wf_records m)"

interpretation rec: json_codec enc_records "records_UnmarshalJSON (Some [])" stored_records
  by unfold_locales
    (auto simp: stored_records_def wf_json_enc_records records_read_back split: option.splits)

lemma ZoneOwner_field [simp]: "match_field [''Owner''] ''Owner'' = Some ''Owner''"
  by (simp add: match_field_def)

interpretation own: json_codec enc_ZoneOwner dec_ZoneOwner "\<lambda>o1. valid_utf8 (Owner o1)"
  by unfold_locales
    (simp_all add: enc_ZoneOwner_def dec_ZoneOwner_def get_field_def to_valid_id)

section \<open>Whatever is read is well formed\<close>

lemma int64_range_0 [simp]: "int64_range 0"
  by (simp add: int64_range_def)

lemma valid_utf8_Nil [simp]: "valid_utf8 []"
  by (simp add: valid_utf8_def)

lemma dec_text_ttl_wf:
  assumes "dec_text_ttl f j = Some (x, ttl)" and "valid_json j"
  shows "valid_utf8 x \<and> int64_range ttl"
proof (cases j)
  case (JObj ms)
  with assms have "get_field [f, ''ttl''] f dec_string [] ms = Some x"
    and "get_field [f, ''ttl''] ''ttl'' dec_int 0 ms = Some ttl"
    and "list_all (\<lambda>(k, j). valid_utf8 k \<and> valid_json j) ms"
    by (auto simp: dec_text_ttl_def split: option.splits)
  then show ?thesis
    by (auto intro: get_field_inv [where P = valid_utf8] dec_string_valid
        get_field_inv [where P = int64_range] dec_int_range)
qed (use assms in \<open>auto simp: dec_text_ttl_def\<close>)

lemma dec_record_wf: "dec_record t j = Some x \<Longrightarrow> valid_json j \<Longrightarrow> wf_entry t x"
  by (auto simp: dec_record_def known_types_def dest: dec_text_ttl_wf split: if_splits)

lemma add_records_wf:
  "add_records t bs rs = Some m \<Longrightarrow> list_all valid_json bs \<Longrightarrow> valid_utf8 t \<Longrightarrow> wf_records rs \<Longrightarrow>
   wf_records m"
  by (induction t bs rs rule: add_records.induct)
    (auto dest: dec_record_wf intro: wf_records_append split: option.splits)

definition raw_valid :: "(RecordType, json list) gomap \<Rightarrow> bool" where
  "raw_valid m \<longleftrightarrow> gm_wf m \<and> list_all (\<lambda>(t, bs). valid_utf8 t \<and> list_all valid_json bs) m"

lemma add_types_wf:
  "add_types m rs = Some m' \<Longrightarrow> raw_valid m \<Longrightarrow> wf_records rs \<Longrightarrow> wf_records m'"
  by (induction m rs rule: add_types.induct)
    (auto simp: raw_valid_def dest: add_records_wf split: option.splits)

lemma raw_members_valid:
  "raw_members ms acc = Some m \<Longrightarrow> raw_valid acc \<Longrightarrow>
   list_all (\<lambda>(k, j). valid_utf8 k \<and> valid_json j) ms \<Longrightarrow> raw_valid m"
proof (induction ms acc rule: raw_members.induct)
  case (2 t j ms acc)
  then obtain xs where xs: "raw_list j = Some xs" "raw_members ms (gm_put t xs acc) = Some m"
    by (auto split: option.splits)
  from xs(1) 2 have "list_all valid_json xs" by (cases j) auto
  with 2 have "raw_valid (gm_put t xs acc)"
    by (auto simp: raw_valid_def gm.inv_put gm_set_put list_all_iff)
  with 2 xs show ?case by auto
qed simp

lemma raw_map_valid: "raw_map j = Some m \<Longrightarrow> valid_json j \<Longrightarrow> raw_valid m"
proof (cases j)
  case (JObj ms)
  assume "raw_map j = Some m" "valid_json j"
  with JObj show ?thesis by (auto intro!: raw_members_valid [of ms "[]" m]) (simp add: raw_valid_def)
qed (simp_all add: raw_valid_def)

lemma wf_records_Nil [simp]: "wf_records []"
  by (simp add: wf_records_def)

lemma records_read_wf:
  "json_unmarshal (records_UnmarshalJSON (Some [])) b = Inr rs \<Longrightarrow> stored_records rs"
proof (erule json_unmarshal_inv)
  fix j assume "valid_json j" and read: "records_UnmarshalJSON (Some []) j = Some rs"
  then obtain m where m: "raw_map j = Some m"
    by (cases "raw_map j") (simp_all add: records_UnmarshalJSON_def)
  with read obtain m' where "add_types m [] = Some m'" "rs = Some m'"
    by (cases "add_types m []") (simp_all add: records_UnmarshalJSON_def)
  with \<open>valid_json j\<close> m show "stored_records rs"
    by (auto simp: stored_records_def intro: add_types_wf raw_map_valid)
qed

lemma dec_ZoneOwner_wf:
  assumes "dec_ZoneOwner j = Some o1" and "valid_json j"
  shows "valid_utf8 (Owner o1)"
proof (cases j)
  case (JObj ms)
  with assms obtain x where "get_field [''Owner''] ''Owner'' dec_string [] ms = Some x"
    and "list_all (\<lambda>(k, j). valid_utf8 k \<and> valid_json j) ms" and "Owner o1 = x"
    by (auto simp: dec_ZoneOwner_def)
  then show ?thesis
    by (auto intro: get_field_inv [where P = valid_utf8] dec_string_valid)
qed (use assms in \<open>auto simp: dec_ZoneOwner_def\<close>)

lemma owner_read_wf: "json_unmarshal dec_ZoneOwner b = Inr o1 \<Longrightarrow> valid_utf8 (Owner o1)"
  by (erule json_unmarshal_inv) (rule dec_ZoneOwner_wf)

end
