(* ===== verification/Redis.thy ===== *)
theory Redis
  imports GoStrings
begin

text \<open>
  The interface of the redis service. The server and its client library are not part of the
  repository, so the calls the program makes are a parameter of the model: a record \<open>redis\<close> with
  one field per call (the command sent with \<open>con.Do\<close> together with the conversion the program
  applies to its reply), each acting on a state of a type of its own. The two locales state what
  the program relies on, in terms of a view of that state as a keyspace: \<open>redis_service\<close> allows a
  call to fail at any time, before or after the server has applied it; \<open>redis_reliable\<close> adds that
  no call fails. Two implementations of the parameter interpret them: \<open>mem_redis\<close>, an in-memory
  server, and \<open>flaky_redis\<close>, the same server behind a connection that loses requests and replies.
\<close>

section \<open>Keyspaces and commands\<close>

datatype other_kind = KList | KSet | KZSet | KStream

datatype rvalue = RString string | RHash "string \<rightharpoonup> string" | ROther other_kind

type_synonym keyspace = "string \<rightharpoonup> rvalue"

definition wrong_type :: go_error where
  "wrong_type = Extern ''WRONGTYPE Operation against a key holding the wrong kind of value''"

text \<open>The field of a hash in a keyspace, the value of a plain key, whether a key may be used as
  a hash.\<close>

definition hfield :: "keyspace \<Rightarrow> string \<Rightarrow> string \<rightharpoonup> string" where
  "hfield v k = (case v k of Some (RHash h) \<Rightarrow> h | _ \<Rightarrow> Map.empty)"

definition plain :: "keyspace \<Rightarrow> string \<rightharpoonup> string" where
  "plain v k = (case v k of Some (RString x) \<Rightarrow> Some x | _ \<Rightarrow> None)"

definition hash_key :: "keyspace \<Rightarrow> string \<Rightarrow> bool" where
  "hash_key v k \<longleftrightarrow> (case v k of None \<Rightarrow> True | Some (RHash h) \<Rightarrow> True | _ \<Rightarrow> False)"

definition plain_key :: "keyspace \<Rightarrow> string \<Rightarrow> bool" where
  "plain_key v k \<longleftrightarrow> (case v k of None \<Rightarrow> True | Some (RString x) \<Rightarrow> True | _ \<Rightarrow> False)"

text \<open>A hash that loses its last field is removed with its key.\<close>

definition put_hash :: "keyspace \<Rightarrow> string \<Rightarrow> (string \<rightharpoonup> string) \<Rightarrow> keyspace" where
  "put_hash v k h = v(k := (if h = Map.empty then None else Some (RHash h)))"

definition ks_hset :: "keyspace \<Rightarrow> string \<Rightarrow> string \<Rightarrow> string \<Rightarrow> keyspace" where
  "ks_hset v k f x = v(k \<mapsto> RHash ((hfield v k)(f \<mapsto> x)))"

definition ks_hdel :: "keyspace \<Rightarrow> string \<Rightarrow> string \<Rightarrow> keyspace" where
  "ks_hdel v k f = (if v k = None then v else put_hash v k ((hfield v k)(f := None)))"

text \<open>The patterns of KEYS that the program uses: literal characters, \<open>*\<close> and \<open>?\<close>.\<close>

fun glob :: "string \<Rightarrow> string \<Rightarrow> bool" where
  "glob [] [] = True"
| "glob [] (d # ds) = False"
| "glob (c # p) [] = (c = CHR ''*'' \<and> glob p [])"
| "glob (c # p) (d # ds) =
     (if c = CHR ''*'' then glob p (d # ds) \<or> glob (c # p) ds
      else (c = CHR ''?'' \<or> c = d) \<and> glob p ds)"

fun type_name :: "rvalue option \<Rightarrow> string" where
  "type_name None = ''none''"
| "type_name (Some (RString x)) = ''string''"
| "type_name (Some (RHash h)) = ''hash''"
| "type_name (Some (ROther KList)) = ''list''"
| "type_name (Some (ROther KSet)) = ''set''"
| "type_name (Some (ROther KZSet)) = ''zset''"
| "type_name (Some (ROther KStream)) = ''stream''"

lemma glob_star_dot: "glob ''*.'' s \<longleftrightarrow> s \<noteq> [] \<and> last s = CHR ''.''"
proof (induction s)
  case (Cons c cs)
  have "glob ''.'' (c # cs) \<longleftrightarrow> c = CHR ''.'' \<and> cs = []"
    by (cases cs) auto
  with Cons show ?case by auto
qed simp

lemma hfield_hset [simp]:
  "hfield (ks_hset v k f x) k' = (if k' = k then (hfield v k)(f \<mapsto> x) else hfield v k')"
  by (simp add: hfield_def ks_hset_def)

lemma hfield_hdel [simp]:
  "hfield (ks_hdel v k f) k' = (if k' = k then (hfield v k)(f := None) else hfield v k')"
  by (auto simp: hfield_def ks_hdel_def put_hash_def split: option.split rvalue.split)

lemma hash_cong: "v' k = v k \<Longrightarrow> hfield v' k = hfield v k \<and> hash_key v' k = hash_key v k"
  by (simp add: hfield_def hash_key_def)

lemma type_name_hash [simp]: "type_name x = ''hash'' \<longleftrightarrow> (\<exists>h. x = Some (RHash h))"
  by (cases x rule: type_name.cases) simp_all

lemma hfield_upd_other [simp]: "k' \<noteq> k \<Longrightarrow> hfield (v(k := x)) k' = hfield v k'"
  by (simp add: hfield_def)

lemma hfield_del [simp]: "hfield (v(k := None)) k = Map.empty"
  by (simp add: hfield_def)

lemma hfield_set [simp]: "hfield (v(k \<mapsto> RString x)) k = Map.empty"
  by (simp add: hfield_def)

lemma plain_upd [simp]:
  "plain (v(k := None)) k = None" "plain (v(k \<mapsto> RString x)) k = Some x"
  "k' \<noteq> k \<Longrightarrow> plain (v(k := y)) k' = plain v k'"
  by (simp_all add: plain_def)

lemma plain_hset [simp]: "plain (ks_hset v k f x) k' = (if k' = k then None else plain v k')"
  by (simp add: plain_def ks_hset_def)

lemma plain_hdel [simp]:
  "hash_key v k \<Longrightarrow> plain (ks_hdel v k f) k' = (if k' = k then None else plain v k')"
  by (auto simp: plain_def ks_hdel_def put_hash_def hash_key_def split: option.splits rvalue.splits)

lemma hash_key_hset [simp]: "hash_key (ks_hset v k f x) k' \<longleftrightarrow> k' = k \<or> hash_key v k'"
  by (auto simp: hash_key_def ks_hset_def)

lemma hash_key_hdel [simp]: "hash_key v k' \<Longrightarrow> hash_key (ks_hdel v k f) k'"
  by (auto simp: hash_key_def ks_hdel_def put_hash_def)

lemma ks_other [simp]:
  "k' \<noteq> k \<Longrightarrow> ks_hset v k f x k' = v k'" "k' \<noteq> k \<Longrightarrow> ks_hdel v k f k' = v k'"
  by (simp_all add: ks_hset_def ks_hdel_def put_hash_def)

section \<open>What a command answers\<close>

text \<open>Each command relates the keyspace before, the answer, and the keyspace after.\<close>

type_synonym 'a command = "keyspace \<Rightarrow> go_error + 'a \<Rightarrow> keyspace \<Rightarrow> bool"

definition cmd_hget :: "string \<Rightarrow> string \<Rightarrow> string command" where
  "cmd_hget k f v r v' \<longleftrightarrow> v' = v \<and>
     r = (if \<not> hash_key v k then Inl wrong_type
          else case hfield v k f of None \<Rightarrow> Inl ErrNil | Some x \<Rightarrow> Inr x)"

definition cmd_hset :: "string \<Rightarrow> string \<Rightarrow> string \<Rightarrow> unit command" where
  "cmd_hset k f x v r v' \<longleftrightarrow>
     (if hash_key v k then r = Inr () \<and> v' = ks_hset v k f x else r = Inl wrong_type \<and> v' = v)"

definition cmd_hdel :: "string \<Rightarrow> string \<Rightarrow> unit command" where
  "cmd_hdel k f v r v' \<longleftrightarrow>
     (if hash_key v k then r = Inr () \<and> v' = ks_hdel v k f else r = Inl wrong_type \<and> v' = v)"

definition cmd_hexists :: "string \<Rightarrow> string \<Rightarrow> bool command" where
  "cmd_hexists k f v r v' \<longleftrightarrow> v' = v \<and>
     r = (if hash_key v k then Inr (hfield v k f \<noteq> None) else Inl wrong_type)"

definition cmd_hkeys :: "string \<Rightarrow> string list command" where
  "cmd_hkeys k v r v' \<longleftrightarrow> v' = v \<and>
     (if hash_key v k then \<exists>fs. r = Inr fs \<and> distinct fs \<and> set fs = dom (hfield v k)
      else r = Inl wrong_type)"

definition cmd_get :: "string \<Rightarrow> string command" where
  "cmd_get k v r v' \<longleftrightarrow> v' = v \<and>
     r = (if \<not> plain_key v k then Inl wrong_type
          else case plain v k of None \<Rightarrow> Inl ErrNil | Some x \<Rightarrow> Inr x)"

definition cmd_set :: "string \<Rightarrow> string \<Rightarrow> unit command" where
  "cmd_set k x v r v' \<longleftrightarrow> r = Inr () \<and> v' = v(k \<mapsto> RString x)"

definition cmd_del :: "string \<Rightarrow> unit command" where
  "cmd_del k v r v' \<longleftrightarrow> r = Inr () \<and> v' = v(k := None)"

definition cmd_keys :: "string \<Rightarrow> string list command" where
  "cmd_keys pat v r v' \<longleftrightarrow> v' = v \<and>
     (\<exists>ks. r = Inr ks \<and> distinct ks \<and> set ks = {k \<in> dom v. glob pat k})"

definition cmd_type :: "string \<Rightarrow> string command" where
  "cmd_type k v r v' \<longleftrightarrow> v' = v \<and> r = Inr (type_name (v k))"

lemmas cmd_defs = cmd_hget_def cmd_hset_def cmd_hdel_def cmd_hexists_def cmd_hkeys_def
  cmd_get_def cmd_set_def cmd_del_def cmd_keys_def cmd_type_def

section \<open>The client calls\<close>

record 's redis =
  do_HGET :: "string \<Rightarrow> string \<Rightarrow> ('s, string) go"
  do_HSET :: "string \<Rightarrow> string \<Rightarrow> string \<Rightarrow> ('s, unit) go"
  do_HDEL :: "string \<Rightarrow> string \<Rightarrow> ('s, unit) go"
  do_HEXISTS :: "string \<Rightarrow> string \<Rightarrow> ('s, bool) go"
  do_HKEYS :: "string \<Rightarrow> ('s, string list) go"
  do_GET :: "string \<Rightarrow> ('s, string) go"
  do_SET :: "string \<Rightarrow> string \<Rightarrow> ('s, unit) go"
  do_DEL :: "string \<Rightarrow> ('s, unit) go"
  do_KEYS :: "string \<Rightarrow> ('s, string list) go"
  do_TYPE :: "string \<Rightarrow> ('s, string) go"

text \<open>
  A call serves a command when its answer and its effect are the command's, or when it fails with
  an error from outside and the command has been applied or not. It answers it when it never
  fails.
\<close>

definition serves :: "('s \<Rightarrow> keyspace) \<Rightarrow> ('s, 'a) go \<Rightarrow> 'a command \<Rightarrow> bool" where
  "serves view m c \<longleftrightarrow> (\<forall>s. case m s of (r, s') \<Rightarrow>
     c (view s) r (view s') \<or>
     (\<exists>t. r = Inl (Extern t)) \<and> (view s' = view s \<or> (\<exists>r0. c (view s) r0 (view s'))))"

definition answers :: "('s \<Rightarrow> keyspace) \<Rightarrow> ('s, 'a) go \<Rightarrow> 'a command \<Rightarrow> bool" where
  "answers view m c \<longleftrightarrow> (\<forall>s. case m s of (r, s') \<Rightarrow> c (view s) r (view s'))"

lemma answers_serves: "answers view m c \<Longrightarrow> serves view m c"
  by (auto simp: answers_def serves_def split: prod.splits)

lemma wpM_serves:
  assumes "serves view m c"
    and "\<And>r s'. c (view s) r (view s') \<Longrightarrow> Q r s'"
    and "\<And>t s'. view s' = view s \<Longrightarrow> Q (Inl (Extern t)) s'"
    and "\<And>t r0 s'. c (view s) r0 (view s') \<Longrightarrow> Q (Inl (Extern t)) s'"
  shows "wpM m Q s"
proof (rule wpM_I)
  fix r s' assume run: "m s = (r, s')"
  have "case m s of (r, s') \<Rightarrow> c (view s) r (view s') \<or>
      (\<exists>t. r = Inl (Extern t)) \<and> (view s' = view s \<or> (\<exists>r0. c (view s) r0 (view s')))"
    using assms(1) by (simp add: serves_def)
  then have "c (view s) r (view s') \<or>
      (\<exists>t. r = Inl (Extern t)) \<and> (view s' = view s \<or> (\<exists>r0. c (view s) r0 (view s')))"
    by (simp add: run)
  then show "Q r s'" using assms(2-4) by blast
qed

lemma wpM_answers:
  assumes "answers view m c"
    and "\<And>r s'. c (view s) r (view s') \<Longrightarrow> Q r s'"
  shows "wpM m Q s"
proof (rule wpM_I)
  fix r s' assume run: "m s = (r, s')"
  have "case m s of (r, s') \<Rightarrow> c (view s) r (view s')"
    using assms(1) by (simp add: answers_def)
  then have "c (view s) r (view s')" by (simp add: run)
  then show "Q r s'" by (rule assms(2))
qed

section \<open>Calls that keep a property of the keyspace\<close>

text \<open>A call is safe for a property when the property survives it, however it ends, and it ends
  without a panic. The rules follow the structure of the code, so a program's operation is safe for
  a property as soon as the property survives the operation's writes.\<close>

definition safe_call :: "('s \<Rightarrow> keyspace) \<Rightarrow> (keyspace \<Rightarrow> bool) \<Rightarrow> ('s, 'a) go \<Rightarrow> bool" where
  "safe_call view P m \<longleftrightarrow>
     (\<forall>s. P (view s) \<longrightarrow> wpM m (\<lambda>r s'. P (view s') \<and> (\<forall>e. r = Inl e \<longrightarrow> \<not> is_panic e)) s)"

lemma safe_callD:
  assumes "safe_call view P m" "P (view s)" "m s = (r, s')"
  shows "P (view s') \<and> (\<forall>t. r \<noteq> Inl (Panic t))"
proof -
  have "wpM m (\<lambda>r s'. P (view s') \<and> (\<forall>e. r = Inl e \<longrightarrow> \<not> is_panic e)) s"
    using assms(1,2) by (simp add: safe_call_def)
  from wpM_D [OF this assms(3)] show ?thesis by auto
qed

lemma safe_handle:
  fixes m :: "('s, 'a) go"
  assumes m: "safe_call view P m" and err: "\<And>e. \<not> is_panic e \<Longrightarrow> safe_call view P (f (Inl e))"
    and val: "\<And>x. safe_call view P (f (Inr x))"
  shows "safe_call view P (handleM m f)"
  unfolding safe_call_def wpM_handleM
proof (intro allI impI)
  fix s assume "P (view s)"
  with m have "wpM m (\<lambda>r s'. P (view s') \<and> (\<forall>e. r = Inl e \<longrightarrow> \<not> is_panic e)) s"
    by (simp add: safe_call_def)
  then show "wpM m (\<lambda>r. wpM (f r) (\<lambda>r s'. P (view s') \<and> (\<forall>e. r = Inl e \<longrightarrow> \<not> is_panic e))) s"
  proof (rule wpM_mono)
    fix r :: "go_error + 'a" and s' assume r: "P (view s') \<and> (\<forall>e. r = Inl e \<longrightarrow> \<not> is_panic e)"
    then have "safe_call view P (f r)" using err val by (cases r) auto
    with r show "wpM (f r) (\<lambda>r s'. P (view s') \<and> (\<forall>e. r = Inl e \<longrightarrow> \<not> is_panic e)) s'"
      by (simp add: safe_call_def)
  qed
qed

lemma safe_return: "safe_call view P (returnM x)"
  by (simp add: safe_call_def)

lemma safe_raise: "\<not> is_panic e \<Longrightarrow> safe_call view P (raiseM e)"
  by (simp add: safe_call_def)

lemma safe_lift: "(\<And>e. r = Inl e \<Longrightarrow> \<not> is_panic e) \<Longrightarrow> safe_call view P (liftM r)"
  by (simp add: safe_call_def)

lemma bindM_handle: "bindM m f = handleM m (\<lambda>r. case r of Inl e \<Rightarrow> raiseM e | Inr x \<Rightarrow> f x)"
  by (auto simp: bindM_def handleM_def raiseM_def fun_eq_iff split: prod.split sum.split)

lemma safe_bind: "safe_call view P m \<Longrightarrow> (\<And>x. safe_call view P (f x)) \<Longrightarrow> safe_call view P (bindM m f)"
  unfolding bindM_handle by (rule safe_handle) (simp_all add: safe_raise)

lemma safe_wrap: "safe_call view P m \<Longrightarrow> (\<And>e. \<not> is_panic (g e)) \<Longrightarrow> safe_call view P (wrapM g m)"
  unfolding wrapM_def by (rule safe_handle) (simp_all add: safe_raise safe_return)

lemma safe_on_error:
  "safe_call view P m \<Longrightarrow> safe_call view P clean \<Longrightarrow> safe_call view P (on_errorM clean m)"
  unfolding on_errorM_def by (rule safe_handle) (simp_all add: safe_raise safe_return safe_handle)

lemma safe_ignore: "safe_call view P m \<Longrightarrow> safe_call view P (ignoreM m)"
  unfolding ignoreM_def by (rule safe_handle) (simp_all add: safe_return)

lemma safe_forM: "(\<And>x. x \<in> set xs \<Longrightarrow> safe_call view P (f x)) \<Longrightarrow> safe_call view P (forM xs f)"
  by (induction xs) (auto intro: safe_return safe_bind)

lemma safe_if:
  "(b \<Longrightarrow> safe_call view P m1) \<Longrightarrow> (\<not> b \<Longrightarrow> safe_call view P m2) \<Longrightarrow> safe_call view P (if b then m1 else m2)"
  by simp

lemma safe_pair: "(\<And>a b. p = (a, b) \<Longrightarrow> safe_call view P (f a b)) \<Longrightarrow> safe_call view P (case p of (a, b) \<Rightarrow> f a b)"
  by (cases p) simp

lemma safe_case_sum:
  "(\<And>e. r = Inl e \<Longrightarrow> safe_call view P (f e)) \<Longrightarrow> (\<And>x. r = Inr x \<Longrightarrow> safe_call view P (g x)) \<Longrightarrow>
   safe_call view P (case r of Inl e \<Rightarrow> f e | Inr x \<Rightarrow> g x)"
  by (cases r) simp_all

lemma safe_let: "safe_call view P (f x) \<Longrightarrow> safe_call view P (Let x f)"
  by (simp add: Let_def)

lemmas safe_rules = safe_bind safe_wrap safe_on_error safe_return safe_raise safe_if safe_let safe_ignore
  safe_forM safe_case_sum safe_pair

section \<open>What the program relies on\<close>

locale redis_service =
  fixes rd :: "'s redis" and view :: "'s \<Rightarrow> keyspace"
  assumes serves_hget: "serves view (do_HGET rd k f) (cmd_hget k f)"
    and serves_hset: "serves view (do_HSET rd k f x) (cmd_hset k f x)"
    and serves_hdel: "serves view (do_HDEL rd k f) (cmd_hdel k f)"
    and serves_hexists: "serves view (do_HEXISTS rd k f) (cmd_hexists k f)"
    and serves_hkeys: "serves view (do_HKEYS rd k) (cmd_hkeys k)"
    and serves_get: "serves view (do_GET rd k) (cmd_get k)"
    and serves_set: "serves view (do_SET rd k x) (cmd_set k x)"
    and serves_del: "serves view (do_DEL rd k) (cmd_del k)"
    and serves_keys: "serves view (do_KEYS rd pat) (cmd_keys pat)"
    and serves_type: "serves view (do_TYPE rd k) (cmd_type k)"
begin

text \<open>
  One rule per call: what may be assumed after it. A wrong-type answer is an error from outside,
  so the last premises cover it.
\<close>

lemma wp_HGET:
  assumes "\<And>x s'. view s' = view s \<Longrightarrow> hfield (view s) k f = Some x \<Longrightarrow> Q (Inr x) s'"
    and "\<And>s'. view s' = view s \<Longrightarrow> hfield (view s) k f = None \<Longrightarrow> Q (Inl ErrNil) s'"
    and "\<And>t s'. view s' = view s \<Longrightarrow> Q (Inl (Extern t)) s'"
  shows "wpM (do_HGET rd k f) Q s"
  by (rule wpM_serves [OF serves_hget])
    (auto simp: cmd_hget_def wrong_type_def intro: assms split: option.split)

lemma wp_HSET:
  assumes "\<And>s'. view s' = ks_hset (view s) k f x \<Longrightarrow> Q (Inr ()) s'"
    and "\<And>t s'. view s' = view s \<Longrightarrow> Q (Inl (Extern t)) s'"
    and "\<And>t s'. view s' = ks_hset (view s) k f x \<Longrightarrow> Q (Inl (Extern t)) s'"
  shows "wpM (do_HSET rd k f x) Q s"
  by (rule wpM_serves [OF serves_hset])
    (auto simp: cmd_hset_def wrong_type_def intro: assms split: if_splits)

lemma wp_HDEL:
  assumes "\<And>s'. hash_key (view s) k \<Longrightarrow> view s' = ks_hdel (view s) k f \<Longrightarrow> Q (Inr ()) s'"
    and "\<And>t s'. view s' = view s \<Longrightarrow> Q (Inl (Extern t)) s'"
    and "\<And>t s'. hash_key (view s) k \<Longrightarrow> view s' = ks_hdel (view s) k f \<Longrightarrow> Q (Inl (Extern t)) s'"
  shows "wpM (do_HDEL rd k f) Q s"
  by (rule wpM_serves [OF serves_hdel])
    (auto simp: cmd_hdel_def wrong_type_def intro: assms split: if_splits)

lemma wp_HEXISTS:
  assumes "\<And>s'. view s' = view s \<Longrightarrow> Q (Inr (hfield (view s) k f \<noteq> None)) s'"
    and "\<And>t s'. view s' = view s \<Longrightarrow> Q (Inl (Extern t)) s'"
  shows "wpM (do_HEXISTS rd k f) Q s"
  by (rule wpM_serves [OF serves_hexists])
    (auto simp: cmd_hexists_def wrong_type_def simp del: not_None_eq intro: assms)

lemma wp_HKEYS:
  assumes "\<And>fs s'. view s' = view s \<Longrightarrow> distinct fs \<Longrightarrow> set fs = dom (hfield (view s) k) \<Longrightarrow> Q (Inr fs) s'"
    and "\<And>t s'. view s' = view s \<Longrightarrow> Q (Inl (Extern t)) s'"
  shows "wpM (do_HKEYS rd k) Q s"
  by (rule wpM_serves [OF serves_hkeys])
    (auto simp: cmd_hkeys_def wrong_type_def intro: assms split: if_splits)

lemma wp_GET:
  assumes "\<And>x s'. view s' = view s \<Longrightarrow> plain (view s) k = Some x \<Longrightarrow> Q (Inr x) s'"
    and "\<And>s'. view s' = view s \<Longrightarrow> plain_key (view s) k \<Longrightarrow> plain (view s) k = None \<Longrightarrow> Q (Inl ErrNil) s'"
    and "\<And>t s'. view s' = view s \<Longrightarrow> Q (Inl (Extern t)) s'"
  shows "wpM (do_GET rd k) Q s"
  by (rule wpM_serves [OF serves_get])
    (auto simp: cmd_get_def wrong_type_def intro: assms split: option.split)

lemma wp_SET:
  assumes "\<And>s'. view s' = (view s)(k \<mapsto> RString x) \<Longrightarrow> Q (Inr ()) s'"
    and "\<And>t s'. view s' = view s \<Longrightarrow> Q (Inl (Extern t)) s'"
    and "\<And>t s'. view s' = (view s)(k \<mapsto> RString x) \<Longrightarrow> Q (Inl (Extern t)) s'"
  shows "wpM (do_SET rd k x) Q s"
  by (rule wpM_serves [OF serves_set]) (auto simp: cmd_set_def intro: assms)

lemma wp_DEL:
  assumes "\<And>s'. view s' = (view s)(k := None) \<Longrightarrow> Q (Inr ()) s'"
    and "\<And>t s'. view s' = view s \<Longrightarrow> Q (Inl (Extern t)) s'"
    and "\<And>t s'. view s' = (view s)(k := None) \<Longrightarrow> Q (Inl (Extern t)) s'"
  shows "wpM (do_DEL rd k) Q s"
  by (rule wpM_serves [OF serves_del]) (auto simp: cmd_del_def intro: assms)

lemma wp_KEYS:
  assumes "\<And>ks s'. view s' = view s \<Longrightarrow> distinct ks \<Longrightarrow> set ks = {k \<in> dom (view s). glob pat k} \<Longrightarrow> Q (Inr ks) s'"
    and "\<And>t s'. view s' = view s \<Longrightarrow> Q (Inl (Extern t)) s'"
  shows "wpM (do_KEYS rd pat) Q s"
  by (rule wpM_serves [OF serves_keys]) (auto simp: cmd_keys_def intro: assms)

lemma wp_TYPE:
  assumes "\<And>s'. view s' = view s \<Longrightarrow> Q (Inr (type_name (view s k))) s'"
    and "\<And>t s'. view s' = view s \<Longrightarrow> Q (Inl (Extern t)) s'"
  shows "wpM (do_TYPE rd k) Q s"
  by (rule wpM_serves [OF serves_type]) (auto simp: cmd_type_def intro: assms)

lemma safe_calls:
  "safe_call view P (do_HGET rd k f)"
  "(\<And>v. P v \<Longrightarrow> P (ks_hset v k f x)) \<Longrightarrow> safe_call view P (do_HSET rd k f x)"
  "(\<And>v. P v \<Longrightarrow> P (ks_hdel v k f)) \<Longrightarrow> safe_call view P (do_HDEL rd k f)"
  "safe_call view P (do_HEXISTS rd k f)"
  "safe_call view P (do_HKEYS rd k)"
  "safe_call view P (do_GET rd k)"
  "(\<And>v. P v \<Longrightarrow> P (v(k \<mapsto> RString x))) \<Longrightarrow> safe_call view P (do_SET rd k x)"
  "(\<And>v. P v \<Longrightarrow> P (v(k := None))) \<Longrightarrow> safe_call view P (do_DEL rd k)"
  "safe_call view P (do_KEYS rd pat)"
  "safe_call view P (do_TYPE rd k)"
  unfolding safe_call_def
  by (auto intro!: wp_HGET wp_HSET wp_HDEL wp_HEXISTS wp_HKEYS wp_GET wp_SET wp_DEL wp_KEYS wp_TYPE)

lemmas wp_service = wp_HGET wp_HSET wp_HDEL wp_HEXISTS wp_HKEYS wp_GET wp_SET wp_DEL wp_KEYS wp_TYPE

end

locale redis_reliable = redis_service +
  assumes answers_hget: "answers view (do_HGET rd k f) (cmd_hget k f)"
    and answers_hset: "answers view (do_HSET rd k f x) (cmd_hset k f x)"
    and answers_hdel: "answers view (do_HDEL rd k f) (cmd_hdel k f)"
    and answers_hexists: "answers view (do_HEXISTS rd k f) (cmd_hexists k f)"
    and answers_hkeys: "answers view (do_HKEYS rd k) (cmd_hkeys k)"
    and answers_get: "answers view (do_GET rd k) (cmd_get k)"
    and answers_set: "answers view (do_SET rd k x) (cmd_set k x)"
    and answers_del: "answers view (do_DEL rd k) (cmd_del k)"
    and answers_keys: "answers view (do_KEYS rd pat) (cmd_keys pat)"
    and answers_type: "answers view (do_TYPE rd k) (cmd_type k)"
begin

lemma up_HGET:
  assumes "hash_key (view s) k"
    and "\<And>s'. view s' = view s \<Longrightarrow>
      Q (case hfield (view s) k f of None \<Rightarrow> Inl ErrNil | Some x \<Rightarrow> Inr x) s'"
  shows "wpM (do_HGET rd k f) Q s"
  by (rule wpM_answers [OF answers_hget]) (auto simp: cmd_hget_def assms)

lemma up_HSET:
  assumes "hash_key (view s) k"
    and "\<And>s'. view s' = ks_hset (view s) k f x \<Longrightarrow> Q (Inr ()) s'"
  shows "wpM (do_HSET rd k f x) Q s"
  by (rule wpM_answers [OF answers_hset]) (auto simp: cmd_hset_def assms)

lemma up_HDEL:
  assumes "hash_key (view s) k"
    and "\<And>s'. view s' = ks_hdel (view s) k f \<Longrightarrow> Q (Inr ()) s'"
  shows "wpM (do_HDEL rd k f) Q s"
  by (rule wpM_answers [OF answers_hdel]) (auto simp: cmd_hdel_def assms)

lemma up_HEXISTS:
  assumes "hash_key (view s) k"
    and "\<And>s'. view s' = view s \<Longrightarrow> Q (Inr (hfield (view s) k f \<noteq> None)) s'"
  shows "wpM (do_HEXISTS rd k f) Q s"
  by (rule wpM_answers [OF answers_hexists]) (auto simp: cmd_hexists_def assms simp del: not_None_eq)

lemma up_HKEYS:
  assumes "hash_key (view s) k"
    and "\<And>fs s'. view s' = view s \<Longrightarrow> distinct fs \<Longrightarrow> set fs = dom (hfield (view s) k) \<Longrightarrow> Q (Inr fs) s'"
  shows "wpM (do_HKEYS rd k) Q s"
  by (rule wpM_answers [OF answers_hkeys]) (auto simp: cmd_hkeys_def assms)

lemma up_GET:
  assumes "plain_key (view s) k"
    and "\<And>s'. view s' = view s \<Longrightarrow>
      Q (case plain (view s) k of None \<Rightarrow> Inl ErrNil | Some x \<Rightarrow> Inr x) s'"
  shows "wpM (do_GET rd k) Q s"
  by (rule wpM_answers [OF answers_get]) (auto simp: cmd_get_def assms)

lemma up_SET:
  assumes "\<And>s'. view s' = (view s)(k \<mapsto> RString x) \<Longrightarrow> Q (Inr ()) s'"
  shows "wpM (do_SET rd k x) Q s"
  by (rule wpM_answers [OF answers_set]) (auto simp: cmd_set_def assms)

lemma up_DEL:
  assumes "\<And>s'. view s' = (view s)(k := None) \<Longrightarrow> Q (Inr ()) s'"
  shows "wpM (do_DEL rd k) Q s"
  by (rule wpM_answers [OF answers_del]) (auto simp: cmd_del_def assms)

lemma up_KEYS:
  assumes "\<And>ks s'. view s' = view s \<Longrightarrow> distinct ks \<Longrightarrow> set ks = {k \<in> dom (view s). glob pat k} \<Longrightarrow> Q (Inr ks) s'"
  shows "wpM (do_KEYS rd pat) Q s"
  by (rule wpM_answers [OF answers_keys]) (auto simp: cmd_keys_def assms)

lemma up_TYPE:
  assumes "\<And>s'. view s' = view s \<Longrightarrow> Q (Inr (type_name (view s k))) s'"
  shows "wpM (do_TYPE rd k) Q s"
  by (rule wpM_answers [OF answers_type]) (auto simp: cmd_type_def assms)

lemmas wp_up = up_HGET up_HSET up_HDEL up_HEXISTS up_HKEYS up_GET up_SET up_DEL up_KEYS up_TYPE

end

end
