(* ===== verification/Dns.thy ===== *)
theory Dns
  imports DnsZone Redis
begin

text \<open>
  Component dns, files dns/coredns.go and dns/errors.go: the manager that configures CoreDNS
  through redis. Its state is the keyspace: the hash \<open>zone\<close> (owner of each domain), the hash
  \<open>managed_domains\<close> (owner of each sub-domain) and one hash per zone, named after the zone with a
  final dot, from host name to records. The third-party check \<open>govalidator.IsDNSName\<close> is the
  parameter \<open>isDNSName\<close>. Log messages are left out.
\<close>

record 's dns_Mgr =
  dns_redis :: "'s redis"
  dns_identity :: string

definition dns_New :: "'s redis \<Rightarrow> string \<Rightarrow> 's dns_Mgr" where
  "dns_New pool identity = \<lparr>dns_redis = pool, dns_identity = identity\<rparr>"

section \<open>Reading and writing the store\<close>

text \<open>\<open>if zone[len(zone)-1] != '.' { zone += "." }\<close>, which panics on the empty string.\<close>

definition add_dot :: "string \<Rightarrow> ('s, string) go" where
  "add_dot zone =
     (if zone = [] then raiseM (Panic ''index out of range'')
      else returnM (if last zone \<noteq> CHR ''.'' then zone @ ''.'' else zone))"

definition read_zone_error :: "string \<Rightarrow> go_error \<Rightarrow> go_error" where
  "read_zone_error zone e =
     Wrapped (''failed to read the DNS zone '' @ zone @ '': '' @ error_text e) e"

definition getZoneOwner :: "'s dns_Mgr \<Rightarrow> string \<Rightarrow> ('s, ZoneOwner) go" where
  "getZoneOwner c zone0 =
     (let zone = TrimSuffix zone0 ''.'' in
      handleM (do_HGET (dns_redis c) ''zone'' zone) (\<lambda>r.
        case r of
          Inl e \<Rightarrow> if errors_is e ErrNil then returnM \<lparr>Owner = []\<rparr> else raiseM (read_zone_error zone e)
        | Inr data \<Rightarrow> liftM (json_unmarshal dec_ZoneOwner data)))"

definition setZoneOwner :: "'s dns_Mgr \<Rightarrow> string \<Rightarrow> ZoneOwner \<Rightarrow> ('s, unit) go" where
  "setZoneOwner c zone owner = do_HSET (dns_redis c) ''zone'' zone (json_marshal enc_ZoneOwner owner)"

definition getZoneRecords :: "'s dns_Mgr \<Rightarrow> string \<Rightarrow> string \<Rightarrow> ('s, Zone) go" where
  "getZoneRecords c zone0 name =
     bindM (add_dot zone0) (\<lambda>zone.
     handleM (do_HGET (dns_redis c) zone name) (\<lambda>r.
       case r of
         Inl e \<Rightarrow>
           if errors_is e ErrNil then returnM \<lparr>Records = Some []\<rparr> else raiseM (read_zone_error zone e)
       | Inr data \<Rightarrow>
           bindM (liftM (json_unmarshal (records_UnmarshalJSON (Some [])) data)) (\<lambda>rs.
           returnM \<lparr>Records = rs\<rparr>)))"

definition setZoneRecords :: "'s dns_Mgr \<Rightarrow> string \<Rightarrow> string \<Rightarrow> Zone \<Rightarrow> ('s, unit) go" where
  "setZoneRecords c zone0 name zr =
     bindM (add_dot zone0) (\<lambda>zone.
     do_HSET (dns_redis c) zone name (json_marshal enc_records (Records zr)))"

definition deleteZoneRecords :: "'s dns_Mgr \<Rightarrow> string \<Rightarrow> string \<Rightarrow> ('s, unit) go" where
  "deleteZoneRecords c zone0 name =
     bindM (add_dot zone0) (\<lambda>zone. do_HDEL (dns_redis c) zone name)"

definition setSubdomainOwner :: "'s dns_Mgr \<Rightarrow> string \<Rightarrow> string \<Rightarrow> ('s, unit) go" where
  "setSubdomainOwner c domain user = do_HSET (dns_redis c) ''managed_domains'' domain user"

definition getSubdomainOwner :: "'s dns_Mgr \<Rightarrow> string \<Rightarrow> ('s, string) go" where
  "getSubdomainOwner c domain =
     handleM (do_HGET (dns_redis c) ''managed_domains'' domain) (\<lambda>r.
       case r of
         Inl e \<Rightarrow> if e = ErrNil then returnM [] else raiseM e
       | Inr user \<Rightarrow> returnM user)"

definition deleteSubdomainOwner :: "'s dns_Mgr \<Rightarrow> string \<Rightarrow> ('s, unit) go" where
  "deleteSubdomainOwner c domain = do_HDEL (dns_redis c) ''managed_domains'' domain"

section \<open>Domains and addresses\<close>

definition splitDomain :: "string \<Rightarrow> string \<times> string" where
  "splitDomain d =
     (let ss = SplitByte (CHR ''.'') d in
      if length ss < 3 then ([], d) else (hd ss, Join (tl ss) ''.''))"

definition recordFromIP :: "IP \<Rightarrow> Record" where
  "recordFromIP ip =
     (if To4 ip \<noteq> None then RecordA (IP_String ip) 3600 else RecordAAAA (IP_String ip) 3600)"

definition validateDomain :: "(string \<Rightarrow> bool) \<Rightarrow> string \<Rightarrow> go_error option" where
  "validateDomain isDNSName domain =
     (if \<not> isDNSName domain then Some (NewErr (''domain '' @ quoted domain @ '' name is invalid''))
      else if length domain = 0 then Some (NewErr (''incorrect format for domain '' @ domain))
      else if CountByte domain (CHR ''.'') < 1 then Some (NewErr (''incorrect format for domain '' @ domain))
      else if last domain = CHR ''.'' then Some (NewErr (''incorrect format for domain '' @ domain))
      else if Contains domain ''..'' then Some (NewErr (''incorrect format for domain '' @ domain))
      else None)"

text \<open>\<open>if err := validateDomain(domain); err != nil { return err }\<close>\<close>

definition check_domain :: "(string \<Rightarrow> bool) \<Rightarrow> string \<Rightarrow> ('s, unit) go" where
  "check_domain isDNSName domain =
     (case validateDomain isDNSName domain of Some e \<Rightarrow> raiseM e | None \<Rightarrow> returnM ())"

section \<open>Clean-up of the CoreDNS configuration\<close>

text \<open>The body of the loop over a zone's keys, and the loop.\<close>

definition clean_key :: "'s dns_Mgr \<Rightarrow> string \<Rightarrow> string \<Rightarrow> ('s, unit) go" where
  "clean_key c zone key =
     handleM (do_HGET (dns_redis c) zone key) (\<lambda>r.
       case r of
         Inl e \<Rightarrow> returnM ()
       | Inr value \<Rightarrow>
           if length value = 0 \<or> value = ''{}'' then ignoreM (do_HDEL (dns_redis c) zone key)
           else returnM ())"

definition cleanUp :: "'s dns_Mgr \<Rightarrow> string \<Rightarrow> ('s, unit) go" where
  "cleanUp c zone =
     bindM (wrapM (\<lambda>e. wrap_err e (''failed to list keys of zone '' @ quoted zone)) (do_HKEYS (dns_redis c) zone))
     (\<lambda>keys. forM keys (clean_key c zone))"

fun keep_hashes :: "'s dns_Mgr \<Rightarrow> string list \<Rightarrow> ('s, string list) go" where
  "keep_hashes c [] = returnM []"
| "keep_hashes c (zone # zones) =
     bindM (wrapM (\<lambda>e. wrap_err e (''failed to get type of redis key '' @ quoted zone)) (do_TYPE (dns_redis c) zone))
     (\<lambda>typ. bindM (keep_hashes c zones) (\<lambda>result.
       returnM (if typ = ''hash'' then zone # result else result)))"

definition listCorednsZones :: "'s dns_Mgr \<Rightarrow> ('s, string list) go" where
  "listCorednsZones c =
     bindM (wrapM (\<lambda>e. wrap_err e ''failed to list potential coredns zones'') (do_KEYS (dns_redis c) ''*.''))
     (\<lambda>zones. keep_hashes c zones)"

definition Cleanup :: "'s dns_Mgr \<Rightarrow> ('s, unit) go" where
  "Cleanup c =
     bindM (listCorednsZones c) (\<lambda>zones. forM zones (\<lambda>zone. ignoreM (cleanUp c zone)))"

section \<open>Sub-domains\<close>

definition AddSubdomain ::
    "(string \<Rightarrow> bool) \<Rightarrow> 's dns_Mgr \<Rightarrow> string \<Rightarrow> string \<Rightarrow> IP list \<Rightarrow> ('s, unit) go" where
  "AddSubdomain isDNSName c user domain IPs =
     bindM (check_domain isDNSName domain) (\<lambda>_.
     let (name, zone) = splitDomain domain in
     bindM (wrapM (read_zone_error zone) (getZoneOwner c zone)) (\<lambda>owner.
     if Owner owner = [] then
       raiseM (NewErr (zone @ '' is not managed by the gateway. delegate the domain first''))
     else
       bindM
         (if Owner owner = dns_identity c then
            bindM (getSubdomainOwner c domain) (\<lambda>owner'.
            if owner' \<noteq> [] then
              raiseM (wrap_err DnsErrSubdomainUsed
                (''cannot add subdomain '' @ name @ '' to zone '' @ zone))
            else returnM ())
          else if Owner owner \<noteq> user then
            raiseM (wrap_err DnsErrAuth (''cannot add subdomain '' @ name @ '' to zone '' @ zone))
          else returnM ()) (\<lambda>_.
       bindM (wrapM (\<lambda>e. wrap_err e ''failed to reserve subdomain'') (setSubdomainOwner c domain user)) (\<lambda>_.
       on_errorM (deleteSubdomainOwner c domain)
         (bindM (getZoneRecords c zone name) (\<lambda>zr.
          setZoneRecords c zone name (foldl (\<lambda>z ip. Zone_Add z (recordFromIP ip)) zr IPs)))))))"

definition RemoveSubdomain ::
    "(string \<Rightarrow> bool) \<Rightarrow> 's dns_Mgr \<Rightarrow> string \<Rightarrow> string \<Rightarrow> IP list \<Rightarrow> ('s, unit) go" where
  "RemoveSubdomain isDNSName c user domain IPs =
     bindM (check_domain isDNSName domain) (\<lambda>_.
     let (name, zone) = splitDomain domain in
     bindM (wrapM (read_zone_error zone) (getZoneOwner c zone)) (\<lambda>owner.
     if Owner owner = [] then deleteSubdomainOwner c domain
     else
       bindM (getSubdomainOwner c domain) (\<lambda>ownerName.
       if ownerName \<noteq> [] \<and> ownerName \<noteq> user then
         raiseM (wrap_err DnsErrAuth (''cannot remove subdomain '' @ name @ '' from zone '' @ zone))
       else
         bindM (getZoneRecords c zone name) (\<lambda>zr0.
         if records_IsEmpty (Records zr0) then returnM ()
         else
           let zr = foldl (\<lambda>z ip. Zone_Remove z (recordFromIP ip)) zr0 IPs in
           if records_IsEmpty (Records zr) then
             bindM (deleteZoneRecords c zone name) (\<lambda>_. deleteSubdomainOwner c domain)
           else setZoneRecords c zone name zr))))"

section \<open>Delegated domains\<close>

text \<open>The TXT record is the JSON text of the gateway's identity and the owner.\<close>

definition enc_owner_data :: "string \<times> string \<Rightarrow> json" where
  "enc_owner_data d = JObj [(''identity'', JStr (fst d)), (''owner'', JStr (snd d))]"

definition owner_record :: "string \<Rightarrow> string \<Rightarrow> Record" where
  "owner_record identity owner = RecordTXT (json_marshal enc_owner_data (identity, owner)) 600"

definition setZoneOwnerTXTRecord :: "'s dns_Mgr \<Rightarrow> string \<Rightarrow> string \<Rightarrow> string \<Rightarrow> ('s, unit) go" where
  "setZoneOwnerTXTRecord c domain identity owner =
     setZoneRecords c domain ''__owner__'' (Zone_Add \<lparr>Records = None\<rparr> (owner_record identity owner))"

definition AddDomainDelagate ::
    "(string \<Rightarrow> bool) \<Rightarrow> 's dns_Mgr \<Rightarrow> string \<Rightarrow> string \<Rightarrow> string \<Rightarrow> ('s, unit) go" where
  "AddDomainDelagate isDNSName c identity user domain =
     bindM (check_domain isDNSName domain) (\<lambda>_.
     bindM (getZoneOwner c domain) (\<lambda>owner.
     if Owner owner \<noteq> [] \<and> Owner owner \<noteq> user then
       raiseM (Wrapped (error_text DnsErrAuth @ '' cannot delegate domain '' @ domain) DnsErrAuth)
     else
       let owner = owner\<lparr>Owner := user\<rparr> in
       bindM (wrapM (\<lambda>e. wrap_err e ''failed to set zone owner'') (setZoneOwner c domain owner)) (\<lambda>_.
       setZoneOwnerTXTRecord c domain identity (Owner owner))))"

definition RemoveDomainDelagate ::
    "(string \<Rightarrow> bool) \<Rightarrow> 's dns_Mgr \<Rightarrow> string \<Rightarrow> string \<Rightarrow> ('s, unit) go" where
  "RemoveDomainDelagate isDNSName c user domain =
     bindM (check_domain isDNSName domain) (\<lambda>_.
     bindM (getZoneOwner c domain) (\<lambda>owner.
     if Owner owner \<noteq> [] \<and> Owner owner \<noteq> user then
       raiseM (Wrapped (error_text DnsErrAuth @ '' cannot remove delegated domain '' @ domain) DnsErrAuth)
     else
       bindM (do_DEL (dns_redis c) domain) (\<lambda>_.
       do_HDEL (dns_redis c) ''zone'' domain)))"

section \<open>Facts about names and addresses\<close>

lemma validateDomain_None:
  assumes "validateDomain isDNSName d = None"
  shows "isDNSName d" "d \<noteq> []" "last d \<noteq> CHR ''.''" "CHR ''.'' \<in> set d"
  using assms CountByte_pos [of d "CHR ''.''"]
  by (auto simp: validateDomain_def split: if_splits)

lemma splitDomain_cases:
  obtains (short) "splitDomain d = ([], d)"
  | (long) name zone where "splitDomain d = (name, zone)" "d = name @ CHR ''.'' # zone"
      "CHR ''.'' \<notin> set name" "CHR ''.'' \<in> set zone"
proof (cases "length (SplitByte (CHR ''.'') d) < 3")
  case True
  then show thesis by (intro short) (simp add: splitDomain_def)
next
  case False
  then have "Suc (Suc (Suc 0)) \<le> length (SplitByte (CHR ''.'') d)" by simp
  then obtain a b c ws where ss: "SplitByte (CHR ''.'') d = a # b # c # ws"
    by (auto simp: Suc_le_length_iff)
  define zone where "zone = Join (b # c # ws) ''.''"
  have "d = Join (a # b # c # ws) ''.''" using Join_SplitByte [of "CHR ''.''" d] ss by simp
  then have d: "d = a @ CHR ''.'' # zone" by (simp add: zone_def)
  have "CHR ''.'' \<notin> set a" using SplitByte_no_sep [of a "CHR ''.''" d] ss by simp
  moreover have "CHR ''.'' \<in> set zone" by (simp add: zone_def Join_Cons)
  moreover have "splitDomain d = (a, zone)" using ss by (simp add: splitDomain_def zone_def)
  ultimately show thesis using d by (intro long)
qed

lemma splitDomain_zone:
  assumes "validateDomain isDNSName d = None" and "splitDomain d = (name, zone)"
  shows "zone \<noteq> []" "last zone \<noteq> CHR ''.''" "CHR ''.'' \<in> set zone"
proof -
  note d = validateDomain_None [OF assms(1)]
  have "CHR ''.'' \<in> set zone \<and> last zone = last d"
    by (rule splitDomain_cases [of d]) (use assms(2) d(4) in auto)
  with d(3) show "zone \<noteq> []" "last zone \<noteq> CHR ''.''" "CHR ''.'' \<in> set zone" by auto
qed

lemma splitDomain_inject:
  assumes "splitDomain d = (name, zone)" and "splitDomain d' = (name, zone)" and "name \<noteq> []"
  shows "d = d'"
proof -
  have "x = name @ CHR ''.'' # zone" if "splitDomain x = (name, zone)" for x
    by (rule splitDomain_cases [of x]) (use that assms(3) in auto)
  from this [OF assms(1)] this [OF assms(2)] show ?thesis by simp
qed

lemma TrimSuffix_dot [simp]: "last z \<noteq> CHR ''.'' \<Longrightarrow> TrimSuffix z ''.'' = z"
  by (simp add: TrimSuffix_byte)

text \<open>No caller that has validated its domain makes the zone helpers panic.\<close>

lemma add_dot_ok [simp]: "z \<noteq> [] \<Longrightarrow> last z \<noteq> CHR ''.'' \<Longrightarrow> add_dot z = returnM (z @ ''.'')"
  by (simp add: add_dot_def)

lemma recordFromIP_wf [simp]: "wf_record (recordFromIP ip)"
  by (simp add: recordFromIP_def int64_range_def ascii_valid)

lemma owner_record_wf [simp]: "wf_record (owner_record identity owner)"
  by (simp add: owner_record_def json_marshal_valid enc_owner_data_def int64_range_def)

lemma wpM_check_domain [wp]:
  "wpM (check_domain isDNSName d) Q s =
     (case validateDomain isDNSName d of Some e \<Rightarrow> Q (Inl e) s | None \<Rightarrow> Q (Inr ()) s)"
  by (simp add: check_domain_def split: option.split)

lemma validateDomain_plain: "validateDomain isDNSName d = Some e \<Longrightarrow> \<exists>t. e = NewErr t"
  by (auto simp: validateDomain_def split: if_splits)

end
