(* ===== verification/DnsSpec.thy ===== *)
theory DnsSpec
  imports Dns
begin

text \<open>
  What the DNS manager promises, free of redis, JSON and key names. The abstract state says who
  owns each delegated domain, who holds each sub-domain, and which records each name of each zone
  has, in order and by type; the empty string means nobody. One function per operation gives its
  outcome and the next state. The abstraction function and the notion of a well-formed store link
  it to the keyspace.
\<close>

section \<open>The abstract state and its operations\<close>

record dns_abs =
  owners :: "string \<Rightarrow> string"
  holders :: "string \<Rightarrow> string"
  rrs :: "string \<Rightarrow> string \<Rightarrow> RecordType \<Rightarrow> Record option list"

datatype dns_outcome = Done | Unauthorized | Taken | Refused

definition set_rrs :: "string \<Rightarrow> string \<Rightarrow> (RecordType \<Rightarrow> Record option list) \<Rightarrow> dns_abs \<Rightarrow> dns_abs" where
  "set_rrs z n f a = a\<lparr>rrs := (rrs a)(z := (rrs a z)(n := f))\<rparr>"

definition set_holder :: "string \<Rightarrow> string \<Rightarrow> dns_abs \<Rightarrow> dns_abs" where
  "set_holder d u a = a\<lparr>holders := (holders a)(d := u)\<rparr>"

definition set_owner :: "string \<Rightarrow> string \<Rightarrow> dns_abs \<Rightarrow> dns_abs" where
  "set_owner z u a = a\<lparr>owners := (owners a)(z := u)\<rparr>"

text \<open>The address records for a list of addresses.\<close>

definition ip_records :: "IP list \<Rightarrow> Record list" where
  "ip_records IPs = map recordFromIP IPs"

definition of_type :: "RecordType \<Rightarrow> Record list \<Rightarrow> Record option list" where
  "of_type t rs = map Some (filter (\<lambda>r. Record_Type r = t) rs)"

definition spec_add :: "string \<Rightarrow> string \<Rightarrow> string \<Rightarrow> IP list \<Rightarrow> dns_abs \<Rightarrow> dns_outcome \<times> dns_abs" where
  "spec_add identity user d IPs a =
     (case splitDomain d of (n, z) \<Rightarrow>
        if owners a z = [] then (Refused, a)
        else if owners a z = identity \<and> holders a d \<noteq> [] then (Taken, a)
        else if owners a z \<noteq> identity \<and> owners a z \<noteq> user then (Unauthorized, a)
        else (Done, set_rrs z n (\<lambda>t. rrs a z n t @ of_type t (ip_records IPs)) (set_holder d user a)))"

definition spec_remove :: "string \<Rightarrow> string \<Rightarrow> IP list \<Rightarrow> dns_abs \<Rightarrow> dns_outcome \<times> dns_abs" where
  "spec_remove user d IPs a =
     (case splitDomain d of (n, z) \<Rightarrow>
        if owners a z = [] then (Done, set_holder d [] a)
        else if holders a d \<noteq> [] \<and> holders a d \<noteq> user then (Unauthorized, a)
        else if \<forall>t. rrs a z n t = [] then (Done, a)
        else
          (let left = (\<lambda>t. filter (\<lambda>x. x \<notin> Some ` set (ip_records IPs)) (rrs a z n t)) in
           (Done, set_rrs z n left (if \<forall>t. left t = [] then set_holder d [] a else a))))"

definition spec_delegate :: "string \<Rightarrow> string \<Rightarrow> string \<Rightarrow> dns_abs \<Rightarrow> dns_outcome \<times> dns_abs" where
  "spec_delegate identity user d a =
     (if owners a d \<noteq> [] \<and> owners a d \<noteq> user then (Unauthorized, a)
      else (Done, set_rrs d ''__owner__'' (\<lambda>t. of_type t [owner_record identity user]) (set_owner d user a)))"

text \<open>
  Giving up a domain. \<open>spec_undelegate\<close> is what the comment in the code asks for: the records of the
  domain go with its owner. \<open>code_undelegate\<close> is what the code does, which leaves them.
\<close>

definition clear_rrs :: "string \<Rightarrow> dns_abs \<Rightarrow> dns_abs" where
  "clear_rrs z a = a\<lparr>rrs := (rrs a)(z := (\<lambda>n t. []))\<rparr>"

definition spec_undelegate :: "string \<Rightarrow> string \<Rightarrow> dns_abs \<Rightarrow> dns_outcome \<times> dns_abs" where
  "spec_undelegate user d a =
     (if owners a d \<noteq> [] \<and> owners a d \<noteq> user then (Unauthorized, a) else (Done, clear_rrs d (set_owner d [] a)))"

definition code_undelegate :: "string \<Rightarrow> string \<Rightarrow> dns_abs \<Rightarrow> dns_outcome \<times> dns_abs" where
  "code_undelegate user d a =
     (if owners a d \<noteq> [] \<and> owners a d \<noteq> user then (Unauthorized, a) else (Done, set_owner d [] a))"

text \<open>Every operation checks the domain first.\<close>

definition spec_checked ::
    "(string \<Rightarrow> bool) \<Rightarrow> string \<Rightarrow> (dns_abs \<Rightarrow> dns_outcome \<times> dns_abs) \<Rightarrow> dns_abs \<Rightarrow> dns_outcome \<times> dns_abs" where
  "spec_checked isDNSName d f a = (if validateDomain isDNSName d = None then f a else (Refused, a))"

definition outcome :: "go_error + unit \<Rightarrow> dns_outcome" where
  "outcome r = (case r of Inr u \<Rightarrow> Done
     | Inl e \<Rightarrow> if errors_is e DnsErrAuth then Unauthorized
               else if errors_is e DnsErrSubdomainUsed then Taken else Refused)"

lemma outcome_Done: "outcome r = Done \<longleftrightarrow> r = Inr ()"
  by (auto simp: outcome_def split: sum.split)

lemma outcome_Taken:
  "outcome r = Taken \<longleftrightarrow> (\<exists>e. r = Inl e \<and> \<not> errors_is e DnsErrAuth \<and> errors_is e DnsErrSubdomainUsed)"
  by (auto simp: outcome_def split: sum.split)

section \<open>The abstraction of a keyspace\<close>

definition owner_of :: "keyspace \<Rightarrow> string \<Rightarrow> string" where
  "owner_of v z = (case hfield v ''zone'' z of None \<Rightarrow> []
     | Some b \<Rightarrow> (case json_unmarshal dec_ZoneOwner b of Inl e \<Rightarrow> [] | Inr o1 \<Rightarrow> Owner o1))"

definition holder_of :: "keyspace \<Rightarrow> string \<Rightarrow> string" where
  "holder_of v d = (case hfield v ''managed_domains'' d of None \<Rightarrow> [] | Some u \<Rightarrow> u)"

definition stored_zone :: "keyspace \<Rightarrow> string \<Rightarrow> string \<Rightarrow> Zone" where
  "stored_zone v z n =
     (case hfield v (z @ ''.'') n of None \<Rightarrow> \<lparr>Records = Some []\<rparr>
      | Some b \<Rightarrow> (case json_unmarshal (records_UnmarshalJSON (Some [])) b of
          Inl e \<Rightarrow> \<lparr>Records = Some []\<rparr> | Inr rs \<Rightarrow> \<lparr>Records = rs\<rparr>))"

definition abs_dns :: "keyspace \<Rightarrow> dns_abs" where
  "abs_dns v = \<lparr>owners = owner_of v, holders = holder_of v,
     rrs = (\<lambda>z n. if last z = CHR ''.'' then (\<lambda>t. []) else zone_get (stored_zone v z n))\<rparr>"

text \<open>A store the manager can read: its hashes are hashes, owners and records decode.\<close>

definition readable :: "('a \<Rightarrow> go_error + 'b) \<Rightarrow> ('k \<rightharpoonup> 'a) \<Rightarrow> bool" where
  "readable dec m \<longleftrightarrow> (\<forall>b \<in> ran m. \<exists>x. dec b = Inr x)"

definition wf_dns :: "keyspace \<Rightarrow> bool" where
  "wf_dns v \<longleftrightarrow> hash_key v ''zone'' \<and> hash_key v ''managed_domains'' \<and>
     readable (json_unmarshal dec_ZoneOwner) (hfield v ''zone'') \<and>
     (\<forall>z. hash_key v (z @ ''.'') \<and>
          readable (json_unmarshal (records_UnmarshalJSON (Some []))) (hfield v (z @ ''.'')))"

lemma readable_upd: "readable dec m \<Longrightarrow> dec b = Inr x \<Longrightarrow> readable dec (m(k \<mapsto> b))"
  by (auto simp: readable_def ran_def split: if_splits)

lemma readable_del: "readable dec m \<Longrightarrow> readable dec (m(k := None))"
  by (auto simp: readable_def ran_def split: if_splits)

lemma readableD: "readable dec m \<Longrightarrow> m k = Some b \<Longrightarrow> \<exists>x. dec b = Inr x"
  by (auto simp: readable_def ran_def)

lemma wf_dns_keys:
  "wf_dns v \<Longrightarrow> hash_key v ''zone''" "wf_dns v \<Longrightarrow> hash_key v ''managed_domains''"
  "wf_dns v \<Longrightarrow> hash_key v (z @ ''.'')"
  by (simp_all add: wf_dns_def)

lemma dotted_key [simp]: "z @ ''.'' \<noteq> ''zone''" "z @ ''.'' \<noteq> ''managed_domains''"
  "''zone'' \<noteq> z @ ''.''" "''managed_domains'' \<noteq> z @ ''.''"
proof -
  have "last (z @ ''.'') \<noteq> last ''zone''" "last (z @ ''.'') \<noteq> last ''managed_domains''" by simp_all
  then show "z @ ''.'' \<noteq> ''zone''" "z @ ''.'' \<noteq> ''managed_domains''"
    "''zone'' \<noteq> z @ ''.''" "''managed_domains'' \<noteq> z @ ''.''" by metis+
qed

lemma wf_stored_zone: "wf_zone (stored_zone v z n)"
  using records_read_wf
  by (fastforce simp: stored_zone_def wf_zone_def zone_map_def stored_records_def
      split: option.split sum.split)

text \<open>What each write does to the abstract state.\<close>

lemma wf_dns_set_owner:
  "wf_dns v \<Longrightarrow> wf_dns (ks_hset v ''zone'' z (json_marshal enc_ZoneOwner o1))"
proof -
  have "\<exists>x. json_unmarshal dec_ZoneOwner (json_marshal enc_ZoneOwner o1) = Inr x"
    by (simp add: json_unmarshal_def json_marshal_def parse_print enc_ZoneOwner_def dec_ZoneOwner_def
        get_field_def del: print_json.simps)
  then show "wf_dns v \<Longrightarrow> ?thesis" by (auto simp: wf_dns_def intro: readable_upd)
qed

lemma wf_dns_del_field: "wf_dns v \<Longrightarrow> wf_dns (ks_hdel v k f)"
  unfolding wf_dns_def by (auto simp: readable_del)

lemma wf_dns_set_holder: "wf_dns v \<Longrightarrow> wf_dns (ks_hset v ''managed_domains'' d u)"
  by (simp add: wf_dns_def)

lemma wf_dns_set_records:
  assumes "wf_dns v" "wf_zone zr" "\<exists>m. Records zr = Some m"
  shows "wf_dns (ks_hset v (z @ ''.'') n (json_marshal enc_records (Records zr)))"
proof -
  from assms have "stored_records (Records zr)"
    by (auto simp: stored_records_def wf_zone_def zone_map_def)
  note rec.unmarshal_marshal [OF this]
  with assms(1) show ?thesis by (auto simp: wf_dns_def intro: readable_upd)
qed

lemmas wf_dns_updates = wf_dns_del_field wf_dns_set_holder wf_dns_set_records wf_dns_set_owner

lemma zone_eta [simp]: "\<lparr>Records = Records z\<rparr> = z"
  by (cases z) simp

lemma abs_dns_set_owner:
  "valid_utf8 (Owner o1) \<Longrightarrow>
   abs_dns (ks_hset v ''zone'' z (json_marshal enc_ZoneOwner o1)) = set_owner z (Owner o1) (abs_dns v)"
  by (auto simp: abs_dns_def set_owner_def owner_of_def holder_of_def stored_zone_def fun_eq_iff
      own.unmarshal_marshal)

lemma abs_dns_updates:
  "abs_dns (ks_hset v ''managed_domains'' d u) = set_holder d u (abs_dns v)"
  "abs_dns (ks_hdel v ''managed_domains'' d) = set_holder d [] (abs_dns v)"
  "abs_dns (ks_hdel v ''zone'' z) = set_owner z [] (abs_dns v)"
  by (auto simp: abs_dns_def set_holder_def set_owner_def owner_of_def holder_of_def stored_zone_def fun_eq_iff)

lemma abs_dns_del_records:
  "last z \<noteq> CHR ''.'' \<Longrightarrow> abs_dns (ks_hdel v (z @ ''.'') n) = set_rrs z n (\<lambda>t. []) (abs_dns v)"
  by (auto simp: abs_dns_def set_rrs_def owner_of_def holder_of_def stored_zone_def fun_eq_iff
      zone_get_def zone_map_def gm_slice_def)

lemma abs_dns_set_records:
  assumes "wf_zone zr" "\<exists>m. Records zr = Some m" "last z \<noteq> CHR ''.''"
  shows "abs_dns (ks_hset v (z @ ''.'') n (json_marshal enc_records (Records zr))) =
    set_rrs z n (zone_get zr) (abs_dns v)"
proof -
  from assms have "stored_records (Records zr)"
    by (auto simp: stored_records_def wf_zone_def zone_map_def)
  note rec.unmarshal_marshal [OF this]
  with assms(3) show ?thesis
    by (auto simp: abs_dns_def set_rrs_def owner_of_def holder_of_def stored_zone_def fun_eq_iff)
qed

text \<open>Deleting a key that names no hash of the manager is invisible.\<close>

lemma abs_dns_del_key:
  assumes "last k \<noteq> CHR ''.''" "k \<noteq> ''zone''" "k \<noteq> ''managed_domains''"
  shows "abs_dns (v(k := None)) = abs_dns v" "wf_dns v \<Longrightarrow> wf_dns (v(k := None))"
proof -
  have other: "z @ ''.'' \<noteq> k" for z using assms(1) by (metis last_snoc)
  then have "hfield (v(k := None)) (z @ ''.'') = hfield v (z @ ''.'')" for z by simp
  with assms(2,3) show "abs_dns (v(k := None)) = abs_dns v"
    by (auto simp: abs_dns_def owner_of_def holder_of_def stored_zone_def fun_eq_iff)
  from other assms(2,3) show "wf_dns v \<Longrightarrow> wf_dns (v(k := None))"
    by (auto simp: wf_dns_def hash_key_def)
qed

end
