(* ===== verification/RedisMem.thy ===== *)
theory RedisMem
  imports Redis "HOL-Library.AList"
begin

text \<open>
  Two implementations of the redis parameter. \<open>mem_redis\<close> is an in-memory server whose store is an
  association list; it answers every command. \<open>flaky_redis\<close> is the same server behind a connection
  that follows a script of faults: a request may be lost on its way, or applied with its reply
  lost. They interpret \<open>redis_reliable\<close> and \<open>redis_service\<close>, and the witnesses of the development
  run on them.
\<close>

section \<open>An in-memory server\<close>

datatype mvalue = MString string | MHash "(string \<times> string) list" | MOther other_kind

type_synonym mem = "(string \<times> mvalue) list"

fun value_view :: "mvalue \<Rightarrow> rvalue" where
  "value_view (MString x) = RString x"
| "value_view (MHash h) = RHash (map_of h)"
| "value_view (MOther t) = ROther t"

definition mem_view :: "mem \<Rightarrow> keyspace" where
  "mem_view m k = map_option value_view (map_of m k)"

text \<open>The fields of the hash at a key, or the wrong-type answer.\<close>

definition mem_hash :: "mem \<Rightarrow> string \<Rightarrow> go_error + (string \<times> string) list" where
  "mem_hash m k = (case map_of m k of None \<Rightarrow> Inr [] | Some (MHash h) \<Rightarrow> Inr h | _ \<Rightarrow> Inl wrong_type)"

definition mem_put :: "string \<Rightarrow> (string \<times> string) list \<Rightarrow> mem \<Rightarrow> mem" where
  "mem_put k h m = (if h = [] then AList.delete k m else AList.update k (MHash h) m)"

definition mem_redis :: "mem redis" where
  "mem_redis = \<lparr>
     do_HGET = (\<lambda>k f m. (case mem_hash m k of Inl e \<Rightarrow> Inl e
        | Inr h \<Rightarrow> (case map_of h f of None \<Rightarrow> Inl ErrNil | Some x \<Rightarrow> Inr x), m)),
     do_HSET = (\<lambda>k f x m. case mem_hash m k of Inl e \<Rightarrow> (Inl e, m)
        | Inr h \<Rightarrow> (Inr (), mem_put k (AList.update f x h) m)),
     do_HDEL = (\<lambda>k f m. case mem_hash m k of Inl e \<Rightarrow> (Inl e, m)
        | Inr h \<Rightarrow> (Inr (), if map_of m k = None then m else mem_put k (AList.delete f h) m)),
     do_HEXISTS = (\<lambda>k f m. (case mem_hash m k of Inl e \<Rightarrow> Inl e
        | Inr h \<Rightarrow> Inr (map_of h f \<noteq> None), m)),
     do_HKEYS = (\<lambda>k m. (case mem_hash m k of Inl e \<Rightarrow> Inl e
        | Inr h \<Rightarrow> Inr (remdups (map fst h)), m)),
     do_GET = (\<lambda>k m. (case map_of m k of None \<Rightarrow> Inl ErrNil
        | Some (MString x) \<Rightarrow> Inr x | _ \<Rightarrow> Inl wrong_type, m)),
     do_SET = (\<lambda>k x m. (Inr (), AList.update k (MString x) m)),
     do_DEL = (\<lambda>k m. (Inr (), AList.delete k m)),
     do_KEYS = (\<lambda>pat m. (Inr (filter (glob pat) (remdups (map fst m))), m)),
     do_TYPE = (\<lambda>k m. (Inr (type_name (map_option value_view (map_of m k))), m)) \<rparr>"

lemma mem_view_update [simp]: "mem_view (AList.update k x m) = (mem_view m)(k \<mapsto> value_view x)"
  by (auto simp: mem_view_def update_conv)

lemma mem_view_delete [simp]: "mem_view (AList.delete k m) = (mem_view m)(k := None)"
  by (auto simp: mem_view_def delete_conv)

lemma mem_view_dom: "dom (mem_view m) = fst ` set m"
proof -
  have "dom (mem_view m) = dom (map_of m)"
    by (auto simp: mem_view_def dom_def)
  then show ?thesis by (simp add: dom_map_of_conv_image_fst)
qed

lemma mem_hash_view:
  "mem_hash m k = Inr h \<Longrightarrow> hash_key (mem_view m) k \<and> hfield (mem_view m) k = map_of h"
  "mem_hash m k = Inl e \<Longrightarrow> \<not> hash_key (mem_view m) k \<and> e = wrong_type"
  by (auto simp: mem_hash_def mem_view_def hash_key_def hfield_def split: option.splits mvalue.splits)

lemma mem_hash_dom: "mem_hash m k = Inr h \<Longrightarrow> dom (hfield (mem_view m) k) = fst ` set h"
  using mem_hash_view(1) by (metis dom_map_of_conv_image_fst)

lemma mem_view_put: "mem_view (mem_put k h m) = put_hash (mem_view m) k (map_of h)"
  by (auto simp: mem_put_def put_hash_def)

lemma map_of_update_nonempty: "AList.update f x h \<noteq> []"
  by (cases h) auto

lemma mem_answers_hset:
  assumes "mem_hash m k = Inr h"
  shows "mem_view (mem_put k (AList.update f x h) m) = ks_hset (mem_view m) k f x"
  using mem_hash_view(1) [OF assms] map_of_update_nonempty [of f x h]
  by (simp add: mem_view_put put_hash_def ks_hset_def update_conv')

lemma mem_answers_hdel:
  assumes "mem_hash m k = Inr h"
  shows "mem_view (if map_of m k = None then m else mem_put k (AList.delete f h) m) =
    ks_hdel (mem_view m) k f"
proof (cases "map_of m k")
  case None
  then show ?thesis by (simp add: ks_hdel_def mem_view_def)
next
  case (Some x)
  then have "mem_view m k \<noteq> None" by (simp add: mem_view_def)
  with Some mem_hash_view(1) [OF assms] show ?thesis
    by (auto simp: ks_hdel_def mem_view_put delete_conv')
qed

lemma mem_hget: "answers mem_view (do_HGET mem_redis k f) (cmd_hget k f)"
  by (auto simp: answers_def cmd_hget_def mem_redis_def dest: mem_hash_view split: sum.split option.split)

lemma mem_hset: "answers mem_view (do_HSET mem_redis k f x) (cmd_hset k f x)"
  by (auto simp: answers_def cmd_hset_def mem_redis_def mem_answers_hset dest: mem_hash_view split: sum.split)

lemma mem_hdel: "answers mem_view (do_HDEL mem_redis k f) (cmd_hdel k f)"
  using mem_answers_hdel
  by (auto simp: answers_def cmd_hdel_def mem_redis_def dest: mem_hash_view split: sum.split)

lemma mem_hexists: "answers mem_view (do_HEXISTS mem_redis k f) (cmd_hexists k f)"
  by (auto simp: answers_def cmd_hexists_def mem_redis_def dest: mem_hash_view split: sum.split)

lemma mem_hkeys: "answers mem_view (do_HKEYS mem_redis k) (cmd_hkeys k)"
  by (auto simp: answers_def cmd_hkeys_def mem_redis_def mem_hash_dom
      dest: mem_hash_view split: sum.split)

lemma mem_get: "answers mem_view (do_GET mem_redis k) (cmd_get k)"
  by (auto simp: answers_def cmd_get_def mem_redis_def plain_key_def plain_def mem_view_def
      split: option.split mvalue.split)

lemma mem_set: "answers mem_view (do_SET mem_redis k x) (cmd_set k x)"
  by (simp add: answers_def cmd_set_def mem_redis_def)

lemma mem_del: "answers mem_view (do_DEL mem_redis k) (cmd_del k)"
  by (simp add: answers_def cmd_del_def mem_redis_def)

lemma mem_keys: "answers mem_view (do_KEYS mem_redis pat) (cmd_keys pat)"
  by (auto simp: answers_def cmd_keys_def mem_redis_def mem_view_dom)

lemma mem_type: "answers mem_view (do_TYPE mem_redis k) (cmd_type k)"
  by (simp add: answers_def cmd_type_def mem_redis_def mem_view_def)

lemmas mem_answers = mem_hget mem_hset mem_hdel mem_hexists mem_hkeys mem_get mem_set mem_del mem_keys mem_type

interpretation mem: redis_reliable mem_redis mem_view
  by unfold_locales (rule mem_answers mem_answers [THEN answers_serves])+

section \<open>A connection that fails\<close>

datatype fault = Fine | LoseRequest | LoseReply

type_synonym flaky = "fault list \<times> mem"

definition lost :: go_error where
  "lost = Extern ''connection reset by peer''"

definition faulty :: "(mem, 'a) go \<Rightarrow> (flaky, 'a) go" where
  "faulty m st = (case st of (fs, d) \<Rightarrow>
     (case fs of
        [] \<Rightarrow> (case m d of (r, d') \<Rightarrow> (r, ([], d')))
      | Fine # fs' \<Rightarrow> (case m d of (r, d') \<Rightarrow> (r, (fs', d')))
      | LoseRequest # fs' \<Rightarrow> (Inl lost, (fs', d))
      | LoseReply # fs' \<Rightarrow> (Inl lost, (fs', snd (m d)))))"

definition flaky_view :: "flaky \<Rightarrow> keyspace" where
  "flaky_view st = mem_view (snd st)"

definition flaky_redis :: "flaky redis" where
  "flaky_redis = \<lparr>
     do_HGET = (\<lambda>k f. faulty (do_HGET mem_redis k f)),
     do_HSET = (\<lambda>k f x. faulty (do_HSET mem_redis k f x)),
     do_HDEL = (\<lambda>k f. faulty (do_HDEL mem_redis k f)),
     do_HEXISTS = (\<lambda>k f. faulty (do_HEXISTS mem_redis k f)),
     do_HKEYS = (\<lambda>k. faulty (do_HKEYS mem_redis k)),
     do_GET = (\<lambda>k. faulty (do_GET mem_redis k)),
     do_SET = (\<lambda>k x. faulty (do_SET mem_redis k x)),
     do_DEL = (\<lambda>k. faulty (do_DEL mem_redis k)),
     do_KEYS = (\<lambda>pat. faulty (do_KEYS mem_redis pat)),
     do_TYPE = (\<lambda>k. faulty (do_TYPE mem_redis k)) \<rparr>"

lemma faulty_serves:
  assumes "answers mem_view m c"
  shows "serves flaky_view (faulty m) c"
  unfolding serves_def
proof
  fix st :: flaky
  obtain fs d where st: "st = (fs, d)" by force
  obtain r d' where run: "m d = (r, d')" by force
  have "case m d of (r, s') \<Rightarrow> c (mem_view d) r (mem_view s')"
    using assms by (simp add: answers_def)
  with run have "c (mem_view d) r (mem_view d')" by simp
  with run show "case faulty m st of (r, s') \<Rightarrow> c (flaky_view st) r (flaky_view s') \<or>
      (\<exists>t. r = Inl (Extern t)) \<and>
      (flaky_view s' = flaky_view st \<or> (\<exists>r0. c (flaky_view st) r0 (flaky_view s')))"
    by (auto simp: st faulty_def flaky_view_def lost_def split: list.split fault.split)
qed

interpretation flaky: redis_service flaky_redis flaky_view
  by unfold_locales (simp_all add: flaky_redis_def faulty_serves mem_answers)

end
