(* ===== verification/DnsRefine.thy ===== *)
theory DnsRefine
  imports DnsSpec RedisMem
begin

text \<open>
  The DNS manager implements its specification: on a server that answers every call and a store
  the manager can read, each operation has the outcome of its specification, leaves the abstract
  state the specification gives and keeps the store readable. The rules of the helpers are stated
  inside the contract of the server; the operations' refinements follow from them, and the
  instances on the in-memory server run the program.
\<close>

section \<open>Adding and removing many records\<close>

lemma zone_map_get: "zone_get z t = gm_slice (zone_map z) t"
  by (simp add: zone_get_def)

lemma foldl_Zone_Add:
  assumes "wf_zone z"
  shows "wf_zone (foldl (\<lambda>z ip. Zone_Add z (recordFromIP ip)) z IPs)"
    and "zone_get (foldl (\<lambda>z ip. Zone_Add z (recordFromIP ip)) z IPs) =
      (\<lambda>t. zone_get z t @ of_type t (ip_records IPs))"
  using assms
  by (induction IPs arbitrary: z)
    (auto simp: wf_zone_Add zone_get_Add of_type_def ip_records_def fun_eq_iff)

lemma foldl_Zone_Remove:
  assumes "wf_zone z"
  shows "wf_zone (foldl (\<lambda>z ip. Zone_Remove z (recordFromIP ip)) z IPs)"
    and "zone_get (foldl (\<lambda>z ip. Zone_Remove z (recordFromIP ip)) z IPs) =
      (\<lambda>t. filter (\<lambda>x. x \<notin> Some ` set (ip_records IPs)) (zone_get z t))"
proof -
  have typed: "Some r \<in> set (zone_get z t) \<Longrightarrow> Record_Type r = t" if "wf_zone z" for z r t
    using wf_slice [of "zone_map z" t] that
    by (auto simp: wf_zone_def zone_get_def list_all_iff)
  have "wf_zone (foldl (\<lambda>z ip. Zone_Remove z (recordFromIP ip)) z IPs) \<and>
    zone_get (foldl (\<lambda>z ip. Zone_Remove z (recordFromIP ip)) z IPs) =
      (\<lambda>t. filter (\<lambda>x. x \<notin> Some ` set (ip_records IPs)) (zone_get z t))"
    using assms
  proof (induction IPs arbitrary: z)
    case Nil
    then show ?case by (simp add: ip_records_def)
  next
    case (Cons ip IPs)
    let ?r = "recordFromIP ip"
    have step: "zone_get (Zone_Remove z ?r) t = filter (\<lambda>x. x \<noteq> Some ?r) (zone_get z t)" for t
      using Cons.prems typed [OF Cons.prems, of ?r t]
      by (auto simp: zone_get_Remove intro!: filter_True [symmetric])
    have "wf_zone (Zone_Remove z ?r)" using Cons.prems by (rule wf_zone_Remove)
    from Cons.IH [OF this] show ?case
      by (auto simp: step ip_records_def fun_eq_iff intro!: filter_cong)
  qed
  then show "wf_zone (foldl (\<lambda>z ip. Zone_Remove z (recordFromIP ip)) z IPs)"
    and "zone_get (foldl (\<lambda>z ip. Zone_Remove z (recordFromIP ip)) z IPs) =
      (\<lambda>t. filter (\<lambda>x. x \<notin> Some ` set (ip_records IPs)) (zone_get z t))"
    by simp_all
qed

lemma Records_Some:
  "\<exists>m. Records (stored_zone v z n) = Some m"
  "\<exists>m. Records z' = Some m \<Longrightarrow> \<exists>m. Records (foldl (\<lambda>z ip. Zone_Add z (recordFromIP ip)) z' IPs) = Some m"
  "\<exists>m. Records z' = Some m \<Longrightarrow> \<exists>m. Records (foldl (\<lambda>z ip. Zone_Remove z (recordFromIP ip)) z' IPs) = Some m"
  "\<exists>m. Records (Zone_Add z1 r) = Some m"
proof -
  show "\<exists>m. Records (stored_zone v z n) = Some m"
    by (auto simp: stored_zone_def stored_records_def dest!: records_read_wf
        split: option.splits sum.split)
  show "\<exists>m. Records (Zone_Add z1 r) = Some m" for z1 r
    by (simp add: Zone_Add_def Let_def)
  then show "\<exists>m. Records z' = Some m \<Longrightarrow> \<exists>m. Records (foldl (\<lambda>z ip. Zone_Add z (recordFromIP ip)) z' IPs) = Some m"
    by (induction IPs arbitrary: z') simp_all
  have "\<exists>m. Records (Zone_Remove z1 r) = Some m" for z1 r
    by (auto simp: Zone_Remove_def Let_def split: option.split)
  then show "\<exists>m. Records z' = Some m \<Longrightarrow> \<exists>m. Records (foldl (\<lambda>z ip. Zone_Remove z (recordFromIP ip)) z' IPs) = Some m"
    by (induction IPs arbitrary: z') simp_all
qed

lemma abs_dns_simps:
  "owners (abs_dns v) = owner_of v" "holders (abs_dns v) = holder_of v"
  "last z \<noteq> CHR ''.'' \<Longrightarrow> rrs (abs_dns v) z n = zone_get (stored_zone v z n)"
  by (simp_all add: abs_dns_def)

text \<open>What it means that a call implements an operation of the specification.\<close>

definition implements ::
    "('s \<Rightarrow> keyspace) \<Rightarrow> (dns_abs \<Rightarrow> dns_outcome \<times> dns_abs) \<Rightarrow> 's \<Rightarrow> go_error + unit \<Rightarrow> 's \<Rightarrow> bool" where
  "implements view spec s r s' \<longleftrightarrow>
     wf_dns (view s') \<and> spec (abs_dns (view s)) = (outcome r, abs_dns (view s'))"

lemmas implements_defs = implements_def abs_dns_simps outcome_def wrap_err_def

lemma stored_zone_other [simp]:
  "stored_zone (ks_hset v ''managed_domains'' d u) z n = stored_zone v z n"
  by (simp add: stored_zone_def)

lemma set_rrs_holder: "set_rrs z n f (set_holder d u a) = set_holder d u (set_rrs z n f a)"
  by (simp add: set_rrs_def set_holder_def)

lemma zone_None [simp]: "wf_zone \<lparr>Records = None\<rparr>" "zone_get \<lparr>Records = None\<rparr> t = []"
  by (simp_all add: wf_zone_def zone_map_def zone_get_def gm_slice_def)

section \<open>The helpers on a reliable server\<close>

context redis_reliable
begin

lemma up_getZoneOwner:
  assumes "dns_redis c = rd" "wf_dns (view s)" "last z \<noteq> CHR ''.''"
    and "\<And>s'. view s' = view s \<Longrightarrow> Q (Inr \<lparr>Owner = owner_of (view s) z\<rparr>) s'"
  shows "wpM (getZoneOwner c z) Q s"
proof -
  have "json_unmarshal dec_ZoneOwner b = Inr \<lparr>Owner = owner_of (view s) z\<rparr>"
    if b: "hfield (view s) ''zone'' z = Some b" for b
  proof -
    obtain o1 where o1: "json_unmarshal dec_ZoneOwner b = Inr o1"
      using assms(2) b unfolding wf_dns_def by (blast dest: readableD)
    with b have "owner_of (view s) z = Owner o1" by (simp add: owner_of_def)
    then show ?thesis using o1 by (cases o1) simp
  qed
  moreover have "owner_of (view s) z = []" if "hfield (view s) ''zone'' z = None"
    using that by (simp add: owner_of_def)
  ultimately show ?thesis
    using assms(3,4) wf_dns_keys(1) [OF assms(2)]
    by (cases "hfield (view s) ''zone'' z")
      (auto simp: getZoneOwner_def Let_def wp assms(1) intro!: up_HGET)
qed

lemma up_getZoneRecords:
  assumes "dns_redis c = rd" "wf_dns (view s)" "z \<noteq> []" "last z \<noteq> CHR ''.''"
    and "\<And>s'. view s' = view s \<Longrightarrow> Q (Inr (stored_zone (view s) z n)) s'"
  shows "wpM (getZoneRecords c z n) Q s"
proof -
  have "\<exists>rs. json_unmarshal (records_UnmarshalJSON (Some [])) b = Inr rs \<and>
      stored_zone (view s) z n = \<lparr>Records = rs\<rparr>"
    if b: "hfield (view s) (z @ ''.'') n = Some b" for b
  proof -
    obtain rs where "json_unmarshal (records_UnmarshalJSON (Some [])) b = Inr rs"
      using assms(2) b unfolding wf_dns_def by (blast dest: readableD)
    with b show ?thesis by (simp add: stored_zone_def)
  qed
  moreover have "stored_zone (view s) z n = \<lparr>Records = Some []\<rparr>" if "hfield (view s) (z @ ''.'') n = None"
    using that by (simp add: stored_zone_def)
  ultimately show ?thesis
    using assms(3-5) wf_dns_keys(3) [OF assms(2), of z]
    by (cases "hfield (view s) (z @ ''.'') n")
      (auto simp: getZoneRecords_def wp assms(1) intro!: up_HGET)
qed

lemma up_getSubdomainOwner:
  assumes "dns_redis c = rd" "wf_dns (view s)"
    and "\<And>s'. view s' = view s \<Longrightarrow> Q (Inr (holder_of (view s) d)) s'"
  shows "wpM (getSubdomainOwner c d) Q s"
  using assms(3) wf_dns_keys(2) [OF assms(2)]
  by (cases "hfield (view s) ''managed_domains'' d")
    (auto simp: getSubdomainOwner_def wp assms(1) holder_of_def intro!: up_HGET)

lemma up_setZoneRecords:
  assumes "dns_redis c = rd" "wf_dns (view s)" "z \<noteq> []" "last z \<noteq> CHR ''.''"
    and "wf_zone zr" "\<exists>m. Records zr = Some m"
    and "\<And>s'. wf_dns (view s') \<Longrightarrow> abs_dns (view s') = set_rrs z n (zone_get zr) (abs_dns (view s)) \<Longrightarrow>
      Q (Inr ()) s'"
  shows "wpM (setZoneRecords c z n zr) Q s"
  using assms(2-4) wf_dns_set_records [OF assms(2,5,6)] abs_dns_set_records [OF assms(5,6,4)]
  by (auto simp: setZoneRecords_def wp assms(1) wf_dns_keys intro!: up_HSET assms(7))

lemma up_deleteZoneRecords:
  assumes "dns_redis c = rd" "wf_dns (view s)" "z \<noteq> []" "last z \<noteq> CHR ''.''"
    and "\<And>s'. wf_dns (view s') \<Longrightarrow> abs_dns (view s') = set_rrs z n (\<lambda>t. []) (abs_dns (view s)) \<Longrightarrow>
      Q (Inr ()) s'"
  shows "wpM (deleteZoneRecords c z n) Q s"
  using assms(2-4)
  by (auto simp: deleteZoneRecords_def wp assms(1) wf_dns_keys abs_dns_del_records wf_dns_updates
      intro!: up_HDEL assms(5))

lemma up_setSubdomainOwner:
  assumes "dns_redis c = rd" "wf_dns (view s)"
    and "\<And>s'. wf_dns (view s') \<Longrightarrow> view s' = ks_hset (view s) ''managed_domains'' d u \<Longrightarrow>
      abs_dns (view s') = set_holder d u (abs_dns (view s)) \<Longrightarrow> Q (Inr ()) s'"
  shows "wpM (setSubdomainOwner c d u) Q s"
  using assms(2)
  by (auto simp: setSubdomainOwner_def assms(1) wf_dns_keys abs_dns_updates wf_dns_updates
      intro!: up_HSET assms(3))

lemma up_deleteSubdomainOwner:
  assumes "dns_redis c = rd" "wf_dns (view s)"
    and "\<And>s'. wf_dns (view s') \<Longrightarrow> abs_dns (view s') = set_holder d [] (abs_dns (view s)) \<Longrightarrow> Q (Inr ()) s'"
  shows "wpM (deleteSubdomainOwner c d) Q s"
  using assms(2)
  by (auto simp: deleteSubdomainOwner_def assms(1) wf_dns_keys abs_dns_updates wf_dns_updates
      intro!: up_HDEL assms(3))

lemma up_setZoneOwner:
  assumes "dns_redis c = rd" "wf_dns (view s)" "valid_utf8 (Owner o1)"
    and "\<And>s'. wf_dns (view s') \<Longrightarrow> abs_dns (view s') = set_owner z (Owner o1) (abs_dns (view s)) \<Longrightarrow>
      Q (Inr ()) s'"
  shows "wpM (setZoneOwner c z o1) Q s"
  using assms(2,3)
  by (auto simp: setZoneOwner_def assms(1) wf_dns_keys abs_dns_set_owner wf_dns_updates
      intro!: up_HSET assms(4))

lemmas dns_up = up_getZoneOwner up_getSubdomainOwner up_getZoneRecords up_setZoneRecords
  up_deleteZoneRecords up_setSubdomainOwner up_deleteSubdomainOwner up_setZoneOwner

section \<open>The operations\<close>

lemma up_checked:
  assumes "wf_dns (view s)"
    and "validateDomain isDNSName d = None \<Longrightarrow> wpM m (implements view spec s) s"
  shows "wpM (bindM (check_domain isDNSName d) (\<lambda>_. m)) (implements view (spec_checked isDNSName d spec) s) s"
proof (cases "validateDomain isDNSName d")
  case None
  have "implements view (spec_checked isDNSName d spec) s = implements view spec s"
    by (simp add: implements_def spec_checked_def None fun_eq_iff)
  with assms(2) [OF None] show ?thesis by (simp add: wp None)
next
  case (Some e)
  with assms(1) validateDomain_plain [OF Some] show ?thesis
    by (auto simp: wp implements_def spec_checked_def outcome_def)
qed

lemma AddSubdomain_implements:
  assumes c: "dns_redis c = rd" and wf: "wf_dns (view s)"
  shows "wpM (AddSubdomain isDNSName c user d IPs)
    (implements view (spec_checked isDNSName d (spec_add (dns_identity c) user d IPs)) s) s"
  unfolding AddSubdomain_def
proof (rule up_checked [OF wf], goal_cases)
  case 1
  obtain n z where nz: "splitDomain d = (n, z)" by force
  note z = splitDomain_zone [OF 1 nz]
  show ?case
    using wf z
    by (auto simp: nz wp Let_def spec_add_def implements_defs foldl_Zone_Add wf_stored_zone Records_Some
        intro!: dns_up c)
qed

lemma RemoveSubdomain_implements:
  assumes c: "dns_redis c = rd" and wf: "wf_dns (view s)"
  shows "wpM (RemoveSubdomain isDNSName c user d IPs)
    (implements view (spec_checked isDNSName d (spec_remove user d IPs)) s) s"
  unfolding RemoveSubdomain_def
proof (rule up_checked [OF wf], goal_cases)
  case 1
  obtain n z where nz: "splitDomain d = (n, z)" by force
  note z = splitDomain_zone [OF 1 nz]
  let ?zr = "stored_zone (view s) z n"
  let ?zr' = "foldl (\<lambda>z ip. Zone_Remove z (recordFromIP ip)) ?zr IPs"
  have empty: "records_IsEmpty (Records ?zr) \<longleftrightarrow> (\<forall>t. zone_get ?zr t = [])"
    "records_IsEmpty (Records ?zr') \<longleftrightarrow> (\<forall>t. zone_get ?zr' t = [])"
    by (simp_all add: zone_empty_iff wf_stored_zone foldl_Zone_Remove)
  show ?case
    using wf z
    by (auto simp: nz wp Let_def spec_remove_def implements_defs foldl_Zone_Remove wf_stored_zone Records_Some
        empty set_rrs_holder intro!: dns_up c)
qed

lemma AddDomainDelagate_implements:
  assumes c: "dns_redis c = rd" and wf: "wf_dns (view s)" and user: "valid_utf8 user"
  shows "wpM (AddDomainDelagate isDNSName c identity user d)
    (implements view (spec_checked isDNSName d (spec_delegate identity user d)) s) s"
  unfolding AddDomainDelagate_def
proof (rule up_checked [OF wf], goal_cases)
  case 1
  note d = validateDomain_None [OF 1]
  let ?zr = "Zone_Add \<lparr>Records = None\<rparr> (owner_record identity user)"
  have zr: "wf_zone ?zr" "Records ?zr \<noteq> None"
    "zone_get ?zr = (\<lambda>t. of_type t [owner_record identity user])"
    by (simp_all add: wf_zone_Add Records_Some zone_get_Add of_type_def fun_eq_iff)
  show ?case
    using wf d user zr
    by (auto simp: wp Let_def setZoneOwnerTXTRecord_def spec_delegate_def implements_defs intro!: dns_up c)
qed

lemma RemoveDomainDelagate_implements:
  assumes c: "dns_redis c = rd" and wf: "wf_dns (view s)"
  shows "wpM (RemoveDomainDelagate isDNSName c user d)
    (implements view (spec_checked isDNSName d (code_undelegate user d)) s) s"
  unfolding RemoveDomainDelagate_def
proof (rule up_checked [OF wf], goal_cases)
  case 1
  note d = validateDomain_None [OF 1]
  then have keys: "d \<noteq> ''zone''" "d \<noteq> ''managed_domains''" by auto
  show ?case
    using wf d keys
    by (auto simp: wp Let_def code_undelegate_def implements_defs c wf_dns_updates wf_dns_keys
        abs_dns_updates abs_dns_del_key intro!: dns_up wp_up)
qed

text \<open>The keys it touches.\<close>

lemma RemoveDomainDelagate_keys:
  assumes c: "dns_redis c = rd" and wf: "wf_dns (view s)"
  shows "wpM (RemoveDomainDelagate isDNSName c user d) (\<lambda>r s'.
    view s' = (if validateDomain isDNSName d = None \<and> owner_of (view s) d \<in> {[], user}
      then ks_hdel ((view s)(d := None)) ''zone'' d else view s)) s"
proof (cases "validateDomain isDNSName d")
  case None
  note d = validateDomain_None [OF None]
  then have keys: "d \<noteq> ''zone''" "d \<noteq> ''managed_domains''" by auto
  have "hash_key ((view s)(d := None)) ''zone''"
    using wf_dns_keys(1) [OF wf] keys(1) by (simp add: hash_key_def)
  then show ?thesis
    unfolding RemoveDomainDelagate_def
    using wf d keys by (auto simp: wp None Let_def c intro!: dns_up wp_up)
next
  case (Some e)
  then show ?thesis by (auto simp: RemoveDomainDelagate_def wp)
qed

end

end
