(* ===== verification/DnsCleanup.thy ===== *)
theory DnsCleanup
  imports DnsRefine
begin

text \<open>
  The clean-up of the CoreDNS configuration. Whatever calls fail, it deletes nothing but junk: the
  empty values and the empty objects of the hashes whose key ends with a dot. When no call fails it
  deletes all of them, and the abstract state does not change.
\<close>

definition junk :: "string \<Rightarrow> bool" where
  "junk x \<longleftrightarrow> length x = 0 \<or> x = ''{}''"

definition zone_key :: "string \<Rightarrow> bool" where
  "zone_key k \<longleftrightarrow> k \<noteq> [] \<and> last k = CHR ''.''"

text \<open>The second keyspace is the first without some junk of the zones; without all of it.\<close>

definition only_junk_gone :: "keyspace \<Rightarrow> keyspace \<Rightarrow> bool" where
  "only_junk_gone v v' \<longleftrightarrow>
     (\<forall>k. \<not> zone_key k \<or> \<not> hash_key v k \<longrightarrow> v' k = v k) \<and>
     (\<forall>k f. hfield v' k f = hfield v k f \<or>
            hfield v' k f = None \<and> (\<exists>x. hfield v k f = Some x \<and> junk x)) \<and>
     (\<forall>k. hash_key v k \<longrightarrow> hash_key v' k)"

definition swept :: "(string \<rightharpoonup> string) \<Rightarrow> (string \<rightharpoonup> string)" where
  "swept h f = (case h f of None \<Rightarrow> None | Some x \<Rightarrow> if junk x then None else Some x)"

lemma junk_iff: "x = [] \<or> x = ''{}'' \<longleftrightarrow> junk x"
  by (simp add: junk_def)

lemma only_junk_gone_refl: "only_junk_gone v v"
  by (simp add: only_junk_gone_def)

lemma only_junk_gone_del:
  assumes "only_junk_gone v0 v" "zone_key k" "\<exists>x. hfield v k f = Some x \<and> junk x"
  shows "only_junk_gone v0 (ks_hdel v k f)"
proof -
  have junk: "\<exists>y. hfield v0 k f = Some y \<and> junk y"
    using assms(1,3) unfolding only_junk_gone_def by (metis option.distinct(1))
  then have "hash_key v0 k"
    by (auto simp: hfield_def hash_key_def split: option.splits rvalue.splits)
  then have "k' \<noteq> k" if "\<not> zone_key k' \<or> \<not> hash_key v0 k'" for k' using assms(2) that by auto
  with junk show ?thesis
    using assms(1) by (simp add: only_junk_gone_def)
qed

lemma KEYS_zone_key: "glob ''*.'' k \<longleftrightarrow> zone_key k"
  by (simp add: glob_star_dot zone_key_def)

section \<open>Under faults\<close>

context redis_service
begin

lemma wp_clean_key:
  assumes "dns_redis c = rd" "zone_key z" "only_junk_gone v0 (view s)"
  shows "wpM (clean_key c z f) (\<lambda>r s'. only_junk_gone v0 (view s')) s"
  using assms(2,3)
  by (auto simp: clean_key_def wp assms(1) junk_iff intro!: wp_HGET wp_HDEL only_junk_gone_del)

lemma wp_cleanUp:
  assumes "dns_redis c = rd" "zone_key z" "only_junk_gone v0 (view s)"
  shows "wpM (cleanUp c z) (\<lambda>r s'. only_junk_gone v0 (view s')) s"
  unfolding cleanUp_def
  using assms(2,3)
  by (auto simp: wp assms(1) intro!: wp_HKEYS wpM_forM [where I = "\<lambda>s. only_junk_gone v0 (view s)"]
      wp_clean_key)

lemma wp_keep_hashes:
  assumes "dns_redis c = rd" "\<forall>k \<in> set ks. zone_key k" "view s = v"
  shows "wpM (keep_hashes c ks) (\<lambda>r s'. view s' = v \<and> (\<forall>x. r = Inr x \<longrightarrow> (\<forall>k \<in> set x. zone_key k))) s"
  using assms(2,3)
proof (induction ks arbitrary: s)
  case (Cons k ks)
  have rest: "wpM (keep_hashes c ks) Q s'"
    if "view s' = v" and "\<And>r s'. view s' = v \<Longrightarrow> \<forall>x. r = Inr x \<longrightarrow> (\<forall>k \<in> set x. zone_key k) \<Longrightarrow> Q r s'"
    for s' Q
    using Cons.prems that by (intro wpM_mono [OF Cons.IH]) auto
  show ?case
    using Cons.prems
    by (auto simp: wp assms(1) intro!: wp_TYPE rest split: sum.split)
qed simp

lemma wp_Cleanup:
  assumes "dns_redis c = rd"
  shows "wpM (Cleanup c) (\<lambda>r s'. only_junk_gone (view s) (view s')) s"
proof -
  let ?v = "view s"
  have each: "wpM (forM zs (\<lambda>z. ignoreM (cleanUp c z))) (\<lambda>r s'. only_junk_gone ?v (view s')) s'"
    if "\<forall>z \<in> set zs. zone_key z" "view s' = ?v" for zs s'
    using that
    by (intro wpM_forM [where I = "\<lambda>s. only_junk_gone ?v (view s)"])
      (auto simp: wp only_junk_gone_refl intro!: wp_cleanUp assms)
  show ?thesis
    unfolding Cleanup_def listCorednsZones_def
    by (auto simp: wp assms only_junk_gone_refl KEYS_zone_key intro!: wp_KEYS each
        wpM_mono [OF wp_keep_hashes [OF assms]] split: sum.split)
qed

end

section \<open>On a reliable server\<close>

text \<open>One zone: all of its junk goes, the rest of the keyspace stays.\<close>

definition zone_swept :: "string \<Rightarrow> keyspace \<Rightarrow> keyspace \<Rightarrow> bool" where
  "zone_swept z v v' \<longleftrightarrow>
     hfield v' z = swept (hfield v z) \<and> (\<forall>k. k \<noteq> z \<longrightarrow> v' k = v k) \<and> hash_key v' z"

text \<open>A set of zones.\<close>

definition zones_swept :: "string set \<Rightarrow> keyspace \<Rightarrow> keyspace \<Rightarrow> bool" where
  "zones_swept zs v v' \<longleftrightarrow>
     (\<forall>k. if k \<in> zs then hfield v' k = swept (hfield v k) \<and> hash_key v' k else v' k = v k)"

definition swept_on :: "string list \<Rightarrow> (string \<rightharpoonup> string) \<Rightarrow> (string \<rightharpoonup> string)" where
  "swept_on fs h f = (if f \<in> set fs then swept h f else h f)"

lemma swept_on_Cons: "swept_on (f # fs) h = swept_on fs (h(f := swept h f))"
  by (auto simp: swept_on_def swept_def fun_eq_iff split: option.splits)

lemma swept_on_dom: "set fs = dom h \<Longrightarrow> swept_on fs h = swept h"
  by (auto simp: swept_on_def swept_def fun_eq_iff split: option.splits)

lemma swept_Nil [simp]: "swept Map.empty = Map.empty"
  by (simp add: swept_def fun_eq_iff)

context redis_reliable
begin

lemma up_clean_key:
  assumes "dns_redis c = rd" "hash_key (view s) z"
  shows "wpM (clean_key c z f) (\<lambda>r s'. r = Inr () \<and>
    hfield (view s') z = (hfield (view s) z)(f := swept (hfield (view s) z) f) \<and>
    (\<forall>k. k \<noteq> z \<longrightarrow> view s' k = view s k) \<and> hash_key (view s') z) s"
  using assms(2)
  by (cases "hfield (view s) z f")
    (auto simp: clean_key_def wp assms(1) junk_iff swept_def fun_upd_idem intro!: up_HGET up_HDEL)

lemma up_clean_keys:
  assumes "dns_redis c = rd" "hash_key (view s) z"
  shows "wpM (forM fs (clean_key c z)) (\<lambda>r s'. r = Inr () \<and>
    hfield (view s') z = swept_on fs (hfield (view s) z) \<and>
    (\<forall>k. k \<noteq> z \<longrightarrow> view s' k = view s k) \<and> hash_key (view s') z) s"
  using assms(2)
proof (induction fs arbitrary: s)
  case Nil
  then show ?case by (simp add: swept_on_def fun_eq_iff)
next
  case (Cons f fs)
  show ?case
    unfolding forM.simps wpM_bindM
    by (rule wpM_mono [OF up_clean_key [OF assms(1) Cons.prems]])
      (auto simp: swept_on_Cons fun_upd_def intro!: wpM_mono [OF Cons.IH])
qed

lemma up_cleanUp:
  assumes "dns_redis c = rd" "hash_key (view s) z"
  shows "wpM (cleanUp c z) (\<lambda>r s'. r = Inr () \<and> zone_swept z (view s) (view s')) s"
  unfolding cleanUp_def
  using assms(2)
  by (auto simp: wp assms(1) zone_swept_def swept_on_dom intro!: up_HKEYS
      wpM_mono [OF up_clean_keys [OF assms(1)]])

lemma up_keep_hashes:
  assumes "dns_redis c = rd"
  shows "view s = v \<Longrightarrow> wpM (keep_hashes c ks) (\<lambda>r s'. view s' = v \<and>
    r = Inr (filter (\<lambda>k. type_name (v k) = ''hash'') ks)) s"
proof (induction ks arbitrary: s)
  case (Cons k ks)
  then show ?case
    by (auto simp: wp assms intro!: up_TYPE wpM_mono [OF Cons.IH])
qed simp

lemma up_cleanUps:
  assumes "dns_redis c = rd" "distinct zs" "\<forall>z \<in> set zs. hash_key (view s) z"
  shows "wpM (forM zs (\<lambda>z. ignoreM (cleanUp c z)))
    (\<lambda>r s'. r = Inr () \<and> zones_swept (set zs) (view s) (view s')) s"
  using assms(2,3)
proof (induction zs arbitrary: s)
  case Nil
  then show ?case by (simp add: zones_swept_def)
next
  case (Cons z zs)
  have hash: "\<forall>k \<in> set zs. hash_key (view s1) k" if "zone_swept z (view s) (view s1)" for s1
    using that Cons.prems by (auto simp: zone_swept_def hash_key_def)
  have "zones_swept (set (z # zs)) (view s) (view s2)"
    if "zone_swept z (view s) (view s1)" "zones_swept (set zs) (view s1) (view s2)" for s1 s2
  proof -
    have "hfield (view s1) k = hfield (view s) k" if "k \<in> set zs" for k
      using \<open>zone_swept z (view s) (view s1)\<close> that Cons.prems(1) hash_cong [of "view s1" k "view s"]
      unfolding zone_swept_def by (metis distinct.simps(2))
    moreover have "hfield (view s2) z = hfield (view s1) z \<and> hash_key (view s2) z = hash_key (view s1) z"
      using that(2) Cons.prems(1) by (intro hash_cong) (simp add: zones_swept_def)
    ultimately show ?thesis
      using that Cons.prems(1) unfolding zones_swept_def zone_swept_def by auto
  qed
  then show ?case
    unfolding forM.simps wpM_bindM wpM_ignoreM using Cons.prems
    by (intro wpM_mono [OF up_cleanUp [OF assms(1)]])
      (auto intro!: wpM_mono [OF Cons.IH] hash)
qed

lemma up_Cleanup:
  assumes c: "dns_redis c = rd"
  shows "wpM (Cleanup c)
    (\<lambda>r s'. r = Inr () \<and> zones_swept {k. zone_key k \<and> (\<exists>h. view s k = Some (RHash h))} (view s) (view s')) s"
proof -
  have hash: "view s k = Some (RHash h) \<Longrightarrow> hash_key (view s) k" for k h
    by (simp add: hash_key_def)
  have zones: "set ks = {k \<in> dom (view s). zone_key k} \<Longrightarrow>
      set (filter (\<lambda>k. \<exists>h. view s k = Some (RHash h)) ks) = {k. zone_key k \<and> (\<exists>h. view s k = Some (RHash h))}" for ks
    by auto
  show ?thesis
    unfolding Cleanup_def listCorednsZones_def
    by (auto simp: wp c KEYS_zone_key zones hash simp del: set_filter
        intro!: up_KEYS wpM_mono [OF up_keep_hashes [OF c refl]] wpM_mono [OF up_cleanUps [OF c]])
qed

end

section \<open>Sweeping a readable store\<close>

lemma read_empty_object:
  "json_unmarshal (records_UnmarshalJSON (Some [])) ''{}'' = Inr (Some [])"
  "json_unmarshal (records_UnmarshalJSON (Some [])) [] = Inl json_error"
  by code_simp+

lemma readable_swept: "readable dec h \<Longrightarrow> readable dec (swept h)"
  by (fastforce simp: readable_def ran_def swept_def split: option.splits if_splits)

lemma zones_swept_hfield:
  "zones_swept {k. zone_key k \<and> (\<exists>h. v k = Some (RHash h))} v v' \<Longrightarrow>
   hfield v' k = (if zone_key k then swept (hfield v k) else hfield v k) \<and> (hash_key v k \<longrightarrow> hash_key v' k)"
  unfolding zones_swept_def
  by (drule spec [of _ k])
    (auto simp: hfield_def hash_key_def split: if_splits option.splits rvalue.splits)

lemma zone_key_dot [simp]: "zone_key (z @ ''.'')" "\<not> zone_key ''zone''" "\<not> zone_key ''managed_domains''"
  by (simp_all add: zone_key_def)

lemma zones_swept_wf:
  assumes "zones_swept {k. zone_key k \<and> (\<exists>h. v k = Some (RHash h))} v v'" and "wf_dns v"
  shows "wf_dns v'"
  using zones_swept_hfield [OF assms(1)] assms(2)
  by (auto simp: wf_dns_def readable_swept)

lemma stored_zone_swept:
  assumes "readable (json_unmarshal (records_UnmarshalJSON (Some []))) (hfield v (z @ ''.''))"
    and "hfield v' (z @ ''.'') = swept (hfield v (z @ ''.''))"
  shows "stored_zone v' z n = stored_zone v z n"
proof (cases "hfield v (z @ ''.'') n")
  case (Some b)
  with assms(1) have "b \<noteq> []"
    using readableD [OF assms(1) Some] read_empty_object(2) by auto
  with Some assms(2) show ?thesis
    by (auto simp: stored_zone_def swept_def junk_def read_empty_object)
qed (use assms(2) in \<open>simp add: stored_zone_def swept_def\<close>)

lemma zones_swept_abs:
  assumes "zones_swept {k. zone_key k \<and> (\<exists>h. v k = Some (RHash h))} v v'" and "wf_dns v"
  shows "abs_dns v' = abs_dns v"
proof -
  have "stored_zone v' z n = stored_zone v z n" for z n
    using assms zones_swept_hfield [OF assms(1), of "z @ ''.''"]
    by (intro stored_zone_swept) (auto simp: wf_dns_def)
  with zones_swept_hfield [OF assms(1), of "''zone''"] zones_swept_hfield [OF assms(1), of "''managed_domains''"]
  show ?thesis
    by (auto simp: abs_dns_def owner_of_def holder_of_def fun_eq_iff)
qed

end
