(* ===== verification/DnsFaults.thy ===== *)
theory DnsFaults
  imports DnsCleanup
begin

text \<open>
  The DNS manager on a redis connection that may fail at any call, with the request lost or
  applied. The rules here say what each helper may have done; from them follow that no operation
  panics and that one user's operations leave another user's sub-domain and delegated domain
  alone, along any sequence of operations.
\<close>

section \<open>The helpers under faults\<close>

text \<open>What a successful read of a zone's owner has found.\<close>

definition owner_read :: "keyspace \<Rightarrow> string \<Rightarrow> ZoneOwner \<Rightarrow> bool" where
  "owner_read v z o1 \<longleftrightarrow>
     (case hfield v ''zone'' z of None \<Rightarrow> Owner o1 = []
      | Some b \<Rightarrow> json_unmarshal dec_ZoneOwner b = Inr o1)"

lemma owner_read_of: "owner_read v z o1 \<Longrightarrow> Owner o1 = owner_of v z"
  by (auto simp: owner_read_def owner_of_def split: option.splits)

lemma read_zone_error_no_panic [simp]: "\<not> is_panic (read_zone_error z e)"
  by (simp add: read_zone_error_def)

context redis_service
begin

lemma wp_getZoneOwner:
  assumes "dns_redis c = rd" "last z \<noteq> CHR ''.''"
    and "\<And>o1 s'. view s' = view s \<Longrightarrow> owner_read (view s) z o1 \<Longrightarrow> Q (Inr o1) s'"
    and "\<And>e s'. view s' = view s \<Longrightarrow> \<not> is_panic e \<Longrightarrow> Q (Inl e) s'"
  shows "wpM (getZoneOwner c z) Q s"
proof -
  have lift: "Q (json_unmarshal dec_ZoneOwner b) s'"
    if "view s' = view s" "hfield (view s) ''zone'' z = Some b" for b s'
    by (cases "json_unmarshal dec_ZoneOwner b")
      (use that in \<open>auto intro!: assms(3,4) simp: owner_read_def json_unmarshal_no_panic\<close>)
  show ?thesis
    using assms(2)
    by (auto simp: getZoneOwner_def wp assms(1) owner_read_def intro!: wp_HGET lift assms(3,4))
qed

lemma wp_getSubdomainOwner:
  assumes "dns_redis c = rd"
    and "\<And>s'. view s' = view s \<Longrightarrow> Q (Inr (holder_of (view s) d)) s'"
    and "\<And>e s'. view s' = view s \<Longrightarrow> \<not> is_panic e \<Longrightarrow> Q (Inl e) s'"
  shows "wpM (getSubdomainOwner c d) Q s"
  using assms(2)
  by (auto simp: getSubdomainOwner_def wp assms(1) holder_of_def intro!: wp_HGET assms(3))

lemma wp_getZoneRecords:
  assumes "dns_redis c = rd" "z \<noteq> []" "last z \<noteq> CHR ''.''"
    and "\<And>zr s'. view s' = view s \<Longrightarrow> Q (Inr zr) s'"
    and "\<And>e s'. view s' = view s \<Longrightarrow> \<not> is_panic e \<Longrightarrow> Q (Inl e) s'"
  shows "wpM (getZoneRecords c z n) Q s"
  using assms(2,3)
  by (auto simp: getZoneRecords_def wp assms(1) json_unmarshal_no_panic intro!: wp_HGET assms(4,5)
      split: sum.split)

lemma wp_setZoneRecords:
  assumes "dns_redis c = rd" "z \<noteq> []" "last z \<noteq> CHR ''.''"
    and "\<And>r s'. view s' = view s \<or> view s' = ks_hset (view s) (z @ ''.'') n (json_marshal enc_records (Records zr)) \<Longrightarrow>
      (\<forall>e. r = Inl e \<longrightarrow> \<not> is_panic e) \<Longrightarrow> Q r s'"
  shows "wpM (setZoneRecords c z n zr) Q s"
  using assms(2,3)
  by (auto simp: setZoneRecords_def wp assms(1) intro!: wp_HSET assms(4))

lemma wp_deleteZoneRecords:
  assumes "dns_redis c = rd" "z \<noteq> []" "last z \<noteq> CHR ''.''"
    and "\<And>r s'. view s' = view s \<or> view s' = ks_hdel (view s) (z @ ''.'') n \<Longrightarrow>
      (\<forall>e. r = Inl e \<longrightarrow> \<not> is_panic e) \<Longrightarrow> Q r s'"
  shows "wpM (deleteZoneRecords c z n) Q s"
  using assms(2,3)
  by (auto simp: deleteZoneRecords_def wp assms(1) intro!: wp_HDEL assms(4))

lemma wp_setSubdomainOwner:
  assumes "dns_redis c = rd"
    and "\<And>r s'. view s' = view s \<or> view s' = ks_hset (view s) ''managed_domains'' d u \<Longrightarrow>
      (\<forall>e. r = Inl e \<longrightarrow> \<not> is_panic e) \<Longrightarrow> Q r s'"
  shows "wpM (setSubdomainOwner c d u) Q s"
  by (auto simp: setSubdomainOwner_def assms(1) intro!: wp_HSET assms(2))

lemma wp_deleteSubdomainOwner:
  assumes "dns_redis c = rd"
    and "\<And>r s'. view s' = view s \<or> view s' = ks_hdel (view s) ''managed_domains'' d \<Longrightarrow>
      (\<forall>e. r = Inl e \<longrightarrow> \<not> is_panic e) \<Longrightarrow> Q r s'"
  shows "wpM (deleteSubdomainOwner c d) Q s"
  by (auto simp: deleteSubdomainOwner_def assms(1) intro!: wp_HDEL assms(2))

lemma wp_setZoneOwner:
  assumes "dns_redis c = rd"
    and "\<And>r s'. view s' = view s \<or> view s' = ks_hset (view s) ''zone'' z (json_marshal enc_ZoneOwner o1) \<Longrightarrow>
      (\<forall>e. r = Inl e \<longrightarrow> \<not> is_panic e) \<Longrightarrow> Q r s'"
  shows "wpM (setZoneOwner c z o1) Q s"
  by (auto simp: setZoneOwner_def assms(1) intro!: wp_HSET assms(2))

lemmas dns_wp = wp_getZoneOwner wp_getSubdomainOwner wp_getZoneRecords wp_setZoneRecords
  wp_deleteZoneRecords wp_setSubdomainOwner wp_deleteSubdomainOwner wp_setZoneOwner

end

section \<open>What an operation may write\<close>

text \<open>A property of the keyspace that survives the writes of an operation survives the operation,
  whichever calls fail; and the operation does not panic.\<close>

lemma safe_check_domain:
  assumes "validateDomain isDNSName d = None \<Longrightarrow> safe_call view P m"
  shows "safe_call view P (bindM (check_domain isDNSName d) (\<lambda>_. m))"
  using assms validateDomain_plain [of isDNSName d]
  by (cases "validateDomain isDNSName d") (auto simp: safe_call_def wp)

context redis_service
begin

lemma safe_helpers:
  assumes c: "dns_redis c = rd"
  shows "safe_call view P (getSubdomainOwner c d)"
    and "last z \<noteq> CHR ''.'' \<Longrightarrow> safe_call view P (getZoneOwner c z)"
    and "z \<noteq> [] \<Longrightarrow> last z \<noteq> CHR ''.'' \<Longrightarrow> safe_call view P (getZoneRecords c z n)"
    and "z \<noteq> [] \<Longrightarrow> last z \<noteq> CHR ''.'' \<Longrightarrow> (\<And>v b. P v \<Longrightarrow> P (ks_hset v (z @ ''.'') n b)) \<Longrightarrow>
      safe_call view P (setZoneRecords c z n zr)"
    and "z \<noteq> [] \<Longrightarrow> last z \<noteq> CHR ''.'' \<Longrightarrow> (\<And>v. P v \<Longrightarrow> P (ks_hdel v (z @ ''.'') n)) \<Longrightarrow>
      safe_call view P (deleteZoneRecords c z n)"
    and "(\<And>v. P v \<Longrightarrow> P (ks_hset v ''managed_domains'' d u)) \<Longrightarrow> safe_call view P (setSubdomainOwner c d u)"
    and "(\<And>v. P v \<Longrightarrow> P (ks_hdel v ''managed_domains'' d)) \<Longrightarrow> safe_call view P (deleteSubdomainOwner c d)"
    and "(\<And>v b. P v \<Longrightarrow> P (ks_hset v ''zone'' z b)) \<Longrightarrow> safe_call view P (setZoneOwner c z o1)"
  unfolding safe_call_def
  by (auto intro!: dns_wp c)

lemma safe_AddSubdomain:
  assumes c: "dns_redis c = rd" and nz: "splitDomain d = (n, z)"
    and writes: "\<And>v. P v \<Longrightarrow> P (ks_hset v ''managed_domains'' d u)"
      "\<And>v. P v \<Longrightarrow> P (ks_hdel v ''managed_domains'' d)"
      "\<And>v b. P v \<Longrightarrow> P (ks_hset v (z @ ''.'') n b)"
  shows "safe_call view P (AddSubdomain isDNSName c u d IPs)"
  unfolding AddSubdomain_def
proof (rule safe_check_domain, goal_cases)
  case 1
  note z = splitDomain_zone [OF 1 nz]
  show ?case
    unfolding nz Let_def prod.case
    by (intro safe_rules safe_helpers c z(1,2) writes is_panic_simps read_zone_error_no_panic)
qed

lemma safe_RemoveSubdomain:
  assumes c: "dns_redis c = rd" and nz: "splitDomain d = (n, z)"
    and writes: "\<And>v. P v \<Longrightarrow> P (ks_hdel v ''managed_domains'' d)"
      "\<And>v b. P v \<Longrightarrow> P (ks_hset v (z @ ''.'') n b)"
      "\<And>v. P v \<Longrightarrow> P (ks_hdel v (z @ ''.'') n)"
  shows "safe_call view P (RemoveSubdomain isDNSName c u d IPs)"
  unfolding RemoveSubdomain_def
proof (rule safe_check_domain, goal_cases)
  case 1
  note z = splitDomain_zone [OF 1 nz]
  show ?case
    unfolding nz Let_def prod.case
    by (intro safe_rules safe_helpers c z(1,2) writes is_panic_simps read_zone_error_no_panic)
qed

lemma safe_AddDomainDelagate:
  assumes c: "dns_redis c = rd"
    and writes: "\<And>v b. P v \<Longrightarrow> P (ks_hset v ''zone'' d b)"
      "\<And>v b. P v \<Longrightarrow> P (ks_hset v (d @ ''.'') ''__owner__'' b)"
  shows "safe_call view P (AddDomainDelagate isDNSName c identity u d)"
  unfolding AddDomainDelagate_def
proof (rule safe_check_domain, goal_cases)
  case 1
  note d = validateDomain_None [OF 1]
  show ?case
    unfolding setZoneOwnerTXTRecord_def
    by (intro safe_rules safe_helpers c d(2,3) writes is_panic_simps)
qed

lemma safe_RemoveDomainDelagate:
  assumes c: "dns_redis c = rd"
    and writes: "\<And>v. P v \<Longrightarrow> P (v(d := None))" "\<And>v. P v \<Longrightarrow> P (ks_hdel v ''zone'' d)"
  shows "safe_call view P (RemoveDomainDelagate isDNSName c u d)"
  unfolding RemoveDomainDelagate_def
proof (rule safe_check_domain, goal_cases)
  case 1
  note d = validateDomain_None [OF 1]
  show ?case
    unfolding c by (intro safe_rules safe_helpers safe_calls c d(2,3) writes is_panic_simps)
qed

lemma no_panic_Cleanup:
  assumes c: "dns_redis c = rd"
  shows "safe_call view (\<lambda>v. True) (Cleanup c)"
proof -
  have key: "safe_call view (\<lambda>v. True) (clean_key c z k)" for z k
    unfolding clean_key_def c
    by (rule safe_handle, rule safe_calls)
      (auto intro!: safe_return safe_ignore safe_calls split: sum.split)
  have zone: "safe_call view (\<lambda>v. True) (cleanUp c z)" for z
    unfolding cleanUp_def
    by (intro safe_rules key is_panic_simps) (simp add: c safe_calls)
  have hashes: "safe_call view (\<lambda>v. True) (keep_hashes c zs)" for zs
    by (induction zs) (auto simp: c intro!: safe_rules safe_calls)
  show ?thesis
    unfolding Cleanup_def listCorednsZones_def
    by (intro safe_rules zone hashes is_panic_simps) (simp add: c safe_calls)
qed

lemma safe_Cleanup:
  assumes c: "dns_redis c = rd" and P: "\<And>v v'. P v \<Longrightarrow> only_junk_gone v v' \<Longrightarrow> P v'"
  shows "safe_call view P (Cleanup c)"
  unfolding safe_call_def
proof (intro allI impI wpM_I)
  fix s r s' assume "P (view s)" and run: "Cleanup c s = (r, s')"
  from no_panic_Cleanup [OF c] have "\<forall>t. r \<noteq> Inl (Panic t)"
    using run by (blast dest: safe_callD [where P = "\<lambda>v. True"])
  moreover have "P (view s')"
    using \<open>P (view s)\<close> wpM_D [OF wp_Cleanup [OF c] run] by (rule P)
  ultimately show "P (view s') \<and> (\<forall>e. r = Inl e \<longrightarrow> \<not> is_panic e)"
    by (auto simp: is_panic_def split: go_error.splits)
qed

end

section \<open>Failed reservations\<close>

context redis_reliable
begin

text \<open>A sub-domain whose reservation fails: nothing was written, or the marker was written and
  removed again.\<close>

lemma AddSubdomain_fails:
  assumes c: "dns_redis c = rd" and nz: "splitDomain d = (n, z)"
    and keys: "hash_key (view s) ''managed_domains''" "hash_key (view s) (z @ ''.'')"
  shows "wpM (AddSubdomain isDNSName c user d IPs) (\<lambda>r s'. \<forall>e. r = Inl e \<longrightarrow>
      view s' = view s \<or>
      (owner_of (view s) z = dns_identity c \<longrightarrow> holder_of (view s) d = []) \<and>
      view s' = ks_hdel (ks_hset (view s) ''managed_domains'' d user) ''managed_domains'' d) s"
proof (cases "validateDomain isDNSName d")
  case None
  note z = splitDomain_zone [OF None nz]
  show ?thesis
    using None z keys
    by (auto simp: AddSubdomain_def wp Let_def nz c setSubdomainOwner_def deleteSubdomainOwner_def
        setZoneRecords_def owner_read_of
        intro!: wp_getZoneOwner wp_getSubdomainOwner wp_getZoneRecords up_HSET up_HDEL)
qed (simp add: AddSubdomain_def wp)

end

end
