(* ===== verification/DnsIsolation.thy ===== *)
theory DnsIsolation
  imports DnsFaults
begin

text \<open>
  Isolation of tenants in the DNS component. A user who holds a sub-domain, or owns a delegated
  domain, keeps it, with its records, whatever the other users and the gateway's clean-up do and
  whichever redis calls fail. The steps of the component are a relation on keyspaces; the reachable
  keyspaces are closed under them, and the two invariants follow by rule induction.
\<close>

section \<open>Operations as values\<close>

datatype dns_op =
    OpAddSubdomain string string "IP list"
  | OpRemoveSubdomain string string "IP list"
  | OpAddDelegate string string string
  | OpRemoveDelegate string string
  | OpCleanup

fun run_dns :: "(string \<Rightarrow> bool) \<Rightarrow> 's dns_Mgr \<Rightarrow> dns_op \<Rightarrow> ('s, unit) go" where
  "run_dns isDNSName c (OpAddSubdomain u d IPs) = AddSubdomain isDNSName c u d IPs"
| "run_dns isDNSName c (OpRemoveSubdomain u d IPs) = RemoveSubdomain isDNSName c u d IPs"
| "run_dns isDNSName c (OpAddDelegate i u d) = AddDomainDelagate isDNSName c i u d"
| "run_dns isDNSName c (OpRemoveDelegate u d) = RemoveDomainDelagate isDNSName c u d"
| "run_dns isDNSName c OpCleanup = Cleanup c"

text \<open>On whose behalf an operation runs; the clean-up is the gateway's own.\<close>

fun op_user :: "dns_op \<Rightarrow> string option" where
  "op_user (OpAddSubdomain u d IPs) = Some u"
| "op_user (OpRemoveSubdomain u d IPs) = Some u"
| "op_user (OpAddDelegate i u d) = Some u"
| "op_user (OpRemoveDelegate u d) = Some u"
| "op_user OpCleanup = None"

section \<open>What a user holds\<close>

text \<open>User \<open>u\<close> holds sub-domain \<open>d\<close>, whose zone is owned by \<open>u\<close> or by the gateway, with the
  given stored records.\<close>

definition holds_subdomain :: "string \<Rightarrow> string \<Rightarrow> string \<Rightarrow> string option \<Rightarrow> keyspace \<Rightarrow> bool" where
  "holds_subdomain identity u d x v \<longleftrightarrow>
     (case splitDomain d of (n, z) \<Rightarrow>
        owner_of v z \<noteq> [] \<and> owner_of v z \<in> {u, identity} \<and>
        hfield v ''managed_domains'' d = Some u \<and> hfield v (z @ ''.'') n = x)"

lemma owner_of_updates [simp]:
  "owner_of (ks_hset v ''managed_domains'' d u) z = owner_of v z"
  "owner_of (ks_hdel v ''managed_domains'' d) z = owner_of v z"
  "owner_of (ks_hset v (k @ ''.'') f b) z = owner_of v z"
  "owner_of (ks_hdel v (k @ ''.'') f) z = owner_of v z"
  "z' \<noteq> z \<Longrightarrow> owner_of (ks_hset v ''zone'' z' b) z = owner_of v z"
  "z' \<noteq> z \<Longrightarrow> owner_of (ks_hdel v ''zone'' z') z = owner_of v z"
  "k' \<noteq> ''zone'' \<Longrightarrow> owner_of (v(k' := y)) z = owner_of v z"
  by (simp_all add: owner_of_def)

text \<open>The writes that leave a held sub-domain alone.\<close>

lemma holds_other_writes:
  assumes "splitDomain d = (n, z)"
  shows "d' \<noteq> d \<Longrightarrow> holds_subdomain identity u d x v \<Longrightarrow>
      holds_subdomain identity u d x (ks_hset v ''managed_domains'' d' w)"
    and "d' \<noteq> d \<Longrightarrow> holds_subdomain identity u d x v \<Longrightarrow>
      holds_subdomain identity u d x (ks_hdel v ''managed_domains'' d')"
    and "(n', z') \<noteq> (n, z) \<Longrightarrow> holds_subdomain identity u d x v \<Longrightarrow>
      holds_subdomain identity u d x (ks_hset v (z' @ ''.'') n' b)"
    and "(n', z') \<noteq> (n, z) \<Longrightarrow> holds_subdomain identity u d x v \<Longrightarrow>
      holds_subdomain identity u d x (ks_hdel v (z' @ ''.'') n')"
    and "z' \<noteq> z \<Longrightarrow> holds_subdomain identity u d x v \<Longrightarrow>
      holds_subdomain identity u d x (ks_hset v ''zone'' z' b)"
    and "z' \<noteq> z \<Longrightarrow> holds_subdomain identity u d x v \<Longrightarrow>
      holds_subdomain identity u d x (ks_hdel v ''zone'' z')"
  using assms by (auto simp: holds_subdomain_def)

lemma holds_del_key:
  assumes "last k \<noteq> CHR ''.''" "k \<noteq> ''zone''" "k \<noteq> ''managed_domains''"
  shows "holds_subdomain identity u d x v \<Longrightarrow> holds_subdomain identity u d x (v(k := None))"
proof -
  have "z @ ''.'' \<noteq> k" for z using assms(1) by (metis last_snoc)
  with assms(2,3) show "holds_subdomain identity u d x v \<Longrightarrow> ?thesis"
    by (auto simp: holds_subdomain_def)
qed

lemma holds_junk_gone:
  assumes "holds_subdomain identity u d x v" "only_junk_gone v v'" "\<forall>y. x = Some y \<longrightarrow> \<not> junk y"
  shows "holds_subdomain identity u d x v'"
proof -
  have "v' ''zone'' = v ''zone''" "v' ''managed_domains'' = v ''managed_domains''"
    using assms(2) by (simp_all add: only_junk_gone_def zone_key_def)
  then have keys: "hfield v' ''zone'' = hfield v ''zone''"
    "hfield v' ''managed_domains'' = hfield v ''managed_domains''"
    by (simp_all add: hfield_def)
  have "hfield v' k f = hfield v k f" if "\<forall>y. hfield v k f = Some y \<longrightarrow> \<not> junk y" for k f
    using assms(2) that unfolding only_junk_gone_def by blast
  with assms(1,3) keys show ?thesis
    by (auto simp: holds_subdomain_def owner_of_def)
qed

section \<open>One operation of another user\<close>

context redis_service
begin

text \<open>\<open>u\<close> holds \<open>d\<close>; another user \<open>w\<close> runs an operation.\<close>

lemma foreign_AddSubdomain:
  assumes c: "dns_redis c = rd" and d: "splitDomain d = (n, z)" "n \<noteq> []" "u \<noteq> []"
    and w: "w \<noteq> u" "w \<noteq> dns_identity c"
  shows "safe_call view (holds_subdomain (dns_identity c) u d x) (AddSubdomain isDNSName c w d' IPs)"
proof (cases "d' = d")
  case True
  show ?thesis
    unfolding True AddSubdomain_def
  proof (rule safe_check_domain, goal_cases)
    case 1
    note z = splitDomain_zone [OF 1 d(1)]
    show ?case
      unfolding safe_call_def
    proof (intro allI impI, goal_cases)
      case (1 s)
      note held = 1
      with d have own: "owner_of (view s) z \<noteq> []" "owner_of (view s) z \<in> {u, dns_identity c}"
        "holder_of (view s) d = u"
        by (auto simp: holds_subdomain_def holder_of_def)
      show ?case
        using own z d w held
        by (auto simp: wp Let_def owner_read_of intro!: dns_wp c)
    qed
  qed
next
  case False
  obtain n' z' where nz: "splitDomain d' = (n', z')" by force
  with False d have "(n', z') \<noteq> (n, z)" using splitDomain_inject by metis
  with False show ?thesis
    by (intro safe_AddSubdomain [OF c nz] holds_other_writes [OF d(1)])
qed

lemma foreign_RemoveSubdomain:
  assumes c: "dns_redis c = rd" and d: "splitDomain d = (n, z)" "n \<noteq> []" "u \<noteq> []"
    and w: "w \<noteq> u"
  shows "safe_call view (holds_subdomain (dns_identity c) u d x) (RemoveSubdomain isDNSName c w d' IPs)"
proof (cases "d' = d")
  case True
  show ?thesis
    unfolding True RemoveSubdomain_def
  proof (rule safe_check_domain, goal_cases)
    case 1
    note z = splitDomain_zone [OF 1 d(1)]
    show ?case
      unfolding safe_call_def
    proof (intro allI impI, goal_cases)
      case (1 s)
      note held = 1
      with d have own: "owner_of (view s) z \<noteq> []" "holder_of (view s) d = u"
        by (auto simp: holds_subdomain_def holder_of_def)
      show ?case
        using own z d w held
        by (auto simp: wp Let_def owner_read_of intro!: dns_wp c)
    qed
  qed
next
  case False
  obtain n' z' where nz: "splitDomain d' = (n', z')" by force
  with False d have "(n', z') \<noteq> (n, z)" using splitDomain_inject by metis
  with False show ?thesis
    by (intro safe_RemoveSubdomain [OF c nz] holds_other_writes [OF d(1)])
qed

text \<open>The domains another user can delegate or give up are not the zone of the sub-domain.\<close>

lemma foreign_AddDomainDelagate:
  assumes c: "dns_redis c = rd" and d: "splitDomain d = (n, z)" and w: "w \<notin> {u, dns_identity c}"
  shows "safe_call view (holds_subdomain (dns_identity c) u d x) (AddDomainDelagate isDNSName c i w d')"
proof (cases "d' = z")
  case True
  show ?thesis
    unfolding True AddDomainDelagate_def
  proof (rule safe_check_domain, goal_cases)
    case 1
    note z = validateDomain_None [OF 1]
    show ?case
      unfolding safe_call_def
    proof (intro allI impI, goal_cases)
      case (1 s)
      with d have own: "owner_of (view s) z \<noteq> []" "owner_of (view s) z \<in> {u, dns_identity c}"
        by (auto simp: holds_subdomain_def)
      with 1 w z show ?case
        by (auto simp: wp Let_def owner_read_of intro!: dns_wp c)
    qed
  qed
next
  case False
  then show ?thesis
    by (intro safe_AddDomainDelagate [OF c] holds_other_writes [OF d]) simp_all
qed

lemma foreign_RemoveDomainDelagate:
  assumes c: "dns_redis c = rd" and d: "splitDomain d = (n, z)" and w: "w \<notin> {u, dns_identity c}"
  shows "safe_call view (holds_subdomain (dns_identity c) u d x) (RemoveDomainDelagate isDNSName c w d')"
  unfolding RemoveDomainDelagate_def
proof (rule safe_check_domain, goal_cases)
  case 1
  note d' = validateDomain_None [OF 1]
  then have keys: "last d' \<noteq> CHR ''.''" "d' \<noteq> ''zone''" "d' \<noteq> ''managed_domains''" by auto
  show ?case
  proof (cases "d' = z")
    case True
    show ?thesis
      unfolding safe_call_def
    proof (intro allI impI, goal_cases)
      case (1 s)
      with d have own: "owner_of (view s) z \<noteq> []" "owner_of (view s) z \<in> {u, dns_identity c}"
        by (auto simp: holds_subdomain_def)
      with 1 w keys True show ?case
        by (auto simp: wp Let_def owner_read_of intro!: dns_wp c)
    qed
  next
    case False
    then show ?thesis
      unfolding c
      by (intro safe_rules safe_helpers safe_calls c keys holds_del_key holds_other_writes [OF d] is_panic_simps)
        auto
  qed
qed

lemma foreign_Cleanup:
  assumes c: "dns_redis c = rd" and x: "\<forall>y. x = Some y \<longrightarrow> \<not> junk y"
  shows "safe_call view (holds_subdomain i u d x) (Cleanup c)"
  by (rule safe_Cleanup [OF c], rule holds_junk_gone, assumption+, rule x)

text \<open>The owner of a domain changes by its own operations only.\<close>

lemma owner_denied:
  assumes c: "dns_redis c = rd" and w: "u \<noteq> []" "w \<noteq> u"
  shows "safe_call view (\<lambda>v. owner_of v z = u) (AddDomainDelagate isDNSName c i w z)"
    and "safe_call view (\<lambda>v. owner_of v z = u) (RemoveDomainDelagate isDNSName c w z)"
  unfolding AddDomainDelagate_def RemoveDomainDelagate_def
proof (rule_tac [!] safe_check_domain, goal_cases)
  case 1
  note z = validateDomain_None [OF 1]
  show ?case
    unfolding safe_call_def using w z
    by (auto simp: wp Let_def owner_read_of intro!: dns_wp c)
next
  case 2
  note z = validateDomain_None [OF 2]
  show ?case
    unfolding safe_call_def using w z
    by (auto simp: wp Let_def owner_read_of intro!: dns_wp c)
qed

lemma foreign_owner:
  assumes c: "dns_redis c = rd" and u: "u \<noteq> []" and w: "op_user op1 \<noteq> Some u"
  shows "safe_call view (\<lambda>v. owner_of v z = u) (run_dns isDNSName c op1)"
proof (cases op1)
  case (OpAddSubdomain w d IPs)
  obtain n' z' where nz: "splitDomain d = (n', z')" by force
  show ?thesis unfolding OpAddSubdomain run_dns.simps
    by (rule safe_AddSubdomain [OF c nz]) simp_all
next
  case (OpRemoveSubdomain w d IPs)
  obtain n' z' where nz: "splitDomain d = (n', z')" by force
  show ?thesis unfolding OpRemoveSubdomain run_dns.simps
    by (rule safe_RemoveSubdomain [OF c nz]) simp_all
next
  case (OpAddDelegate i w d)
  with w have "w \<noteq> u" by simp
  then show ?thesis unfolding OpAddDelegate run_dns.simps
    by (cases "d = z") (auto intro!: owner_denied [OF c u] safe_AddDomainDelagate [OF c])
next
  case (OpRemoveDelegate w d)
  with w have "w \<noteq> u" by simp
  have "safe_call view (\<lambda>v. owner_of v z = u) (RemoveDomainDelagate isDNSName c w d)" if "d \<noteq> z"
    unfolding RemoveDomainDelagate_def
  proof (rule safe_check_domain, goal_cases)
    case 1
    note d = validateDomain_None [OF 1]
    then have "d \<noteq> ''zone''" by auto
    with that d show ?case
      unfolding c by (intro safe_rules safe_helpers safe_calls c is_panic_simps) auto
  qed
  with \<open>w \<noteq> u\<close> show ?thesis unfolding OpRemoveDelegate run_dns.simps
    by (cases "d = z") (auto intro!: owner_denied [OF c u])
next
  case OpCleanup
  have "hfield v' ''zone'' = hfield v ''zone''" if "only_junk_gone v v'" for v v'
    using that by (simp add: only_junk_gone_def zone_key_def hfield_def)
  then show ?thesis unfolding OpCleanup run_dns.simps
    by (intro safe_Cleanup [OF c]) (simp add: owner_of_def)
qed

lemma foreign_subdomain:
  assumes c: "dns_redis c = rd" and d: "splitDomain d = (n, z)" "n \<noteq> []" "u \<noteq> []"
    and x: "\<forall>y. x = Some y \<longrightarrow> \<not> junk y" and w: "op_user op1 \<notin> {Some u, Some (dns_identity c)}"
  shows "safe_call view (holds_subdomain (dns_identity c) u d x) (run_dns isDNSName c op1)"
  using w x
  by (cases op1) (auto intro: foreign_AddSubdomain [OF c d] foreign_RemoveSubdomain [OF c d]
      foreign_AddDomainDelagate [OF c d(1)] foreign_RemoveDomainDelagate [OF c d(1)] foreign_Cleanup [OF c])

text \<open>No operation panics.\<close>

lemma safe_run:
  assumes c: "dns_redis c = rd"
  shows "safe_call view (\<lambda>v. True) (run_dns isDNSName c op1)"
proof (cases op1)
  case (OpAddSubdomain w d IPs)
  obtain n z where "splitDomain d = (n, z)" by force
  from safe_AddSubdomain [OF c this] show ?thesis by (simp add: OpAddSubdomain)
next
  case (OpRemoveSubdomain w d IPs)
  obtain n z where "splitDomain d = (n, z)" by force
  from safe_RemoveSubdomain [OF c this] show ?thesis by (simp add: OpRemoveSubdomain)
qed (simp_all add: safe_AddDomainDelagate [OF c] safe_RemoveDomainDelagate [OF c] safe_Cleanup [OF c])

end

section \<open>Reachable states\<close>

text \<open>The states reached from a state by operations that are allowed; the server's own choices are
  in the state.\<close>

inductive dns_reach ::
    "(string \<Rightarrow> bool) \<Rightarrow> 's dns_Mgr \<Rightarrow> (dns_op \<Rightarrow> bool) \<Rightarrow> 's \<Rightarrow> 's \<Rightarrow> bool"
  for isDNSName c allowed s where
  start: "dns_reach isDNSName c allowed s s"
| step: "dns_reach isDNSName c allowed s s' \<Longrightarrow> allowed op1 \<Longrightarrow> run_dns isDNSName c op1 s' = (r, s'') \<Longrightarrow>
    dns_reach isDNSName c allowed s s''"

lemma dns_reach_invariant:
  assumes "dns_reach isDNSName c allowed s s'" and "P (view s)"
    and "\<And>op1. allowed op1 \<Longrightarrow> safe_call view P (run_dns isDNSName c op1)"
  shows "P (view s')"
  using assms by induction (blast dest: safe_callD)+

end
