(* ===== verification/DnsProps.thy ===== *)
theory DnsProps
  imports DnsIsolation
begin

text \<open>
  The properties of the DNS component, over the definitions of Dns and DnsZone, with a run of the
  program on the in-memory server for each property that has hypotheses.
\<close>

section \<open>A store to run the program on\<close>

text \<open>Zone \<open>b.c\<close> is delegated to user 7; zone \<open>gw.net\<close> is managed by the gateway.\<close>

definition demo_mgr :: "mem dns_Mgr" where
  "demo_mgr = dns_New mem_redis ''gw''"

definition demo_store :: mem where
  "demo_store = [(''zone'', MHash [(''b.c'', json_marshal enc_ZoneOwner \<lparr>Owner = ''7''\<rparr>),
     (''gw.net'', json_marshal enc_ZoneOwner \<lparr>Owner = ''gw''\<rparr>)])]"

definition demo_ip :: IP where
  "demo_ip = IPv4 (CHR 0x0A) (CHR 0x00) (CHR 0x00) (CHR 0x01)"

lemma demo_simps [simp]: "dns_redis demo_mgr = mem_redis" "dns_identity demo_mgr = ''gw''"
  by (simp_all add: demo_mgr_def dns_New_def)

lemma demo_reliable: "redis_reliable (dns_redis demo_mgr) mem_view"
  by (simp add: mem.redis_reliable_axioms)

lemma ascii_valid_simps [simp]: "ascii s \<Longrightarrow> valid_utf8 s"
  by (rule ascii_valid)

lemma demo_owner [simp]:
  "json_unmarshal dec_ZoneOwner (json_marshal enc_ZoneOwner \<lparr>Owner = ''7''\<rparr>) = Inr \<lparr>Owner = ''7''\<rparr>"
  "json_unmarshal dec_ZoneOwner (json_marshal enc_ZoneOwner \<lparr>Owner = ''gw''\<rparr>) = Inr \<lparr>Owner = ''gw''\<rparr>"
  by (simp_all add: own.unmarshal_marshal ascii_def)

lemma demo_zone [simp]:
  "hfield (mem_view demo_store) ''zone'' =
     [''b.c'' \<mapsto> json_marshal enc_ZoneOwner \<lparr>Owner = ''7''\<rparr>,
      ''gw.net'' \<mapsto> json_marshal enc_ZoneOwner \<lparr>Owner = ''gw''\<rparr>]"
  by (auto simp: demo_store_def mem_view_def hfield_def fun_eq_iff)

lemma demo_other [simp]:
  "k \<noteq> ''zone'' \<Longrightarrow> hfield (mem_view demo_store) k = Map.empty" "hash_key (mem_view demo_store) k"
  by (auto simp: demo_store_def mem_view_def hfield_def hash_key_def)

lemma demo_wf [simp]: "wf_dns (mem_view demo_store)"
  by (auto simp: wf_dns_def readable_def ran_def split: if_splits)

section \<open>Isolation\<close>

text \<open>
  A user who holds a sub-domain keeps it, with its records, along any sequence of DNS
  operations of other users and clean-ups, whatever redis calls fail on the way.
\<close>

theorem subdomain_isolated:
  assumes "redis_service (dns_redis c) view"
    and "splitDomain d = (n, z)" "n \<noteq> []" "u \<noteq> []"
    and "holds_subdomain (dns_identity c) u d x (view s)" "\<forall>y. x = Some y \<longrightarrow> \<not> junk y"
    and "dns_reach isDNSName c (\<lambda>op1. op_user op1 \<notin> {Some u, Some (dns_identity c)}) s s'"
  shows "holds_subdomain (dns_identity c) u d x (view s')"
  using assms(7,5)
  by (rule dns_reach_invariant)
    (rule redis_service.foreign_subdomain [OF assms(1) refl assms(2-4,6)])

text \<open>User 7 holds \<open>a.b.c\<close>; user 8 tries to remove it while the connection loses a reply.\<close>

definition held_store :: mem where
  "held_store = AList.update ''managed_domains'' (MHash [(''a.b.c'', ''7'')]) demo_store"

lemma held_holds: "holds_subdomain ''gw'' ''7'' ''a.b.c'' None (mem_view held_store)"
  by (simp add: holds_subdomain_def splitDomain_def held_store_def owner_of_def)
    (simp add: hfield_def)

lemma subdomain_isolated_witness:
  "holds_subdomain ''gw'' ''7'' ''a.b.c'' None
     (flaky_view (snd (run_dns (\<lambda>d. True) (dns_New flaky_redis ''gw'')
       (OpRemoveSubdomain ''8'' ''a.b.c'' [demo_ip]) ([Fine, LoseReply], held_store))))"
proof -
  let ?c = "dns_New flaky_redis ''gw''" and ?op = "OpRemoveSubdomain ''8'' ''a.b.c'' [demo_ip]"
  have c: "dns_redis ?c = flaky_redis" "dns_identity ?c = ''gw''" by (simp_all add: dns_New_def)
  have reach: "dns_reach (\<lambda>d. True) ?c (\<lambda>op1. op_user op1 \<notin> {Some ''7'', Some (dns_identity ?c)})
      ([Fine, LoseReply], held_store) (snd (run_dns (\<lambda>d. True) ?c ?op ([Fine, LoseReply], held_store)))"
    by (rule dns_reach.step [OF dns_reach.start, of _ ?op _ _ _ "fst (run_dns (\<lambda>d. True) ?c ?op ([Fine, LoseReply], held_store))"])
      (simp_all add: c)
  show ?thesis
    using subdomain_isolated [of ?c flaky_view "''a.b.c''" "''a''" "''b.c''" "''7''" None "([Fine, LoseReply], held_store)"
        "\<lambda>d. True", OF _ _ _ _ _ _ reach] held_holds
    by (simp add: c flaky.redis_service_axioms splitDomain_def flaky_view_def)
qed

text \<open>
  C13: the owner of a delegated domain stays its owner along any sequence of operations of other
  users and clean-ups, whatever redis calls fail.
\<close>

theorem domain_isolated:
  assumes "redis_service (dns_redis c) view" and "owner_of (view s) z = u" "u \<noteq> []"
    and "dns_reach isDNSName c (\<lambda>op1. op_user op1 \<noteq> Some u) s s'"
  shows "owner_of (view s') z = u"
  using assms(4) assms(2)
  by (rule dns_reach_invariant [where P = "\<lambda>v. owner_of v z = u"])
    (rule redis_service.foreign_owner [OF assms(1) refl assms(3)])

lemma domain_isolated_witness:
  "owner_of (mem_view (snd (run_dns (\<lambda>d. True) demo_mgr (OpRemoveDelegate ''8'' ''b.c'') demo_store))) ''b.c'' = ''7''"
proof -
  let ?op = "OpRemoveDelegate ''8'' ''b.c''"
  have "dns_reach (\<lambda>d. True) demo_mgr (\<lambda>op1. op_user op1 \<noteq> Some ''7'') demo_store
      (snd (run_dns (\<lambda>d. True) demo_mgr ?op demo_store))"
    by (rule dns_reach.step [OF dns_reach.start, of _ ?op _ _ _ "fst (run_dns (\<lambda>d. True) demo_mgr ?op demo_store)"])
      simp_all
  from domain_isolated [OF _ _ _ this, of mem_view "''b.c''"] show ?thesis
    by (simp add: mem.redis_service_axioms owner_of_def)
qed

section \<open>The specification is implemented\<close>

text \<open>
  C5: on a server that answers and a readable store, AddSubdomain has the outcome of its
  specification, leaves the abstract state the specification gives, and keeps the store readable.
\<close>

theorem AddSubdomain_refines:
  assumes "redis_reliable (dns_redis c) view" and "wf_dns (view s)"
    and "AddSubdomain isDNSName c user d IPs s = (r, s')"
  shows "wf_dns (view s') \<and>
    spec_checked isDNSName d (spec_add (dns_identity c) user d IPs) (abs_dns (view s)) =
      (outcome r, abs_dns (view s'))"
  using wpM_D [OF redis_reliable.AddSubdomain_implements [OF assms(1) refl assms(2)] assms(3)]
  by (simp add: implements_def)

lemma AddSubdomain_refines_witness:
  "case AddSubdomain (\<lambda>d. True) demo_mgr ''7'' ''a.b.c'' [demo_ip] demo_store of (r, s') \<Rightarrow>
     outcome r = Done \<and> holder_of (mem_view s') ''a.b.c'' = ''7'' \<and>
     zone_get (stored_zone (mem_view s') ''b.c'' ''a'') ''a'' = [Some (RecordA ''10.0.0.1'' 3600)]"
proof -
  obtain r s' where run: "AddSubdomain (\<lambda>d. True) demo_mgr ''7'' ''a.b.c'' [demo_ip] demo_store = (r, s')"
    by force
  have ip: "recordFromIP demo_ip = RecordA ''10.0.0.1'' 3600" by code_simp
  have val: "validateDomain (\<lambda>d. True) ''a.b.c'' = None" by code_simp
  have own: "owner_of (mem_view demo_store) ''b.c'' = ''7''" by (simp add: owner_of_def)
  have free: "holder_of (mem_view demo_store) ''a.b.c'' = []"
    "zone_get (stored_zone (mem_view demo_store) ''b.c'' ''a'') = (\<lambda>t. [])"
    by (simp_all add: holder_of_def stored_zone_def zone_get_def zone_map_def gm_slice_def fun_eq_iff)
  from AddSubdomain_refines [OF demo_reliable demo_wf run]
  have "spec_add ''gw'' ''7'' ''a.b.c'' [demo_ip] (abs_dns (mem_view demo_store)) = (outcome r, abs_dns (mem_view s'))"
    by (simp add: mem.redis_reliable_axioms spec_checked_def val)
  then have "outcome r = Done" and eq: "abs_dns (mem_view s') =
      set_rrs ''b.c'' ''a'' (\<lambda>t. of_type t [RecordA ''10.0.0.1'' 3600])
        (set_holder ''a.b.c'' ''7'' (abs_dns (mem_view demo_store)))"
    by (simp_all add: spec_add_def splitDomain_def abs_dns_simps own free ip_records_def ip)
  have "holders (abs_dns (mem_view s')) ''a.b.c'' = ''7''"
    "rrs (abs_dns (mem_view s')) ''b.c'' ''a'' ''a'' = [Some (RecordA ''10.0.0.1'' 3600)]"
    by (simp_all add: eq set_rrs_def set_holder_def of_type_def RecordTypeA_def)
  with \<open>outcome r = Done\<close> run show ?thesis by (simp add: abs_dns_simps)
qed

text \<open>
  C6: so does RemoveSubdomain: it removes the given addresses, and releases the sub-domain when no
  record is left.
\<close>

theorem RemoveSubdomain_refines:
  assumes "redis_reliable (dns_redis c) view" and "wf_dns (view s)"
    and "RemoveSubdomain isDNSName c user d IPs s = (r, s')"
  shows "wf_dns (view s') \<and>
    spec_checked isDNSName d (spec_remove user d IPs) (abs_dns (view s)) =
      (outcome r, abs_dns (view s'))"
  using wpM_D [OF redis_reliable.RemoveSubdomain_implements [OF assms(1) refl assms(2)] assms(3)]
  by (simp add: implements_def)

lemma RemoveSubdomain_refines_witness:
  "outcome (fst (RemoveSubdomain (\<lambda>d. True) demo_mgr ''7'' ''a.x.y'' [] demo_store)) = Done"
proof -
  obtain r s' where run: "RemoveSubdomain (\<lambda>d. True) demo_mgr ''7'' ''a.x.y'' [] demo_store = (r, s')"
    by force
  have val: "validateDomain (\<lambda>d. True) ''a.x.y'' = None" by code_simp
  have "owner_of (mem_view demo_store) ''x.y'' = []" by (simp add: owner_of_def)
  with RemoveSubdomain_refines [OF demo_reliable demo_wf run] run show ?thesis
    by (simp add: mem.redis_reliable_axioms spec_checked_def val spec_remove_def splitDomain_def abs_dns_simps)
qed

text \<open>
  C7: so does AddDomainDelagate: the user becomes the owner and the zone's owner record names the
  gateway and the user.
\<close>

theorem AddDomainDelagate_refines:
  assumes "redis_reliable (dns_redis c) view" and "wf_dns (view s)" and "valid_utf8 user"
    and "AddDomainDelagate isDNSName c identity user d s = (r, s')"
  shows "wf_dns (view s') \<and>
    spec_checked isDNSName d (spec_delegate identity user d) (abs_dns (view s)) =
      (outcome r, abs_dns (view s'))"
  using wpM_D [OF redis_reliable.AddDomainDelagate_implements [OF assms(1) refl assms(2,3)] assms(4)]
  by (simp add: implements_def)

lemma AddDomainDelagate_refines_witness:
  "case AddDomainDelagate (\<lambda>d. True) demo_mgr ''gw'' ''8'' ''x.y'' demo_store of (r, s') \<Rightarrow>
     outcome r = Done \<and> owner_of (mem_view s') ''x.y'' = ''8''"
proof -
  obtain r s' where run: "AddDomainDelagate (\<lambda>d. True) demo_mgr ''gw'' ''8'' ''x.y'' demo_store = (r, s')"
    by force
  have val: "validateDomain (\<lambda>d. True) ''x.y'' = None" by code_simp
  have "owner_of (mem_view demo_store) ''x.y'' = []" by (simp add: owner_of_def)
  with AddDomainDelagate_refines [OF demo_reliable demo_wf _ run]
  have "outcome r = Done" and eq: "abs_dns (mem_view s') =
      set_rrs ''x.y'' ''__owner__'' (\<lambda>t. of_type t [owner_record ''gw'' ''8''])
        (set_owner ''x.y'' ''8'' (abs_dns (mem_view demo_store)))"
    by (simp_all add: spec_checked_def val spec_delegate_def abs_dns_simps ascii_def)
  have "owners (abs_dns (mem_view s')) ''x.y'' = ''8''"
    by (simp add: eq set_rrs_def set_owner_def)
  with \<open>outcome r = Done\<close> run show ?thesis by (simp add: abs_dns_simps)
qed

lemma clear_rrs_id: "clear_rrs z a = a \<longleftrightarrow> (\<forall>n t. rrs a z n t = [])"
proof
  assume "clear_rrs z a = a"
  then have "rrs a z n t = rrs (clear_rrs z a) z n t" for n t by simp
  then show "\<forall>n t. rrs a z n t = []" by (simp add: clear_rrs_def)
qed (auto simp: clear_rrs_def fun_eq_iff intro!: dns_abs.equality)

text \<open>
  C8: RemoveDomainDelagate refuses a name that is no domain and a user who is not the owner, and then
  leaves redis as it was. Otherwise it deletes the key that is the domain and the domain's field of the
  owners, and no other key or field: the domain loses its owner, the holders of sub-domains stay. The
  records do not go, though the code's comment wants them to: they are under the domain with a final
  dot. So the call meets the specification of the comment exactly when the domain has no records.
\<close>

theorem RemoveDomainDelagate_exact:
  assumes "redis_reliable (dns_redis c) view" and "wf_dns (view s)"
    and "RemoveDomainDelagate isDNSName c user d s = (r, s')"
  shows "(if validateDomain isDNSName d \<noteq> None then outcome r = Refused \<and> view s' = view s
    else if owner_of (view s) d \<notin> {[], user} then outcome r = Unauthorized \<and> view s' = view s
    else r = Inr () \<and> view s' = ks_hdel ((view s)(d := None)) ''zone'' d \<and>
      owner_of (view s') = (owner_of (view s))(d := []) \<and> holder_of (view s') = holder_of (view s) \<and>
      (spec_undelegate user d (abs_dns (view s)) = (outcome r, abs_dns (view s')) \<longleftrightarrow>
        (\<forall>n t. rrs (abs_dns (view s)) d n t = [])))"
proof -
  let ?a = "abs_dns (view s)" and ?a' = "abs_dns (view s')"
  have impl: "spec_checked isDNSName d (code_undelegate user d) ?a = (outcome r, ?a')"
    using wpM_D [OF redis_reliable.RemoveDomainDelagate_implements [OF assms(1) refl assms(2)] assms(3)]
    by (simp add: implements_def)
  have keys: "view s' = (if validateDomain isDNSName d = None \<and> owner_of (view s) d \<in> {[], user}
      then ks_hdel ((view s)(d := None)) ''zone'' d else view s)"
    by (rule wpM_D [OF redis_reliable.RemoveDomainDelagate_keys [OF assms(1) refl assms(2)] assms(3)])
  show ?thesis
  proof (cases "validateDomain isDNSName d = None \<and> owner_of (view s) d \<in> {[], user}")
    case True
    then have ok: "outcome r = Done" and a': "?a' = set_owner d [] ?a"
      using impl by (auto simp: spec_checked_def code_undelegate_def abs_dns_simps)
    have "owners ?a' = (owners ?a)(d := [])" "holders ?a' = holders ?a" "rrs ?a' = rrs ?a"
      by (simp_all add: a' set_owner_def)
    moreover have "spec_undelegate user d ?a = (Done, clear_rrs d ?a')"
      using True by (auto simp: spec_undelegate_def a' abs_dns_simps)
    ultimately have "spec_undelegate user d ?a = (outcome r, ?a') \<longleftrightarrow> (\<forall>n t. rrs ?a d n t = [])"
      "owner_of (view s') = (owner_of (view s))(d := [])" "holder_of (view s') = holder_of (view s)"
      using ok clear_rrs_id [of d ?a'] by (simp_all add: abs_dns_simps)
    moreover have "r = Inr ()" using ok by (simp add: outcome_Done)
    moreover have "view s' = ks_hdel ((view s)(d := None)) ''zone'' d" using keys True by simp
    ultimately show ?thesis using True by simp
  next
    case False
    then show ?thesis
      using impl keys by (auto simp: spec_checked_def code_undelegate_def abs_dns_simps split: if_splits)
  qed
qed

lemma RemoveDomainDelagate_exact_witness:
  "case RemoveDomainDelagate (\<lambda>d. True) demo_mgr ''7'' ''b.c'' demo_store of (r, s') \<Rightarrow>
     r = Inr () \<and> owner_of (mem_view s') ''b.c'' = []"
proof -
  obtain r s' where run: "RemoveDomainDelagate (\<lambda>d. True) demo_mgr ''7'' ''b.c'' demo_store = (r, s')"
    by force
  have val: "validateDomain (\<lambda>d. True) ''b.c'' = None" by code_simp
  have "owner_of (mem_view demo_store) ''b.c'' = ''7''" by (simp add: owner_of_def)
  then have free: "\<not> validateDomain (\<lambda>d. True) ''b.c'' \<noteq> None" "\<not> owner_of (mem_view demo_store) ''b.c'' \<notin> {[], ''7''}"
    by (simp_all add: val)
  note exact = RemoveDomainDelagate_exact [OF demo_reliable demo_wf run, unfolded if_not_P [OF free(1)] if_not_P [OF free(2)]]
  then have "r = Inr ()" "owner_of (mem_view s') = (owner_of (mem_view demo_store))(''b.c'' := [])" by blast+
  with run show ?thesis by simp
qed

section \<open>Failures\<close>

text \<open>No DNS operation panics, whatever its arguments and whatever redis calls fail.\<close>

theorem dns_no_panic:
  assumes "redis_service (dns_redis c) view"
  shows "fst (run_dns isDNSName c op1 s) \<noteq> Inl (Panic t)"
proof -
  have "safe_call view (\<lambda>v. True) (run_dns isDNSName c op1)"
    by (rule redis_service.safe_run [OF assms refl])
  then show ?thesis
    by (cases "run_dns isDNSName c op1 s") (auto dest: safe_callD [where P = "\<lambda>v. True"])
qed

lemma dns_no_panic_witness:
  "fst (run_dns (\<lambda>d. True) (dns_New flaky_redis ''gw'') (OpAddSubdomain ''7'' ''a.b.c'' [])
     ([Fine, Fine, LoseRequest], demo_store)) \<noteq> Inl (Panic ''index out of range'')"
  by (rule dns_no_panic [of _ flaky_view]) (simp add: dns_New_def flaky.redis_service_axioms)

text \<open>
  C15: when AddSubdomain fails in a zone of the gateway, nobody holds the sub-domain who did not
  hold it before, and no owner, holder or record has changed: the reservation is rolled back.
\<close>

theorem AddSubdomain_rollback:
  assumes "redis_reliable (dns_redis c) view" and "splitDomain d = (n, z)"
    and "hash_key (view s) ''managed_domains''" "hash_key (view s) (z @ ''.'')"
    and "owner_of (view s) z = dns_identity c"
    and "AddSubdomain isDNSName c user d IPs s = (Inl e, s')"
  shows "holder_of (view s') = holder_of (view s) \<and>
    (\<forall>k. k \<noteq> ''managed_domains'' \<longrightarrow> hfield (view s') k = hfield (view s) k)"
proof -
  have "view s' = view s \<or> holder_of (view s) d = [] \<and>
      view s' = ks_hdel (ks_hset (view s) ''managed_domains'' d user) ''managed_domains'' d"
    using wpM_D [OF redis_reliable.AddSubdomain_fails [OF assms(1) refl assms(2-4)] assms(6)] assms(5)
    by auto
  then show ?thesis
    by (elim disjE conjE) (auto simp: holder_of_def intro!: ext)
qed

text \<open>The records of the name are not JSON, so they cannot be read after the reservation.\<close>

definition broken_store :: mem where
  "broken_store = AList.update ''gw.net.'' (MHash [(''a'', ''x'')]) demo_store"

lemma AddSubdomain_rollback_witness:
  "case AddSubdomain (\<lambda>d. True) demo_mgr ''7'' ''a.gw.net'' [] broken_store of (r, s') \<Rightarrow>
     r = Inl json_error \<and> holder_of (mem_view s') ''a.gw.net'' = []"
proof -
  obtain r s' where run: "AddSubdomain (\<lambda>d. True) demo_mgr ''7'' ''a.gw.net'' [] broken_store = (r, s')"
    by force
  have r: "fst (AddSubdomain (\<lambda>d. True) demo_mgr ''7'' ''a.gw.net'' [] broken_store) = Inl json_error"
    by code_simp
  with run have run': "AddSubdomain (\<lambda>d. True) demo_mgr ''7'' ''a.gw.net'' [] broken_store = (Inl json_error, s')"
    by simp
  have own: "owner_of (mem_view broken_store) ''gw.net'' = dns_identity demo_mgr"
    by (simp add: broken_store_def owner_of_def)
  have keys: "hash_key (mem_view broken_store) k" for k
    using demo_other(2) [of k] by (simp add: broken_store_def hash_key_def)
  have "splitDomain ''a.gw.net'' = (''a'', ''gw.net'')" by code_simp
  from AddSubdomain_rollback [OF demo_reliable this keys keys own run']
  have "holder_of (mem_view s') = holder_of (mem_view broken_store)" by simp
  moreover have "holder_of (mem_view broken_store) ''a.gw.net'' = []"
    by (simp add: holder_of_def broken_store_def)
  ultimately show ?thesis using run r by simp
qed

section \<open>Operations in sequence\<close>

text \<open>
  C16: adding a free sub-domain and removing it with the same addresses succeeds and restores every
  owner, holder and record.
\<close>

theorem add_remove_roundtrip:
  assumes "redis_reliable (dns_redis c) view" and "wf_dns (view s)"
    and "splitDomain d = (n, z)" and "IPs \<noteq> []"
    and "holder_of (view s) d = []" "\<forall>t. zone_get (stored_zone (view s) z n) t = []"
    and add: "AddSubdomain isDNSName c user d IPs s = (Inr (), s1)"
    and remove: "RemoveSubdomain isDNSName c user d IPs s1 = (r, s2)"
  shows "r = Inr () \<and> abs_dns (view s2) = abs_dns (view s)"
proof -
  let ?a = "abs_dns (view s)" and ?rs = "\<lambda>t. of_type t (ip_records IPs)"
  note added = wpM_D [OF redis_reliable.AddSubdomain_implements [OF assms(1) refl assms(2)] add, unfolded implements_def]
  then have wf: "wf_dns (view s1)"
    and sp: "spec_checked isDNSName d (spec_add (dns_identity c) user d IPs) ?a = (Done, abs_dns (view s1))"
    by (simp_all add: outcome_def)
  note removed = wpM_D [OF redis_reliable.RemoveSubdomain_implements [OF assms(1) refl wf] remove, unfolded implements_def]
  from sp have val: "validateDomain isDNSName d = None"
    by (auto simp: spec_checked_def split: if_splits)
  note z = splitDomain_zone [OF val assms(3)]
  have free: "holders ?a d = []" "rrs ?a z n = (\<lambda>t. [])"
    using assms(5,6) z by (simp_all add: abs_dns_simps fun_eq_iff)
  from sp have s1: "abs_dns (view s1) = set_rrs z n ?rs (set_holder d user ?a)" and "owners ?a z \<noteq> []"
    by (auto simp: spec_checked_def val spec_add_def assms(3) free split: if_splits)
  then have state: "owners (abs_dns (view s1)) z \<noteq> []" "holders (abs_dns (view s1)) d = user"
    "rrs (abs_dns (view s1)) z n = ?rs"
    by (simp_all add: set_rrs_def set_holder_def)
  have some: "(\<forall>t. ?rs t = []) = False"
    using assms(4) by (cases IPs) (auto simp: of_type_def ip_records_def)
  have none: "filter (\<lambda>x. x \<notin> Some ` set (ip_records IPs)) (?rs t) = []" for t
    by (auto simp: of_type_def filter_empty_conv)
  have "spec_remove user d IPs (abs_dns (view s1)) =
      (Done, set_rrs z n (\<lambda>t. []) (set_holder d [] (abs_dns (view s1))))"
    using state by (simp add: spec_remove_def assms(3) Let_def some none)
  then have "outcome r = Done" "abs_dns (view s2) = set_rrs z n (\<lambda>t. []) (set_holder d [] (abs_dns (view s1)))"
    using removed by (simp_all add: spec_checked_def val)
  moreover have "set_rrs z n (\<lambda>t. []) (set_holder d [] (set_rrs z n ?rs (set_holder d user ?a))) = ?a"
    using free by (cases ?a) (simp add: set_rrs_def set_holder_def fun_upd_idem)
  ultimately show ?thesis by (simp add: s1 outcome_Done)
qed

lemma add_remove_roundtrip_witness:
  "case AddSubdomain (\<lambda>d. True) demo_mgr ''7'' ''a.b.c'' [demo_ip] demo_store of (r1, s1) \<Rightarrow>
   case RemoveSubdomain (\<lambda>d. True) demo_mgr ''7'' ''a.b.c'' [demo_ip] s1 of (r2, s2) \<Rightarrow>
     r1 = Inr () \<and> r2 = Inr () \<and> abs_dns (mem_view s2) = abs_dns (mem_view demo_store)"
proof -
  obtain r1 s1 where add: "AddSubdomain (\<lambda>d. True) demo_mgr ''7'' ''a.b.c'' [demo_ip] demo_store = (r1, s1)"
    by force
  obtain r2 s2 where remove: "RemoveSubdomain (\<lambda>d. True) demo_mgr ''7'' ''a.b.c'' [demo_ip] s1 = (r2, s2)"
    by force
  have "fst (AddSubdomain (\<lambda>d. True) demo_mgr ''7'' ''a.b.c'' [demo_ip] demo_store) = Inr ()" by code_simp
  with add have "r1 = Inr ()" by simp
  have free: "holder_of (mem_view demo_store) ''a.b.c'' = []"
    "\<forall>t. zone_get (stored_zone (mem_view demo_store) ''b.c'' ''a'') t = []"
    by (simp_all add: holder_of_def stored_zone_def zone_get_def zone_map_def gm_slice_def)
  have "splitDomain ''a.b.c'' = (''a'', ''b.c'')" by code_simp
  from add_remove_roundtrip [OF demo_reliable demo_wf this _ free, of "[demo_ip]"] add remove \<open>r1 = Inr ()\<close>
  show ?thesis by simp
qed

text \<open>
  C36: once a sub-domain of the gateway's zone is added, adding it again fails with the error that
  it is in use, for every user and for every list of addresses, and changes nothing.
\<close>

theorem managed_subdomain_exclusive:
  assumes "redis_reliable (dns_redis c) view" and "wf_dns (view s)"
    and "splitDomain d = (n, z)" and "owner_of (view s) z = dns_identity c" and "user \<noteq> []"
    and add: "AddSubdomain isDNSName c user d IPs s = (Inr (), s1)"
    and again: "AddSubdomain isDNSName c user' d IPs' s1 = (r, s2)"
  shows "outcome r = Taken \<and> abs_dns (view s2) = abs_dns (view s1)"
proof -
  let ?a = "abs_dns (view s)"
  from wpM_D [OF redis_reliable.AddSubdomain_implements [OF assms(1) refl assms(2)] add, unfolded implements_def]
  have wf: "wf_dns (view s1)"
    and sp: "spec_checked isDNSName d (spec_add (dns_identity c) user d IPs) ?a = (Done, abs_dns (view s1))"
    by (simp_all add: outcome_def)
  then have val: "validateDomain isDNSName d = None" and own: "owners ?a z \<noteq> []"
    and s1: "abs_dns (view s1) = set_rrs z n (\<lambda>t. rrs ?a z n t @ of_type t (ip_records IPs)) (set_holder d user ?a)"
    using assms(3) by (auto simp: spec_checked_def spec_add_def split: if_splits)
  have "owners (abs_dns (view s1)) z = dns_identity c" "owners (abs_dns (view s1)) z \<noteq> []"
    "holders (abs_dns (view s1)) d \<noteq> []"
    using own assms(4,5) by (simp_all add: s1 set_rrs_def set_holder_def abs_dns_simps)
  with val have "spec_checked isDNSName d (spec_add (dns_identity c) user' d IPs') (abs_dns (view s1)) =
      (Taken, abs_dns (view s1))"
    by (simp add: spec_checked_def spec_add_def assms(3))
  with wpM_D [OF redis_reliable.AddSubdomain_implements [OF assms(1) refl wf] again, unfolded implements_def]
  show ?thesis by simp
qed

lemma managed_subdomain_exclusive_witness:
  "case AddSubdomain (\<lambda>d. True) demo_mgr ''7'' ''a.gw.net'' [demo_ip] demo_store of (r1, s1) \<Rightarrow>
   case AddSubdomain (\<lambda>d. True) demo_mgr ''8'' ''a.gw.net'' [demo_ip] s1 of (r2, s2) \<Rightarrow>
     r1 = Inr () \<and> outcome r2 = Taken"
proof -
  obtain r1 s1 where add: "AddSubdomain (\<lambda>d. True) demo_mgr ''7'' ''a.gw.net'' [demo_ip] demo_store = (r1, s1)"
    by force
  obtain r2 s2 where again: "AddSubdomain (\<lambda>d. True) demo_mgr ''8'' ''a.gw.net'' [demo_ip] s1 = (r2, s2)"
    by force
  have "fst (AddSubdomain (\<lambda>d. True) demo_mgr ''7'' ''a.gw.net'' [demo_ip] demo_store) = Inr ()" by code_simp
  with add have r1: "r1 = Inr ()" by simp
  have own: "owner_of (mem_view demo_store) ''gw.net'' = dns_identity demo_mgr"
    by (simp add: owner_of_def)
  have "splitDomain ''a.gw.net'' = (''a'', ''gw.net'')" by code_simp
  from managed_subdomain_exclusive [OF demo_reliable demo_wf this own _ add [unfolded r1] again]
  have "outcome r2 = Taken" by simp
  with add r1 again show ?thesis by simp
qed

section \<open>Clean-up\<close>

text \<open>
  C17: whatever redis calls fail, the clean-up deletes only empty values and empty objects, from
  hashes whose key ends with a dot.
\<close>

theorem Cleanup_only_junk:
  assumes "redis_service (dns_redis c) view" and "Cleanup c s = (r, s')"
  shows "only_junk_gone (view s) (view s')"
  by (rule wpM_D [OF redis_service.wp_Cleanup [OF assms(1) refl] assms(2)])

lemma Cleanup_only_junk_witness:
  "only_junk_gone (mem_view broken_store)
     (flaky_view (snd (Cleanup (dns_New flaky_redis ''gw'') ([Fine, Fine, LoseReply], broken_store))))"
  using Cleanup_only_junk [of "dns_New flaky_redis ''gw''" flaky_view "([Fine, Fine, LoseReply], broken_store)"]
  by (cases "Cleanup (dns_New flaky_redis ''gw'') ([Fine, Fine, LoseReply], broken_store)")
    (simp add: dns_New_def flaky.redis_service_axioms flaky_view_def)

text \<open>
  C18: on a server that answers, the clean-up succeeds and deletes all of them; a readable store
  keeps its abstract state.
\<close>

theorem Cleanup_complete:
  assumes "redis_reliable (dns_redis c) view" and "Cleanup c s = (r, s')"
  shows "r = Inr () \<and>
    zones_swept {k. zone_key k \<and> (\<exists>h. view s k = Some (RHash h))} (view s) (view s') \<and>
    (wf_dns (view s) \<longrightarrow> wf_dns (view s') \<and> abs_dns (view s') = abs_dns (view s))"
  using wpM_D [OF redis_reliable.up_Cleanup [OF assms(1) refl] assms(2)]
  by (auto simp: zones_swept_wf zones_swept_abs)

definition junk_store :: mem where
  "junk_store = AList.update ''gw.net.'' (MHash [(''a'', ''{}'')]) demo_store"

lemma Cleanup_complete_witness:
  "fst (Cleanup demo_mgr junk_store) = Inr () \<and>
   hfield (mem_view (snd (Cleanup demo_mgr junk_store))) ''gw.net.'' ''a'' = None"
proof -
  obtain r s' where run: "Cleanup demo_mgr junk_store = (r, s')" by force
  have "\<exists>h. mem_view junk_store ''gw.net.'' = Some (RHash h)" "hfield (mem_view junk_store) ''gw.net.'' ''a'' = Some ''{}''"
    by (simp_all add: junk_store_def hfield_def)
  with Cleanup_complete [OF demo_reliable run] run show ?thesis
    by (auto simp: zones_swept_def zone_key_def swept_def junk_def)
qed

end
