(* ===== verification/DnsFindings.thy ===== *)
theory DnsFindings
  imports DnsProps
begin

text \<open>
  What the specification of the DNS manager shows and its comments do not say: the records of a delegated
  domain outlive the delegation, and a sub-domain without addresses cannot be given back.
\<close>

lemma implements_run:
  assumes "wpM m (implements view (spec_checked isDNSName d f) s) s" and "m s = (r, s')" and "validateDomain isDNSName d = None"
  shows "wf_dns (view s')" "f (abs_dns (view s)) = (outcome r, abs_dns (view s'))"
  using wpM_D [OF assms(1,2)] assms(3) by (simp_all add: implements_def spec_checked_def)

text \<open>
  C34: when the owner of a domain gives it up and somebody else has it delegated, the new owner serves
  every record of the old one, and the users who held sub-domains hold them still.
\<close>

theorem redelegation_inherits_records:
  assumes "redis_reliable (dns_redis c) view" and "wf_dns (view s)" and "validateDomain isDNSName d = None"
    and "owner_of (view s) d = u" and "valid_utf8 u'" "u' \<noteq> []"
    and "RemoveDomainDelagate isDNSName c u d s = (r1, s1)" and "AddDomainDelagate isDNSName c i u' d s1 = (r2, s2)"
  shows "r1 = Inr () \<and> r2 = Inr () \<and> owner_of (view s2) d = u' \<and> holder_of (view s2) = holder_of (view s) \<and>
    (\<forall>n. n \<noteq> ''__owner__'' \<longrightarrow> rrs (abs_dns (view s2)) d n = rrs (abs_dns (view s)) d n)"
proof -
  note one = implements_run [OF redis_reliable.RemoveDomainDelagate_implements [OF assms(1) refl assms(2)] assms(7,3)]
  note two = implements_run [OF redis_reliable.AddDomainDelagate_implements [OF assms(1) refl one(1) assms(5)] assms(8,3)]
  have a1: "outcome r1 = Done" "abs_dns (view s1) = set_owner d [] (abs_dns (view s))"
    using one(2) assms(4) by (auto simp: code_undelegate_def abs_dns_simps split: if_splits)
  then have a2: "outcome r2 = Done" "abs_dns (view s2) =
      set_rrs d ''__owner__'' (\<lambda>t. of_type t [owner_record i u']) (set_owner d u' (set_owner d [] (abs_dns (view s))))"
    using two(2) unfolding a1(2) by (auto simp: spec_delegate_def set_owner_def)
  have "owners (abs_dns (view s2)) d = u'" "holders (abs_dns (view s2)) = holders (abs_dns (view s))"
    unfolding a2(2) by (simp_all add: set_rrs_def set_owner_def)
  then have "owner_of (view s2) d = u'" "holder_of (view s2) = holder_of (view s)" by (simp_all add: abs_dns_simps)
  with a1(1) a2 show ?thesis by (simp add: outcome_Done set_rrs_def set_owner_def)
qed

lemma redelegation_inherits_records_witness:
  "let s1 = snd (RemoveDomainDelagate (\<lambda>d. True) demo_mgr ''7'' ''b.c'' demo_store);
       s2 = snd (AddDomainDelagate (\<lambda>d. True) demo_mgr ''gw'' ''8'' ''b.c'' s1)
   in owner_of (mem_view s2) ''b.c'' = ''8'' \<and> holder_of (mem_view s2) = holder_of (mem_view demo_store)"
proof -
  obtain r1 s1 where run1: "RemoveDomainDelagate (\<lambda>d. True) demo_mgr ''7'' ''b.c'' demo_store = (r1, s1)" by force
  obtain r2 s2 where run2: "AddDomainDelagate (\<lambda>d. True) demo_mgr ''gw'' ''8'' ''b.c'' s1 = (r2, s2)" by force
  have val: "validateDomain (\<lambda>d. True) ''b.c'' = None" by code_simp
  from redelegation_inherits_records [OF demo_reliable demo_wf val _ _ _ run1 run2] run1 run2 show ?thesis
    by (simp add: owner_of_def ascii_valid ascii_def Let_def)
qed

text \<open>
  C35: a sub-domain of a managed zone that is reserved without addresses stays reserved: removing it
  succeeds and does nothing, and from then on nobody can have it.
\<close>

theorem empty_reservation_stuck:
  assumes "redis_reliable (dns_redis c) view" and "wf_dns (view s)" and "validateDomain isDNSName d = None"
    and "splitDomain d = (n, z)" and "owner_of (view s) z = dns_identity c" "dns_identity c \<noteq> []"
    and "holder_of (view s) d = []" and "\<forall>t. rrs (abs_dns (view s)) z n t = []" and "u \<noteq> []"
    and "AddSubdomain isDNSName c u d [] s = (r1, s1)" and "RemoveSubdomain isDNSName c u d IPs s1 = (r2, s2)"
    and "AddSubdomain isDNSName c u' d IPs' s2 = (r3, s3)"
  shows "r1 = Inr () \<and> r2 = Inr () \<and> holder_of (view s2) d = u \<and>
    (\<exists>e. r3 = Inl e \<and> errors_is e DnsErrSubdomainUsed)"
proof -
  note rel = assms(1)
  note one = implements_run [OF redis_reliable.AddSubdomain_implements [OF rel refl assms(2)] assms(10,3)]
  note two = implements_run [OF redis_reliable.RemoveSubdomain_implements [OF rel refl one(1)] assms(11,3)]
  note three = implements_run [OF redis_reliable.AddSubdomain_implements [OF rel refl two(1)] assms(12,3)]
  have "set_rrs z n (\<lambda>t. []) (set_holder d u a) = set_holder d u a" if "\<forall>t. rrs a z n t = []" for a
    using that by (intro dns_abs.equality) (auto simp: set_rrs_def set_holder_def fun_eq_iff)
  from this [OF assms(8)] have a1: "outcome r1 = Done" "abs_dns (view s1) = set_holder d u (abs_dns (view s))"
    using one(2) assms(4-8) by (auto simp: spec_add_def abs_dns_simps ip_records_def of_type_def)
  have a2: "outcome r2 = Done" "abs_dns (view s2) = set_holder d u (abs_dns (view s))"
    using two(2) assms(4-8) unfolding a1(2)
    by (auto simp: spec_remove_def abs_dns_simps set_holder_def split: if_splits)
  have "outcome r3 = Taken"
    using three(2) assms(4-6,9) unfolding a2(2) by (auto simp: spec_add_def set_holder_def abs_dns_simps)
  moreover have "holders (abs_dns (view s2)) d = u" unfolding a2(2) by (simp add: set_holder_def)
  ultimately show ?thesis using a1(1) a2(1) by (auto simp: outcome_Done outcome_Taken abs_dns_simps)
qed

lemma empty_reservation_stuck_witness:
  "let s1 = snd (AddSubdomain (\<lambda>d. True) demo_mgr ''7'' ''a.gw.net'' [] demo_store);
       s2 = snd (RemoveSubdomain (\<lambda>d. True) demo_mgr ''7'' ''a.gw.net'' [] s1)
   in holder_of (mem_view s2) ''a.gw.net'' = ''7''"
proof -
  obtain r1 s1 where run1: "AddSubdomain (\<lambda>d. True) demo_mgr ''7'' ''a.gw.net'' [] demo_store = (r1, s1)" by force
  obtain r2 s2 where run2: "RemoveSubdomain (\<lambda>d. True) demo_mgr ''7'' ''a.gw.net'' [] s1 = (r2, s2)" by force
  obtain r3 s3 where run3: "AddSubdomain (\<lambda>d. True) demo_mgr ''8'' ''a.gw.net'' [] s2 = (r3, s3)" by force
  have val: "validateDomain (\<lambda>d. True) ''a.gw.net'' = None" by code_simp
  have split: "splitDomain ''a.gw.net'' = (''a'', ''gw.net'')" by (simp add: splitDomain_def)
  have empty: "\<forall>t. rrs (abs_dns (mem_view demo_store)) ''gw.net'' ''a'' t = []"
    by (simp add: abs_dns_simps stored_zone_def zone_get_def zone_map_def gm_slice_def)
  from empty_reservation_stuck [OF demo_reliable demo_wf val split _ _ _ empty _ run1 run2 run3] run1 run2 show ?thesis
    by (simp add: owner_of_def holder_of_def Let_def)
qed

end
