(* ===== verification/Base64.thy ===== *)
theory Base64
  imports Utf8
begin

text \<open>
  encoding/base64 and encoding/hex as the program uses them: \<open>base64.StdEncoding\<close> (padded, line
  breaks skipped on reading) and \<open>hex.EncodeToString\<close>, \<open>hex.DecodeString\<close>. Both decoders invert
  their encoders.
\<close>

section \<open>Base 64\<close>

definition b64_char :: "nat \<Rightarrow> char" where
  "b64_char i =
     (if i < 26 then char_of (65 + i)
      else if i < 52 then char_of (71 + i)
      else if i < 62 then char_of (i - 4)
      else if i = 62 then CHR ''+'' else CHR ''/'')"

definition b64_val :: "char \<Rightarrow> nat option" where
  "b64_val c =
     (if 65 \<le> byte c \<and> byte c \<le> 90 then Some (byte c - 65)
      else if 97 \<le> byte c \<and> byte c \<le> 122 then Some (byte c - 71)
      else if 48 \<le> byte c \<and> byte c \<le> 57 then Some (byte c + 4)
      else if c = CHR ''+'' then Some 62
      else if c = CHR ''/'' then Some 63
      else None)"

fun b64_encode :: "string \<Rightarrow> string" where
  "b64_encode [] = []"
| "b64_encode [a] = [b64_char (byte a div 4), b64_char (byte a mod 4 * 16), CHR ''='', CHR ''='']"
| "b64_encode [a, b] =
     [b64_char (byte a div 4), b64_char (byte a mod 4 * 16 + byte b div 16),
      b64_char (byte b mod 16 * 4), CHR ''='']"
| "b64_encode (a # b # c # s) =
     [b64_char (byte a div 4), b64_char (byte a mod 4 * 16 + byte b div 16),
      b64_char (byte b mod 16 * 4 + byte c div 64), b64_char (byte c mod 64)] @ b64_encode s"

definition b64_first :: "nat \<Rightarrow> nat \<Rightarrow> char" where
  "b64_first x y = char_of (x * 4 + y div 16)"

definition b64_second :: "nat \<Rightarrow> nat \<Rightarrow> char" where
  "b64_second y z = char_of (y mod 16 * 16 + z div 4)"

definition b64_third :: "nat \<Rightarrow> nat \<Rightarrow> char" where
  "b64_third z w = char_of (z mod 4 * 64 + w)"

text \<open>Quanta of four characters; padding only in the last one, nothing after it.\<close>

fun b64_quanta :: "string \<Rightarrow> string option" where
  "b64_quanta [] = Some []"
| "b64_quanta (a # b # c # d # s) =
     (case (b64_val a, b64_val b) of
        (Some x, Some y) \<Rightarrow>
          (if c = CHR ''='' then
             (if d = CHR ''='' \<and> s = [] then Some [b64_first x y] else None)
           else (case b64_val c of
                   None \<Rightarrow> None
                 | Some z \<Rightarrow>
                     (if d = CHR ''='' then
                        (if s = [] then Some [b64_first x y, b64_second y z] else None)
                      else (case b64_val d of
                              None \<Rightarrow> None
                            | Some w \<Rightarrow>
                                map_option ((@) [b64_first x y, b64_second y z, b64_third z w])
                                  (b64_quanta s)))))
      | _ \<Rightarrow> None)"
| "b64_quanta _ = None"

definition b64_decode :: "string \<Rightarrow> string option" where
  "b64_decode s = b64_quanta (filter (\<lambda>c. c \<noteq> CHR 0x0A \<and> c \<noteq> CHR 0x0D) s)"

lemma byte_div: "byte c div 4 < 64" "byte c div 16 < 16" "byte c div 64 < 4"
  by (simp_all add: less_mult_imp_div_less)

lemma b64_val_char [simp]: "i < 64 \<Longrightarrow> b64_val (b64_char i) = Some i"
  by (auto simp: b64_val_def b64_char_def)

lemma b64_char_plain:
  assumes "i < 64"
  shows "b64_char i \<noteq> CHR ''='' \<and> b64_char i \<noteq> CHR 0x0A \<and> b64_char i \<noteq> CHR 0x0D"
  using b64_val_char [OF assms] by (auto simp: b64_val_def)

lemma b64_first_encode: "b64_first (byte a div 4) (byte a mod 4 * 16 + byte b div 16) = a"
proof -
  have "byte b div 16 < 16" by (rule byte_div)+
  then have "byte a div 4 * 4 + (byte a mod 4 * 16 + byte b div 16) div 16 = byte a" by simp
  then show ?thesis by (simp add: b64_first_def)
qed

lemma b64_first_last: "b64_first (byte a div 4) (byte a mod 4 * 16) = a"
  by (simp add: b64_first_def)

lemma b64_second_encode:
  "b64_second (byte a mod 4 * 16 + byte b div 16) (byte b mod 16 * 4 + byte c div 64) = b"
proof -
  have "byte b div 16 < 16" "byte c div 64 < 4" by (rule byte_div)+
  then have "(byte a mod 4 * 16 + byte b div 16) mod 16 * 16 + (byte b mod 16 * 4 + byte c div 64) div 4 = byte b"
    by simp
  then show ?thesis by (simp add: b64_second_def)
qed

lemma b64_second_last: "b64_second (byte a mod 4 * 16 + byte b div 16) (byte b mod 16 * 4) = b"
proof -
  have "byte b div 16 < 16" by (rule byte_div)+
  then have "(byte a mod 4 * 16 + byte b div 16) mod 16 * 16 + byte b mod 16 * 4 div 4 = byte b"
    by simp
  then show ?thesis by (simp add: b64_second_def)
qed

lemma b64_third_encode: "b64_third (byte b mod 16 * 4 + byte c div 64) (byte c mod 64) = c"
proof -
  have "byte c div 64 < 4" by (rule byte_div)+
  then have "(byte b mod 16 * 4 + byte c div 64) mod 4 * 64 + byte c mod 64 = byte c" by simp
  then show ?thesis by (simp add: b64_third_def)
qed

lemma b64_indices:
  "byte a div 4 < 64" "byte a mod 4 * 16 + byte b div 16 < 64" "byte a mod 4 * 16 < 64"
  "byte b mod 16 * 4 + byte c div 64 < 64" "byte b mod 16 * 4 < 64" "byte c mod 64 < 64"
proof -
  have "byte a mod 4 \<le> 3" "byte b mod 16 \<le> 15" by auto
  with byte_div [of a] byte_div [of b] byte_div [of c]
  show "byte a div 4 < 64" "byte a mod 4 * 16 + byte b div 16 < 64" "byte a mod 4 * 16 < 64"
    "byte b mod 16 * 4 + byte c div 64 < 64" "byte b mod 16 * 4 < 64" "byte c mod 64 < 64"
    by simp_all
qed

lemma b64_quanta_encode: "b64_quanta (b64_encode s) = Some s"
  by (induction s rule: b64_encode.induct)
    (simp_all add: b64_indices b64_char_plain b64_first_encode b64_first_last b64_second_encode
      b64_second_last b64_third_encode)

lemma b64_encode_plain:
  "c \<in> set (b64_encode s) \<Longrightarrow> c \<noteq> CHR 0x0A \<and> c \<noteq> CHR 0x0D"
  by (induction s rule: b64_encode.induct) (auto simp: b64_char_plain b64_indices)

lemma b64_encode_ascii: "ascii (b64_encode s)"
proof -
  have "byte (b64_char i) < 128" if "i < 64" for i
    using that by (auto simp: b64_char_def)
  then show ?thesis
    unfolding ascii_def by (induction s rule: b64_encode.induct) (simp_all add: b64_indices)
qed

theorem b64_decode_encode: "b64_decode (b64_encode s) = Some s"
proof -
  have "filter (\<lambda>c. c \<noteq> CHR 0x0A \<and> c \<noteq> CHR 0x0D) (b64_encode s) = b64_encode s"
    using b64_encode_plain by (simp add: filter_id_conv)
  then show ?thesis by (simp add: b64_decode_def b64_quanta_encode)
qed

section \<open>Hexadecimal\<close>

fun hex_encode :: "string \<Rightarrow> string" where
  "hex_encode [] = []"
| "hex_encode (c # s) = hex_char (byte c div 16) # hex_char (byte c mod 16) # hex_encode s"

fun hex_decode :: "string \<Rightarrow> string option" where
  "hex_decode [] = Some []"
| "hex_decode (a # b # s) =
     (case (hex_val a, hex_val b) of
        (Some x, Some y) \<Rightarrow> map_option ((#) (char_of (16 * x + y))) (hex_decode s)
      | _ \<Rightarrow> None)"
| "hex_decode [a] = None"

theorem hex_decode_encode: "hex_decode (hex_encode s) = Some s"
proof (induction s)
  case (Cons c s)
  have "byte c div 16 < 16" "byte c mod 16 < 16" by (simp_all add: byte_div)
  with Cons show ?case by simp
qed simp

lemma hex_decode_length: "hex_decode s = Some x \<Longrightarrow> length s = 2 * length x"
  by (induction s arbitrary: x rule: hex_decode.induct) (auto split: option.splits)

end
