(* ===== verification/Proxy.thy ===== *)
theory Proxy
  imports JsonCodec Base64 Redis
begin

text \<open>
  Component proxy, files proxy/tcp_router.go and proxy/errors.go: the services of the TCP router,
  kept in redis under one plain key per domain. A service is stored the way valkyrie does: a JSON
  object with the key and the base64 text of the service's own JSON.
\<close>

section \<open>Services\<close>

record service =
  Addr :: string
  ClientSecret :: string
  TLSPort :: int
  HTTPPort :: int
  UserID :: string

definition empty_service :: service where
  "empty_service = \<lparr>Addr = [], ClientSecret = [], TLSPort = 0, HTTPPort = 0, UserID = []\<rparr>"

definition service_fields :: "string list" where
  "service_fields = [''addr'', ''clientsecret'', ''tlsport'', ''httpport'', ''user'']"

definition enc_service :: "service \<Rightarrow> json" where
  "enc_service x = JObj [(''addr'', JStr (Addr x)), (''clientsecret'', JStr (ClientSecret x)),
     (''tlsport'', enc_int (TLSPort x)), (''httpport'', enc_int (HTTPPort x)), (''user'', JStr (UserID x))]"

definition dec_service :: "json \<Rightarrow> service option" where
  "dec_service j =
     dec_struct (\<lambda>ms x.
       case (get_field service_fields ''addr'' dec_string (Addr x) ms,
             get_field service_fields ''clientsecret'' dec_string (ClientSecret x) ms,
             get_field service_fields ''tlsport'' dec_int (TLSPort x) ms,
             get_field service_fields ''httpport'' dec_int (HTTPPort x) ms,
             get_field service_fields ''user'' dec_string (UserID x) ms) of
         (Some a, Some s, Some t, Some h, Some u) \<Rightarrow>
           Some \<lparr>Addr = a, ClientSecret = s, TLSPort = t, HTTPPort = h, UserID = u\<rparr>
       | _ \<Rightarrow> None) j empty_service"

section \<open>The valkyrie encoding\<close>

record valkyrieObj =
  Key :: string
  Value :: string

definition enc_valkyrieObj :: "valkyrieObj \<Rightarrow> json" where
  "enc_valkyrieObj x = JObj [(''Key'', JStr (Key x)), (''Value'', JStr (Value x))]"

definition dec_valkyrieObj :: "json \<Rightarrow> valkyrieObj option" where
  "dec_valkyrieObj j =
     dec_struct (\<lambda>ms x.
       case (get_field [''Key'', ''Value''] ''Key'' dec_string (Key x) ms,
             get_field [''Key'', ''Value''] ''Value'' dec_string (Value x) ms) of
         (Some k, Some v) \<Rightarrow> Some \<lparr>Key = k, Value = v\<rparr>
       | _ \<Rightarrow> None) j \<lparr>Key = [], Value = []\<rparr>"

definition valkyrieEncode :: "string \<Rightarrow> service \<Rightarrow> string" where
  "valkyrieEncode key v =
     json_marshal enc_valkyrieObj \<lparr>Key = key, Value = b64_encode (json_marshal enc_service v)\<rparr>"

definition valkyrieDecode :: "string \<Rightarrow> go_error + service" where
  "valkyrieDecode b =
     (case json_unmarshal dec_valkyrieObj b of
        Inl e \<Rightarrow> Inl e
      | Inr obj \<Rightarrow>
          (case b64_decode (Value obj) of
             None \<Rightarrow> Inl (StdErr ''base64.DecodeString'')
           | Some value \<Rightarrow> json_unmarshal dec_service value))"

section \<open>The manager\<close>

record 's proxy_Mgr =
  proxy_redis :: "'s redis"

definition proxy_New :: "'s redis \<Rightarrow> 's proxy_Mgr" where
  "proxy_New pool = \<lparr>proxy_redis = pool\<rparr>"

definition proxy_key :: "string \<Rightarrow> string" where
  "proxy_key domain = ''/tcprouter/service/'' @ domain"

definition canUseDomain :: "'s proxy_Mgr \<Rightarrow> string \<Rightarrow> string \<Rightarrow> ('s, bool) go" where
  "canUseDomain r user domain =
     handleM (do_GET (proxy_redis r) (proxy_key domain)) (\<lambda>res.
       case res of
         Inl e \<Rightarrow> if errors_is e ErrNil then returnM True else raiseM e
       | Inr data \<Rightarrow> bindM (liftM (valkyrieDecode data)) (\<lambda>svc. returnM (UserID svc = user)))"

text \<open>\<open>fmt.Errorf("cannot ...: %w", domain, ErrAuth)\<close>\<close>

definition proxy_denied :: "string \<Rightarrow> string \<Rightarrow> go_error" where
  "proxy_denied what domain =
     Wrapped (''cannot '' @ what @ '' from '' @ domain @ '': '' @ error_text ProxyErrAuth) ProxyErrAuth"

definition AddProxy :: "'s proxy_Mgr \<Rightarrow> string \<Rightarrow> string \<Rightarrow> string \<Rightarrow> int \<Rightarrow> int \<Rightarrow> ('s, unit) go" where
  "AddProxy r user domain addr port portTLS =
     bindM (canUseDomain r user domain) (\<lambda>can.
     if \<not> can then raiseM (proxy_denied ''add proxy'' domain)
     else
       let key = proxy_key domain;
           b = valkyrieEncode key
             (empty_service\<lparr>Addr := addr, HTTPPort := port, TLSPort := portTLS, UserID := user\<rparr>)
       in do_SET (proxy_redis r) key b)"

definition RemoveProxy :: "'s proxy_Mgr \<Rightarrow> string \<Rightarrow> string \<Rightarrow> ('s, unit) go" where
  "RemoveProxy r user domain =
     bindM (canUseDomain r user domain) (\<lambda>can.
     if \<not> can then raiseM (proxy_denied ''remove proxy'' domain)
     else do_DEL (proxy_redis r) (proxy_key domain))"

definition AddReverseProxy :: "'s proxy_Mgr \<Rightarrow> string \<Rightarrow> string \<Rightarrow> string \<Rightarrow> ('s, unit) go" where
  "AddReverseProxy r user domain secret =
     bindM (canUseDomain r user domain) (\<lambda>can.
     if \<not> can then raiseM (proxy_denied ''add reverse proxy'' domain)
     else
       let key = proxy_key domain;
           b = valkyrieEncode key (empty_service\<lparr>ClientSecret := secret, UserID := user\<rparr>)
       in do_SET (proxy_redis r) key b)"

definition RemoveReverseProxy :: "'s proxy_Mgr \<Rightarrow> string \<Rightarrow> string \<Rightarrow> ('s, unit) go" where
  "RemoveReverseProxy r user domain =
     bindM (canUseDomain r user domain) (\<lambda>can.
     if \<not> can then raiseM (proxy_denied ''remove reverse proxy'' domain)
     else do_DEL (proxy_redis r) (proxy_key domain))"

section \<open>The encoding is read back\<close>

definition wf_service :: "service \<Rightarrow> bool" where
  "wf_service x \<longleftrightarrow> valid_utf8 (Addr x) \<and> valid_utf8 (ClientSecret x) \<and> int64_range (TLSPort x) \<and>
     int64_range (HTTPPort x) \<and> valid_utf8 (UserID x)"

lemma service_names [simp]:
  "match_field service_fields ''addr'' = Some ''addr''"
  "match_field service_fields ''clientsecret'' = Some ''clientsecret''"
  "match_field service_fields ''tlsport'' = Some ''tlsport''"
  "match_field service_fields ''httpport'' = Some ''httpport''"
  "match_field service_fields ''user'' = Some ''user''"
  by (simp_all add: match_field_def service_fields_def)

lemma valkyrie_names [simp]:
  "match_field [''Key'', ''Value''] ''Key'' = Some ''Key''"
  "match_field [''Key'', ''Value''] ''Value'' = Some ''Value''"
  by (simp_all add: match_field_def)

interpretation svc: json_codec enc_service dec_service wf_service
  by unfold_locales
    (simp_all add: enc_service_def dec_service_def get_field_def wf_service_def to_valid_id
      ascii_valid ascii_def)

interpretation val: json_codec enc_valkyrieObj dec_valkyrieObj "\<lambda>x. valid_utf8 (Key x) \<and> valid_utf8 (Value x)"
  by unfold_locales
    (simp_all add: enc_valkyrieObj_def dec_valkyrieObj_def get_field_def to_valid_id ascii_valid ascii_def)

lemma valkyrie_roundtrip:
  "valid_utf8 key \<Longrightarrow> wf_service x \<Longrightarrow> valkyrieDecode (valkyrieEncode key x) = Inr x"
  by (simp add: valkyrieDecode_def valkyrieEncode_def val.unmarshal_marshal ascii_valid b64_encode_ascii
      b64_decode_encode svc.unmarshal_marshal)

interpretation valkyrie: codec "valkyrieEncode key" valkyrieDecode "\<lambda>x. valid_utf8 key \<and> wf_service x" for key
  by unfold_locales (simp add: valkyrie_roundtrip)

lemma valkyrieDecode_no_panic: "valkyrieDecode b = Inl e \<Longrightarrow> \<not> is_panic e"
  by (auto simp: valkyrieDecode_def dest: json_unmarshal_no_panic split: sum.splits option.splits)

end
