(* ===== verification/ProxyProps.thy ===== *)
theory ProxyProps
  imports Proxy RedisMem
begin

text \<open>
  What the proxy manager promises: a map from domains to services in which a user sets and removes
  entries that are free or its own. The refinement is on a server that answers; the isolation of
  users holds whatever calls fail.
\<close>

section \<open>Operations and their specification\<close>

datatype proxy_op =
    OpAddProxy string string string int int
  | OpRemoveProxy string string
  | OpAddReverseProxy string string string
  | OpRemoveReverseProxy string string

fun run_proxy :: "'s proxy_Mgr \<Rightarrow> proxy_op \<Rightarrow> ('s, unit) go" where
  "run_proxy r (OpAddProxy u d addr port tls) = AddProxy r u d addr port tls"
| "run_proxy r (OpRemoveProxy u d) = RemoveProxy r u d"
| "run_proxy r (OpAddReverseProxy u d secret) = AddReverseProxy r u d secret"
| "run_proxy r (OpRemoveReverseProxy u d) = RemoveReverseProxy r u d"

fun proxy_user :: "proxy_op \<Rightarrow> string" where
  "proxy_user (OpAddProxy u d addr port tls) = u"
| "proxy_user (OpRemoveProxy u d) = u"
| "proxy_user (OpAddReverseProxy u d secret) = u"
| "proxy_user (OpRemoveReverseProxy u d) = u"

fun proxy_domain :: "proxy_op \<Rightarrow> string" where
  "proxy_domain (OpAddProxy u d addr port tls) = d"
| "proxy_domain (OpRemoveProxy u d) = d"
| "proxy_domain (OpAddReverseProxy u d secret) = d"
| "proxy_domain (OpRemoveReverseProxy u d) = d"

text \<open>The entry an operation leaves at its domain.\<close>

fun proxy_entry :: "proxy_op \<Rightarrow> service option" where
  "proxy_entry (OpAddProxy u d addr port tls) =
     Some \<lparr>Addr = addr, ClientSecret = [], TLSPort = tls, HTTPPort = port, UserID = u\<rparr>"
| "proxy_entry (OpRemoveProxy u d) = None"
| "proxy_entry (OpAddReverseProxy u d secret) =
     Some \<lparr>Addr = [], ClientSecret = secret, TLSPort = 0, HTTPPort = 0, UserID = u\<rparr>"
| "proxy_entry (OpRemoveReverseProxy u d) = None"

definition wf_proxy_op :: "proxy_op \<Rightarrow> bool" where
  "wf_proxy_op op1 \<longleftrightarrow> valid_utf8 (proxy_key (proxy_domain op1)) \<and>
     (case proxy_entry op1 of None \<Rightarrow> True | Some x \<Rightarrow> wf_service x)"

text \<open>Whether the operation is allowed, and the services after it.\<close>

definition spec_proxy ::
    "proxy_op \<Rightarrow> (string \<Rightarrow> service option) \<Rightarrow> bool \<times> (string \<Rightarrow> service option)" where
  "spec_proxy op1 m =
     (case m (proxy_domain op1) of
        Some x \<Rightarrow> if UserID x = proxy_user op1 then (True, m(proxy_domain op1 := proxy_entry op1)) else (False, m)
      | None \<Rightarrow> (True, m(proxy_domain op1 := proxy_entry op1)))"

definition service_of :: "keyspace \<Rightarrow> string \<Rightarrow> service option" where
  "service_of v d = (case plain v (proxy_key d) of None \<Rightarrow> None
     | Some b \<Rightarrow> (case valkyrieDecode b of Inl e \<Rightarrow> None | Inr x \<Rightarrow> Some x))"

definition wf_proxy :: "keyspace \<Rightarrow> bool" where
  "wf_proxy v \<longleftrightarrow> (\<forall>d. plain_key v (proxy_key d) \<and>
     (\<forall>b. plain v (proxy_key d) = Some b \<longrightarrow> (\<exists>x. valkyrieDecode b = Inr x)))"

lemma proxy_key_inject [simp]: "proxy_key d = proxy_key d' \<longleftrightarrow> d = d'"
  by (simp add: proxy_key_def)

lemma service_of_updates [simp]:
  "service_of (v(proxy_key d := None)) = (service_of v)(d := None)"
  "valkyrieDecode b = Inr x \<Longrightarrow> service_of (v(proxy_key d \<mapsto> RString b)) = (service_of v)(d \<mapsto> x)"
  by (auto simp: service_of_def fun_eq_iff)

lemma plain_key_upd [simp]:
  "plain_key (v(k := None)) k' \<longleftrightarrow> k' = k \<or> plain_key v k'"
  "plain_key (v(k \<mapsto> RString b)) k' \<longleftrightarrow> k' = k \<or> plain_key v k'"
  by (auto simp: plain_key_def)

lemma plain_upd_if: "plain (v(k := y)) k' = (if k' = k then plain (v(k := y)) k else plain v k')"
  by simp

lemma wf_proxy_updates:
  "wf_proxy v \<Longrightarrow> wf_proxy (v(proxy_key d := None))"
  "wf_proxy v \<Longrightarrow> valkyrieDecode b = Inr x \<Longrightarrow> wf_proxy (v(proxy_key d \<mapsto> RString b))"
proof -
  have other: "plain (v(proxy_key d := y)) (proxy_key d') =
      (if d' = d then plain (v(proxy_key d := y)) (proxy_key d) else plain v (proxy_key d'))" for y d'
    by simp
  show "wf_proxy v \<Longrightarrow> wf_proxy (v(proxy_key d := None))"
    by (auto simp: wf_proxy_def other)
  show "wf_proxy v \<Longrightarrow> valkyrieDecode b = Inr x \<Longrightarrow> wf_proxy (v(proxy_key d \<mapsto> RString b))"
    by (auto simp: wf_proxy_def other)
qed

section \<open>On a reliable server\<close>

context redis_reliable
begin

lemma up_canUseDomain:
  assumes "proxy_redis c = rd" "wf_proxy (view s)"
    and "\<And>s'. view s' = view s \<Longrightarrow>
      Q (Inr (case service_of (view s) d of None \<Rightarrow> True | Some x \<Rightarrow> UserID x = u)) s'"
  shows "wpM (canUseDomain c u d) Q s"
proof -
  have "\<exists>x. valkyrieDecode b = Inr x" if "plain (view s) (proxy_key d) = Some b" for b
    using assms(2) that by (simp add: wf_proxy_def)
  with assms(2,3) show ?thesis
    by (cases "plain (view s) (proxy_key d)")
      (force simp: canUseDomain_def wp assms(1) service_of_def wf_proxy_def intro!: up_GET)+
qed

lemma run_proxy_implements:
  assumes c: "proxy_redis c = rd" and wf: "wf_proxy (view s)" and op1: "wf_proxy_op op1"
  shows "wpM (run_proxy c op1) (\<lambda>r s'. wf_proxy (view s') \<and>
    spec_proxy op1 (service_of (view s)) = (r = Inr (), service_of (view s')) \<and>
    (\<forall>e. r = Inl e \<longrightarrow> errors_is e ProxyErrAuth)) s"
proof -
  have enc: "valkyrieDecode (valkyrieEncode (proxy_key d) x) = Inr x"
    if "valid_utf8 (proxy_key d)" "wf_service x" for d x
    using that by (rule valkyrie_roundtrip)
  show ?thesis
    using wf op1
    by (cases op1)
      (auto simp: AddProxy_def RemoveProxy_def AddReverseProxy_def RemoveReverseProxy_def wp Let_def c
        spec_proxy_def wf_proxy_op_def empty_service_def proxy_denied_def enc wf_proxy_updates
        intro!: up_canUseDomain up_SET up_DEL split: option.split)
qed

end

section \<open>Under faults\<close>

text \<open>User \<open>u\<close> has service \<open>x\<close> at domain \<open>d\<close>.\<close>

definition has_service :: "string \<Rightarrow> string \<Rightarrow> string \<Rightarrow> keyspace \<Rightarrow> bool" where
  "has_service u d b v \<longleftrightarrow> plain v (proxy_key d) = Some b \<and>
     (\<exists>x. valkyrieDecode b = Inr x \<and> UserID x = u)"

context redis_service
begin

lemma safe_canUseDomain:
  assumes "proxy_redis c = rd"
  shows "safe_call view P (canUseDomain c u d)"
  unfolding canUseDomain_def
  by (rule safe_handle) (auto simp: assms intro!: safe_calls safe_rules safe_lift dest: valkyrieDecode_no_panic)

lemma proxy_denied_no_panic: "\<not> is_panic (proxy_denied w d)"
  by (simp add: proxy_denied_def)

text \<open>An operation writes the key of its domain only.\<close>

lemma safe_run_proxy:
  assumes c: "proxy_redis c = rd"
    and "\<And>v b. P v \<Longrightarrow> P (v(proxy_key (proxy_domain op1) \<mapsto> RString b))"
    and "\<And>v. P v \<Longrightarrow> P (v(proxy_key (proxy_domain op1) := None))"
  shows "safe_call view P (run_proxy c op1)"
  using assms(2,3)
  by (cases op1)
    (auto simp: AddProxy_def RemoveProxy_def AddReverseProxy_def RemoveReverseProxy_def c
      intro!: safe_rules safe_canUseDomain safe_calls proxy_denied_no_panic)

lemma foreign_proxy:
  assumes c: "proxy_redis c = rd" and w: "proxy_user op1 \<noteq> u"
  shows "safe_call view (has_service u d b) (run_proxy c op1)"
proof (cases "proxy_domain op1 = d")
  case False
  then show ?thesis
    by (intro safe_run_proxy [OF c]) (auto simp: has_service_def)
next
  case True
  have denied: "wpM (canUseDomain c w d) Q s"
    if "has_service u d b (view s)" "w \<noteq> u" "\<And>s'. view s' = view s \<Longrightarrow> Q (Inr False) s'"
      "\<And>e s'. view s' = view s \<Longrightarrow> \<not> is_panic e \<Longrightarrow> Q (Inl e) s'" for w Q s
    using that by (auto simp: canUseDomain_def wp c has_service_def intro!: wp_GET)
  show ?thesis
    unfolding safe_call_def
    using True w
    by (cases op1)
      (auto simp: AddProxy_def RemoveProxy_def AddReverseProxy_def RemoveReverseProxy_def wp Let_def
        proxy_denied_no_panic intro!: denied)
qed

end

section \<open>Reachable states\<close>

inductive proxy_reach :: "'s proxy_Mgr \<Rightarrow> (proxy_op \<Rightarrow> bool) \<Rightarrow> 's \<Rightarrow> 's \<Rightarrow> bool"
  for c allowed s where
  start: "proxy_reach c allowed s s"
| step: "proxy_reach c allowed s s' \<Longrightarrow> allowed op1 \<Longrightarrow> run_proxy c op1 s' = (r, s'') \<Longrightarrow>
    proxy_reach c allowed s s''"

lemma proxy_reach_invariant:
  assumes "proxy_reach c allowed s s'" and "P (view s)"
    and "\<And>op1. allowed op1 \<Longrightarrow> safe_call view P (run_proxy c op1)"
  shows "P (view s')"
  using assms by induction (blast dest: safe_callD)+

section \<open>Properties\<close>

definition demo_proxy :: "mem proxy_Mgr" where
  "demo_proxy = proxy_New mem_redis"

definition demo_service :: service where
  "demo_service = \<lparr>Addr = ''10.0.0.1'', ClientSecret = [], TLSPort = 443, HTTPPort = 80, UserID = ''7''\<rparr>"

definition demo_services :: mem where
  "demo_services = [(proxy_key ''a.b.c'', MString (valkyrieEncode (proxy_key ''a.b.c'') demo_service))]"

lemma demo_service_read [simp]:
  "valkyrieDecode (valkyrieEncode (proxy_key ''a.b.c'') demo_service) = Inr demo_service"
  by (rule valkyrie_roundtrip)
    (simp_all add: demo_service_def wf_service_def ascii_valid ascii_def int64_range_def proxy_key_def)

lemma demo_services_plain [simp]:
  "plain (mem_view demo_services) k =
     (if k = proxy_key ''a.b.c'' then Some (valkyrieEncode (proxy_key ''a.b.c'') demo_service) else None)"
  by (simp add: demo_services_def mem_view_def plain_def)

lemma demo_services_wf: "wf_proxy (mem_view demo_services)"
proof -
  have "plain_key (mem_view demo_services) k" for k
    by (simp add: demo_services_def mem_view_def plain_key_def)
  then show ?thesis by (auto simp: wf_proxy_def)
qed

text \<open>What valkyrieEncode writes for a service is read back by valkyrieDecode as that service.\<close>

theorem valkyrie_read_back:
  "valid_utf8 key \<Longrightarrow> wf_service x \<Longrightarrow> valkyrieDecode (valkyrieEncode key x) = Inr x"
  by (rule valkyrie.dec_enc) simp

lemma valkyrie_read_back_witness:
  "valkyrieDecode (valkyrieEncode (proxy_key ''a.b.c'') demo_service) = Inr demo_service"
  by (rule valkyrie_read_back)
    (simp_all add: demo_service_def wf_service_def ascii_valid ascii_def int64_range_def proxy_key_def)

text \<open>
  C9: on a server that answers, every proxy operation implements its specification: it sets or
  removes the service of a domain that is free or the user's own, and otherwise fails with the
  authorisation error and changes nothing.
\<close>

theorem proxy_refines:
  assumes "redis_reliable (proxy_redis c) view" and "wf_proxy (view s)" and "wf_proxy_op op1"
    and "run_proxy c op1 s = (r, s')"
  shows "wf_proxy (view s') \<and>
    spec_proxy op1 (service_of (view s)) = (r = Inr (), service_of (view s')) \<and>
    (\<forall>e. r = Inl e \<longrightarrow> errors_is e ProxyErrAuth)"
  using wpM_D [OF redis_reliable.run_proxy_implements [OF assms(1) refl assms(2,3)] assms(4)] .

lemma proxy_refines_witness:
  "case run_proxy demo_proxy (OpAddReverseProxy ''8'' ''a.b.c'' ''s'') demo_services of (r, s') \<Rightarrow>
     r \<noteq> Inr () \<and> service_of (mem_view s') ''a.b.c'' = Some demo_service"
proof -
  let ?op = "OpAddReverseProxy ''8'' ''a.b.c'' ''s''"
  obtain r s' where run: "run_proxy demo_proxy ?op demo_services = (r, s')" by force
  have rel: "redis_reliable (proxy_redis demo_proxy) mem_view"
    by (simp add: demo_proxy_def proxy_New_def mem.redis_reliable_axioms)
  have wf: "wf_proxy_op ?op"
    by (simp add: wf_proxy_op_def wf_service_def proxy_key_def ascii_valid ascii_def int64_range_def)
  have "service_of (mem_view demo_services) ''a.b.c'' = Some demo_service" by (simp add: service_of_def)
  with proxy_refines [OF rel demo_services_wf wf run] run show ?thesis
    by (simp add: spec_proxy_def demo_service_def)
qed

text \<open>
  A user's service stays as it is along any sequence of proxy operations of other users,
  whatever redis calls fail.
\<close>

theorem proxy_isolated:
  assumes "redis_service (proxy_redis c) view" and "has_service u d b (view s)"
    and "proxy_reach c (\<lambda>op1. proxy_user op1 \<noteq> u) s s'"
  shows "has_service u d b (view s')"
  using assms(3,2)
  by (rule proxy_reach_invariant) (rule redis_service.foreign_proxy [OF assms(1) refl])

lemma proxy_isolated_witness:
  "has_service ''7'' ''a.b.c'' (valkyrieEncode (proxy_key ''a.b.c'') demo_service)
     (flaky_view (snd (run_proxy (proxy_New flaky_redis) (OpRemoveReverseProxy ''8'' ''a.b.c'')
       ([Fine, LoseReply], demo_services))))"
proof -
  let ?c = "proxy_New flaky_redis" and ?op = "OpRemoveReverseProxy ''8'' ''a.b.c''"
    and ?s = "([Fine, LoseReply], demo_services)"
  have reach: "proxy_reach ?c (\<lambda>op1. proxy_user op1 \<noteq> ''7'') ?s (snd (run_proxy ?c ?op ?s))"
    by (rule proxy_reach.step [OF proxy_reach.start, of _ ?op _ _ "fst (run_proxy ?c ?op ?s)"]) simp_all
  have serv: "redis_service (proxy_redis ?c) flaky_view"
    by (simp add: proxy_New_def flaky.redis_service_axioms)
  have "has_service ''7'' ''a.b.c'' (valkyrieEncode (proxy_key ''a.b.c'') demo_service) (flaky_view ?s)"
    by (simp add: has_service_def flaky_view_def) (simp add: demo_service_def)
  from proxy_isolated [OF serv this reach] show ?thesis .
qed

end
