(* ===== verification/Reservation.thy ===== *)
theory Reservation
  imports GoStrings
begin

text \<open>
  What the gateway shares with the provisioning engine and the explorer: reservations, results,
  workload types. The Go types belong to the packages zos and tfexplorer; the records have the
  fields the program sets or reads. Versioned storage and the JSON form of a reservation, which are
  the engine's, are the parameter \<open>store_codec\<close>; the reader it returns may be nil, and calling a
  method on a nil reader panics. The locale \<open>versioned_store\<close> says what the caches rely on, and
  \<open>reservation_cache\<close> is the contract that the engine's cache interface asks of them.
\<close>

type_synonym ReservationType = string

record Result =
  res_Type :: ReservationType
  res_Created :: int
  res_Data :: string
  res_Error :: string
  res_ID :: string
  res_State :: int
  res_Signature :: string

record reservation =
  ID :: string
  NodeID :: string
  User :: string
  Type :: ReservationType
  Created :: int
  Duration :: int
  Signature :: string
  Data :: string
  ToDelete :: bool
  Reference :: string
  Result :: Result
  Version :: int
  Tag :: "(string \<times> string) list"

section \<open>Versioned storage\<close>

text \<open>
  \<open>sc_header\<close>: what \<open>versioned.NewWriter\<close> writes first. \<open>sc_json\<close>: the JSON encoder.
  \<open>sc_open\<close>: the result of \<open>versioned.NewReader\<close>, a reader (the version and what is left) or nil,
  and an error or nil. \<open>sc_in_range\<close>: \<open>versioned.MustParseRange\<close>. \<open>sc_expired\<close>: the method
  \<open>Expired\<close> at the time of the call.
\<close>

record store_codec =
  sc_header :: "string \<Rightarrow> go_error + string"
  sc_json :: "reservation \<Rightarrow> go_error + string"
  sc_open :: "string \<Rightarrow> (string \<times> string) option \<times> go_error option"
  sc_not_versioned :: "go_error option \<Rightarrow> bool"
  sc_in_range :: "string \<Rightarrow> string \<Rightarrow> bool"
  sc_decode :: "string \<Rightarrow> go_error + reservation"
  sc_expired :: "reservation \<Rightarrow> bool"

definition reservationSchemaV1 :: string where
  "reservationSchemaV1 = ''1.0.0''"

definition reservationSchemaLastVersion :: string where
  "reservationSchemaLastVersion = reservationSchemaV1"

definition nil_dereference :: go_error where
  "nil_dereference = Panic ''invalid memory address or nil pointer dereference''"

text \<open>The bytes of a reservation in a cache: header and JSON.\<close>

definition encode_reservation :: "store_codec \<Rightarrow> reservation \<Rightarrow> go_error + string" where
  "encode_reservation sc r =
     (case sc_header sc reservationSchemaLastVersion of
        Inl e \<Rightarrow> Inl e
      | Inr h \<Rightarrow> (case sc_json sc r of Inl e \<Rightarrow> Inl e | Inr j \<Rightarrow> Inr (h @ j)))"

text \<open>Reading them back, the code both caches share: data with no version is of version 0.0.0.\<close>

definition decode_reservation :: "store_codec \<Rightarrow> string \<Rightarrow> go_error + reservation" where
  "decode_reservation sc b =
     (case sc_open sc b of (reader, err) \<Rightarrow>
      (case (if sc_not_versioned sc err then Some (''0.0.0'', b) else reader) of
         None \<Rightarrow> Inl nil_dereference
       | Some (ver, body) \<Rightarrow>
           if sc_in_range sc (''<='' @ reservationSchemaV1) ver then sc_decode sc body
           else Inl (NewErr (''unknown reservation object version ('' @ ver @ '')''))))"

text \<open>What is written is read back, but for the tag, which is not stored; the codec does not
  panic by itself.\<close>

locale versioned_store =
  fixes sc :: store_codec
  assumes written: "encode_reservation sc r = Inr b \<Longrightarrow>
      \<exists>body t. sc_open sc b = (Some (reservationSchemaLastVersion, body), None) \<and>
        sc_decode sc body = Inr (r\<lparr>Tag := t\<rparr>)"
    and versioned: "\<not> sc_not_versioned sc None"
    and last_in_range: "sc_in_range sc (''<='' @ reservationSchemaV1) reservationSchemaLastVersion"
    and decode_no_panic: "sc_decode sc body \<noteq> Inl (Panic t)"
    and json_no_panic: "encode_reservation sc r \<noteq> Inl (Panic t)"
begin

lemma decode_encode: "encode_reservation sc r = Inr b \<Longrightarrow> \<exists>t. decode_reservation sc b = Inr (r\<lparr>Tag := t\<rparr>)"
  using written versioned last_in_range by (fastforce simp: decode_reservation_def)

end

section \<open>The contract of a reservation cache\<close>

text \<open>
  The cache interface of the provisioning engine. \<open>stored s id\<close> is the reservation a cache state
  holds for an identifier. \<open>ok\<close> is what the cache needs of its state, \<open>storable\<close> what it needs of
  a reservation, \<open>seen\<close> the form in which a reservation comes back.
\<close>

locale reservation_cache =
  fixes add :: "reservation \<Rightarrow> ('s, unit) go"
    and remove :: "string \<Rightarrow> ('s, unit) go"
    and get :: "string \<Rightarrow> ('s, reservation) go"
    and exists :: "string \<Rightarrow> ('s, bool) go"
    and stored :: "'s \<Rightarrow> string \<Rightarrow> reservation option"
    and ok :: "'s \<Rightarrow> bool"
    and storable :: "reservation \<Rightarrow> bool"
    and name_ok :: "string \<Rightarrow> bool"
    and seen :: "reservation \<Rightarrow> reservation"
  assumes add_fresh: "ok s \<Longrightarrow> storable r \<Longrightarrow> name_ok (ID r) \<Longrightarrow> stored s (ID r) = None \<Longrightarrow>
      \<exists>s'. add r s = (Inr (), s') \<and> ok s' \<and> stored s' = (stored s)(ID r \<mapsto> seen r)"
    and remove_any: "ok s \<Longrightarrow> name_ok i \<Longrightarrow>
      \<exists>s'. remove i s = (Inr (), s') \<and> ok s' \<and> stored s' = (stored s)(i := None)"
    and get_found: "ok s \<Longrightarrow> name_ok i \<Longrightarrow> stored s i = Some r \<Longrightarrow> \<exists>s'. get i s = (Inr r, s')"
    and get_missing: "ok s \<Longrightarrow> name_ok i \<Longrightarrow> stored s i = None \<Longrightarrow> \<exists>e s'. get i s = (Inl e, s')"
    and exists_iff: "ok s \<Longrightarrow> name_ok i \<Longrightarrow> \<exists>s'. exists i s = (Inr (stored s i \<noteq> None), s')"
begin

lemma get_after_add:
  assumes "ok s" "storable r" "name_ok (ID r)" "stored s (ID r) = None" "add r s = (x, s1)"
  shows "x = Inr () \<and> fst (get (ID r) s1) = Inr (seen r) \<and> fst (exists (ID r) s1) = Inr True"
proof -
  obtain s' where "add r s = (Inr (), s')" and s': "ok s'" "stored s' = (stored s)(ID r \<mapsto> seen r)"
    using add_fresh [OF assms(1-4)] by blast
  with assms(5) have "x = Inr ()" "s1 = s'" by simp_all
  moreover have "\<exists>s2. get (ID r) s' = (Inr (seen r), s2)"
    using s' assms(3) by (intro get_found) simp_all
  moreover have "\<exists>s2. exists (ID r) s' = (Inr True, s2)"
    using exists_iff [OF s'(1) assms(3)] s'(2) by simp
  ultimately show ?thesis by auto
qed

lemma missing_after_remove:
  assumes "ok s" "name_ok i" "remove i s = (x, s1)"
  shows "x = Inr () \<and> (\<exists>e. fst (get i s1) = Inl e) \<and> fst (exists i s1) = Inr False"
proof -
  obtain s' where "remove i s = (Inr (), s')" and s': "ok s'" "stored s' = (stored s)(i := None)"
    using remove_any [OF assms(1,2)] by blast
  with assms(3) have "x = Inr ()" "s1 = s'" by simp_all
  moreover have "\<exists>e s2. get i s' = (Inl e, s2)"
    using s' assms(2) by (intro get_missing) simp_all
  moreover have "\<exists>s2. exists i s' = (Inr False, s2)"
    using exists_iff [OF s'(1) assms(2)] s'(2) by simp
  ultimately show ?thesis by auto
qed

end

end
