(* ===== verification/Cache.thy ===== *)
theory Cache
  imports Reservation Redis
begin

text \<open>
  Component cache, file cache/cache.go: the engine's reservations, kept in one redis hash from
  identifier to versioned JSON. The mutex of the struct serialises the calls, so each is one step
  here.
\<close>

definition reservationsKey :: string where
  "reservationsKey = ''tfgateway_reservations''"

definition cache_tag :: "(string \<times> string) list" where
  "cache_tag = [(''source'', ''tfgateway_cache'')]"

record 's RedisCache =
  cache_pool :: "'s redis"

definition NewRedis :: "'s redis \<Rightarrow> 's RedisCache" where
  "NewRedis pool = \<lparr>cache_pool = pool\<rparr>"

definition cache_get :: "store_codec \<Rightarrow> 's RedisCache \<Rightarrow> string \<Rightarrow> ('s, reservation) go" where
  "cache_get sc c i =
     bindM (do_HGET (cache_pool c) reservationsKey i) (\<lambda>b.
     bindM (liftM (decode_reservation sc b)) (\<lambda>r.
     returnM (r\<lparr>Tag := cache_tag\<rparr>)))"

definition Cache_Add :: "store_codec \<Rightarrow> 's RedisCache \<Rightarrow> reservation \<Rightarrow> ('s, unit) go" where
  "Cache_Add sc c r =
     bindM (liftM (encode_reservation sc r)) (\<lambda>b. do_HSET (cache_pool c) reservationsKey (ID r) b)"

definition Cache_Remove :: "'s RedisCache \<Rightarrow> string \<Rightarrow> ('s, unit) go" where
  "Cache_Remove c i = do_HDEL (cache_pool c) reservationsKey i"

definition Cache_Get :: "store_codec \<Rightarrow> 's RedisCache \<Rightarrow> string \<Rightarrow> ('s, reservation) go" where
  "Cache_Get sc c i = cache_get sc c i"

definition Cache_Exists :: "'s RedisCache \<Rightarrow> string \<Rightarrow> ('s, bool) go" where
  "Cache_Exists c i = do_HEXISTS (cache_pool c) reservationsKey i"

definition NetworkExists :: "'s RedisCache \<Rightarrow> string \<Rightarrow> ('s, bool) go" where
  "NetworkExists c i = returnM False"

definition Cache_Close :: "'s RedisCache \<Rightarrow> ('s, unit) go" where
  "Cache_Close c = returnM ()"

text \<open>\<open>Sync\<close> also changes the statser, the second part of the state; the error that its
  \<open>Increment\<close> returns is dropped.\<close>

definition on_cache :: "('s, 'a) go \<Rightarrow> ('s \<times> 't, 'a) go" where
  "on_cache m st = (case st of (s, t) \<Rightarrow> case m s of (r, s') \<Rightarrow> (r, (s', t)))"

definition on_statser :: "('t \<Rightarrow> 't) \<Rightarrow> ('s \<times> 't, unit) go" where
  "on_statser f st = (case st of (s, t) \<Rightarrow> (Inr (), (s, f t)))"

definition Sync :: "store_codec \<Rightarrow> (reservation \<Rightarrow> 't \<Rightarrow> 't) \<Rightarrow> 's RedisCache \<Rightarrow> ('s \<times> 't, unit) go" where
  "Sync sc increment c =
     bindM (on_cache (do_HKEYS (cache_pool c) reservationsKey)) (\<lambda>ids.
     forM ids (\<lambda>i.
       bindM (on_cache (cache_get sc c i)) (\<lambda>r. on_statser (increment r))))"

definition clear_id :: "store_codec \<Rightarrow> 's RedisCache \<Rightarrow> ReservationType list \<Rightarrow> string \<Rightarrow> ('s, unit) go" where
  "clear_id sc c types i =
     bindM (cache_get sc c i) (\<lambda>r.
     forM types (\<lambda>typ. if Type r = typ then Cache_Remove c i else returnM ()))"

definition ClearByType :: "store_codec \<Rightarrow> 's RedisCache \<Rightarrow> ReservationType list \<Rightarrow> ('s, unit) go" where
  "ClearByType sc c types =
     bindM (do_HKEYS (cache_pool c) reservationsKey) (\<lambda>ids. forM ids (clear_id sc c types))"

fun expired_ids :: "store_codec \<Rightarrow> 's RedisCache \<Rightarrow> string list \<Rightarrow> ('s, reservation list) go" where
  "expired_ids sc c [] = returnM []"
| "expired_ids sc c (i # ids) =
     bindM (cache_get sc c i) (\<lambda>r.
     bindM (expired_ids sc c ids) (\<lambda>rs.
     returnM (if sc_expired sc r then r\<lparr>Tag := cache_tag\<rparr> # rs else rs)))"

definition GetExpired :: "store_codec \<Rightarrow> 's RedisCache \<Rightarrow> ('s, reservation list) go" where
  "GetExpired sc c =
     bindM (do_HKEYS (cache_pool c) reservationsKey) (\<lambda>ids. expired_ids sc c ids)"

section \<open>The cached reservations\<close>

definition cached :: "store_codec \<Rightarrow> keyspace \<Rightarrow> string \<Rightarrow> reservation option" where
  "cached sc v i = (case hfield v reservationsKey i of None \<Rightarrow> None
     | Some b \<Rightarrow> (case decode_reservation sc b of Inl e \<Rightarrow> None | Inr r \<Rightarrow> Some (r\<lparr>Tag := cache_tag\<rparr>)))"

definition wf_cache :: "store_codec \<Rightarrow> keyspace \<Rightarrow> bool" where
  "wf_cache sc v \<longleftrightarrow> hash_key v reservationsKey \<and>
     (\<forall>i b. hfield v reservationsKey i = Some b \<longrightarrow> (\<exists>r. decode_reservation sc b = Inr r))"

lemma cached_del [simp]: "cached sc (ks_hdel v reservationsKey i) = (cached sc v)(i := None)"
  by (auto simp: cached_def fun_eq_iff)

lemma cached_set:
  "decode_reservation sc b = Inr r \<Longrightarrow>
   cached sc (ks_hset v reservationsKey i b) = (cached sc v)(i \<mapsto> r\<lparr>Tag := cache_tag\<rparr>)"
  by (auto simp: cached_def fun_eq_iff)

lemma wf_cache_del: "wf_cache sc v \<Longrightarrow> wf_cache sc (ks_hdel v reservationsKey i)"
  by (auto simp: wf_cache_def)

lemma wf_cache_set:
  "wf_cache sc v \<Longrightarrow> decode_reservation sc b = Inr r \<Longrightarrow> wf_cache sc (ks_hset v reservationsKey i b)"
  by (auto simp: wf_cache_def)

lemma wf_cache_hash: "wf_cache sc v \<Longrightarrow> hash_key v reservationsKey"
  by (simp add: wf_cache_def)

lemma wf_cache_dom: "wf_cache sc v \<Longrightarrow> hfield v reservationsKey i \<noteq> None \<longleftrightarrow> cached sc v i \<noteq> None"
proof (cases "hfield v reservationsKey i")
  case (Some b)
  assume "wf_cache sc v"
  with Some obtain r where "decode_reservation sc b = Inr r" by (auto simp: wf_cache_def)
  with Some show ?thesis by (simp add: cached_def)
qed (simp add: cached_def)

lemma wf_cache_doms: "wf_cache sc v \<Longrightarrow> dom (hfield v reservationsKey) = dom (cached sc v)"
  using wf_cache_dom by (fastforce simp: dom_def)

lemma cached_tagged: "cached sc v i = Some r \<Longrightarrow> r\<lparr>Tag := cache_tag\<rparr> = r"
  by (auto simp: cached_def split: option.splits sum.splits)

context redis_reliable
begin

lemma up_cache_get:
  assumes "cache_pool c = rd" "wf_cache sc (view s)"
    and "\<And>s'. view s' = view s \<Longrightarrow> Q (case cached sc (view s) i of None \<Rightarrow> Inl ErrNil | Some r \<Rightarrow> Inr r) s'"
  shows "wpM (cache_get sc c i) Q s"
proof (cases "hfield (view s) reservationsKey i")
  case None
  with assms(2,3) show ?thesis
    by (auto simp: cache_get_def wp assms(1) cached_def wf_cache_hash intro!: up_HGET)
next
  case (Some b)
  with assms(2) obtain r where "decode_reservation sc b = Inr r"
    by (auto simp: wf_cache_def)
  with Some assms(2,3) show ?thesis
    by (auto simp: cache_get_def wp assms(1) cached_def wf_cache_hash intro!: up_HGET)
qed

lemma up_clear_id:
  assumes "cache_pool c = rd" "wf_cache sc (view s)" "cached sc (view s) i = Some r"
  shows "wpM (clear_id sc c types i) (\<lambda>x s'. x = Inr () \<and> wf_cache sc (view s') \<and>
    cached sc (view s') = (cached sc (view s))(i := (if Type r \<in> set types then None else Some r))) s"
proof -
  have loop: "wpM (forM ts (\<lambda>typ. if Type r = typ then Cache_Remove c i else returnM ()))
      (\<lambda>x s'. x = Inr () \<and> wf_cache sc (view s') \<and>
        cached sc (view s') = (if Type r \<in> set ts then (cached sc (view s1))(i := None) else cached sc (view s1))) s1"
    if "wf_cache sc (view s1)" for ts s1
    using that
  proof (induction ts arbitrary: s1)
    case (Cons t ts)
    then show ?case
      by (auto simp: wp Cache_Remove_def assms(1) wf_cache_hash wf_cache_del
          intro!: up_HDEL wpM_mono [OF Cons.IH] ext)
  qed simp
  show ?thesis
    unfolding clear_id_def wpM_bindM
    using assms(2,3)
    by (intro up_cache_get assms(1)) (auto simp: fun_upd_idem intro!: wpM_mono [OF loop])
qed

lemma up_ClearByType:
  assumes c: "cache_pool c = rd" and wf: "wf_cache sc (view s)"
  shows "wpM (ClearByType sc c types) (\<lambda>x s'. x = Inr () \<and> wf_cache sc (view s') \<and>
    cached sc (view s') = (\<lambda>i. case cached sc (view s) i of None \<Rightarrow> None
      | Some r \<Rightarrow> if Type r \<in> set types then None else Some r)) s"
proof -
  let ?keep = "\<lambda>m i. case m i of None \<Rightarrow> None | Some r \<Rightarrow> if Type r \<in> set types then None else Some r"
  have loop: "wpM (forM ids (clear_id sc c types)) (\<lambda>x s'. x = Inr () \<and> wf_cache sc (view s') \<and>
      cached sc (view s') = (\<lambda>i. if i \<in> set ids then ?keep (cached sc (view s1)) i else cached sc (view s1) i)) s1"
    if "wf_cache sc (view s1)" "distinct ids" "set ids \<subseteq> dom (cached sc (view s1))" for ids s1
    using that
  proof (induction ids arbitrary: s1)
    case (Cons i ids)
    then obtain r where r: "cached sc (view s1) i = Some r" by auto
    show ?case
      unfolding forM.simps wpM_bindM
      using Cons.prems r
      by (intro wpM_mono [OF up_clear_id [OF c _ r]])
        (auto simp: fun_eq_iff intro!: wpM_mono [OF Cons.IH])
  qed (simp add: fun_eq_iff)
  show ?thesis
    using wf
    by (auto simp: ClearByType_def wp c wf_cache_hash wf_cache_doms
        intro!: up_HKEYS wpM_mono [OF loop]) (rule ext, auto split: option.split)
qed

lemma up_expired_ids:
  assumes c: "cache_pool c = rd"
  shows "wf_cache sc (view s) \<Longrightarrow> \<forall>i \<in> set ids. \<exists>r. cached sc (view s) i = Some r \<Longrightarrow>
    wpM (expired_ids sc c ids) (\<lambda>x s'. view s' = view s \<and>
      x = Inr (filter (sc_expired sc) (map (\<lambda>i. the (cached sc (view s) i)) ids))) s"
proof (induction ids arbitrary: s)
  case (Cons i ids)
  then obtain r where "cached sc (view s) i = Some r" by auto
  with Cons.prems show ?case
    by (auto simp: wp cached_tagged intro!: up_cache_get c wpM_mono [OF Cons.IH])
qed simp

lemma up_GetExpired:
  assumes c: "cache_pool c = rd" and wf: "wf_cache sc (view s)"
  shows "wpM (GetExpired sc c) (\<lambda>x s'. view s' = view s \<and>
    (\<exists>rs. x = Inr rs \<and> set rs = {r \<in> ran (cached sc (view s)). sc_expired sc r})) s"
  using wf
  by (auto simp: GetExpired_def wp c wf_cache_hash wf_cache_doms ran_def
      intro!: up_HKEYS wpM_mono [OF up_expired_ids [OF c]]) force+

text \<open>\<open>Sync\<close> runs on the pair of the server's state and the statser.\<close>

lemma up_on_cache:
  assumes "wpM m (\<lambda>r s'. Q r (s', snd st)) (fst st)"
  shows "wpM (on_cache m) Q st"
  using assms by (auto simp: wpM_def on_cache_def split: prod.splits)

lemma up_on_statser: "wpM (on_statser f) Q st = Q (Inr ()) (fst st, f (snd st))"
  by (simp add: wpM_def on_statser_def split: prod.split)

lemma up_Sync:
  assumes c: "cache_pool c = rd" and wf: "wf_cache sc (view (fst st))"
  shows "wpM (Sync sc increment c) (\<lambda>x st'. x = Inr () \<and> view (fst st') = view (fst st) \<and>
    (\<exists>ids. distinct ids \<and> set ids = dom (cached sc (view (fst st))) \<and>
      snd st' = fold (\<lambda>i. increment (the (cached sc (view (fst st)) i))) ids (snd st))) st"
proof -
  let ?v = "view (fst st)"
  have loop: "wpM (forM ids (\<lambda>i. bindM (on_cache (cache_get sc c i)) (\<lambda>r. on_statser (increment r))))
      (\<lambda>x st'. x = Inr () \<and> view (fst st') = ?v \<and>
        snd st' = fold (\<lambda>i. increment (the (cached sc ?v i))) ids (snd st1)) st1"
    if "view (fst st1) = ?v" "set ids \<subseteq> dom (cached sc ?v)" for ids st1
    using that
  proof (induction ids arbitrary: st1)
    case (Cons i ids)
    then obtain r where "cached sc ?v i = Some r" by auto
    with Cons.prems wf show ?case
      by (auto simp: wp up_on_statser intro!: up_on_cache up_cache_get c wpM_mono [OF Cons.IH])
  qed simp
  show ?thesis
    using wf
    by (auto simp: Sync_def wp c wf_cache_hash wf_cache_doms
        intro!: up_on_cache up_HKEYS wpM_mono [OF loop]) blast
qed

end

end
