(* ===== verification/CacheProps.thy ===== *)
theory CacheProps
  imports Cache RedisMem JsonCodec
begin

text \<open>
  The properties of the redis cache: it meets the contract of a reservation cache, and its bulk
  operations act on exactly the reservations they should. A concrete versioned store shows that
  what the cache asks of the engine's codec can hold.
\<close>

section \<open>A concrete versioned store\<close>

definition no_result :: Result where
  "no_result = \<lparr>res_Type = [], res_Created = 0, res_Data = [], res_Error = [], res_ID = [],
     res_State = 0, res_Signature = []\<rparr>"

definition plain_reservation :: "string \<Rightarrow> string \<Rightarrow> ReservationType \<Rightarrow> string \<Rightarrow> reservation" where
  "plain_reservation i u t d = \<lparr>ID = i, NodeID = [], User = u, Type = t, Created = 0, Duration = 0,
     Signature = [], Data = d, ToDelete = False, Reference = [], Result = no_result, Version = 0, Tag = []\<rparr>"

definition demo_storable :: "reservation \<Rightarrow> bool" where
  "demo_storable r \<longleftrightarrow> r\<lparr>Tag := []\<rparr> = plain_reservation (ID r) (User r) (Type r) (Data r) \<and>
     valid_utf8 (ID r) \<and> valid_utf8 (User r) \<and> valid_utf8 (Type r) \<and> valid_utf8 (Data r)"

definition demo_to_json :: "reservation \<Rightarrow> json" where
  "demo_to_json r = JArr [JStr (ID r), JStr (User r), JStr (Type r), JStr (Data r)]"

fun demo_of_json :: "json \<Rightarrow> reservation option" where
  "demo_of_json (JArr [JStr i, JStr u, JStr t, JStr d]) = Some (plain_reservation i u t d)"
| "demo_of_json _ = None"

definition demo_error :: go_error where
  "demo_error = Extern ''not versioned''"

definition demo_codec :: store_codec where
  "demo_codec = \<lparr>
     sc_header = (\<lambda>v. Inr (quote v)),
     sc_json = (\<lambda>r. if demo_storable r then Inr (json_marshal demo_to_json r) else Inl (Extern ''json'')),
     sc_open = (\<lambda>b. if HasPrefix b (quote ''1.0.0'') then (Some (''1.0.0'', drop (length (quote ''1.0.0'')) b), None)
                    else (None, Some demo_error)),
     sc_not_versioned = (\<lambda>err. err = Some demo_error),
     sc_in_range = (\<lambda>range ver. range = ''<=1.0.0'' \<and> ver \<in> {''0.0.0'', ''1.0.0''}),
     sc_decode = json_unmarshal demo_of_json,
     sc_expired = (\<lambda>r. Data r = ''old'') \<rparr>"

lemma demo_storable_json:
  "demo_storable r \<Longrightarrow> json_unmarshal demo_of_json (json_marshal demo_to_json r) = Inr (r\<lparr>Tag := []\<rparr>)"
  by (simp add: json_unmarshal_def json_marshal_def parse_print demo_to_json_def demo_storable_def to_valid_id
      del: print_json.simps)

interpretation demo: versioned_store demo_codec
proof
  show "\<exists>body t. sc_open demo_codec b = (Some (reservationSchemaLastVersion, body), None) \<and>
      sc_decode demo_codec body = Inr (r\<lparr>Tag := t\<rparr>)" if "encode_reservation demo_codec r = Inr b" for r b
    using that demo_storable_json [of r]
    by (auto simp: encode_reservation_def demo_codec_def reservationSchemaLastVersion_def
        reservationSchemaV1_def HasPrefix_def split: if_splits)
  show "sc_decode demo_codec body \<noteq> Inl (Panic t)" for body t
    using json_unmarshal_no_panic [of demo_of_json body "Panic t"] by (auto simp: demo_codec_def)
qed (simp_all add: demo_codec_def reservationSchemaLastVersion_def reservationSchemaV1_def encode_reservation_def)

section \<open>The cache meets its contract\<close>

definition storable :: "store_codec \<Rightarrow> reservation \<Rightarrow> bool" where
  "storable sc r \<longleftrightarrow> (\<exists>b. encode_reservation sc r = Inr b)"

definition tagged :: "reservation \<Rightarrow> reservation" where
  "tagged r = r\<lparr>Tag := cache_tag\<rparr>"

lemma wpM_run: "wpM m Q s \<Longrightarrow> \<exists>r s'. m s = (r, s') \<and> Q r s'"
  by (auto simp: wpM_def split: prod.splits)

lemma redis_cache_contract:
  assumes rd: "redis_reliable (cache_pool c) view" and sc: "versioned_store sc"
  shows "reservation_cache (Cache_Add sc c) (Cache_Remove c) (Cache_Get sc c) (Cache_Exists c)
    (\<lambda>s. cached sc (view s)) (\<lambda>s. wf_cache sc (view s)) (storable sc) (\<lambda>i. True) tagged"
proof
  note hset = redis_reliable.up_HSET [OF rd] and hdel = redis_reliable.up_HDEL [OF rd]
    and hexists = redis_reliable.up_HEXISTS [OF rd] and get = redis_reliable.up_cache_get [OF rd refl]
  fix s assume ok: "wf_cache sc (view s)"
  show "\<exists>s'. Cache_Add sc c r s = (Inr (), s') \<and> wf_cache sc (view s') \<and>
      cached sc (view s') = (cached sc (view s))(ID r \<mapsto> tagged r)" if "storable sc r" for r
  proof -
    obtain b t where b: "encode_reservation sc r = Inr b" "decode_reservation sc b = Inr (r\<lparr>Tag := t\<rparr>)"
      using \<open>storable sc r\<close> versioned_store.decode_encode [OF sc] unfolding storable_def by blast
    have "wpM (Cache_Add sc c r) (\<lambda>x s'. x = Inr () \<and> wf_cache sc (view s') \<and>
        cached sc (view s') = (cached sc (view s))(ID r \<mapsto> tagged r)) s"
      using ok b
      by (auto simp: Cache_Add_def wp wf_cache_hash wf_cache_set cached_set tagged_def intro!: hset)
    from wpM_run [OF this] show ?thesis by auto
  qed
  show "\<exists>s'. Cache_Remove c i s = (Inr (), s') \<and> wf_cache sc (view s') \<and>
      cached sc (view s') = (cached sc (view s))(i := None)" for i
  proof -
    have "wpM (Cache_Remove c i) (\<lambda>x s'. x = Inr () \<and> wf_cache sc (view s') \<and>
        cached sc (view s') = (cached sc (view s))(i := None)) s"
      using ok by (auto simp: Cache_Remove_def wf_cache_hash wf_cache_del intro!: hdel)
    from wpM_run [OF this] show ?thesis by auto
  qed
  have run: "wpM (Cache_Get sc c i) (\<lambda>x s'. x = (case cached sc (view s) i of None \<Rightarrow> Inl ErrNil | Some r \<Rightarrow> Inr r)) s" for i
    unfolding Cache_Get_def by (rule get [OF ok]) simp
  show "\<exists>s'. Cache_Get sc c i s = (Inr r, s')" if "cached sc (view s) i = Some r" for i r
    using wpM_run [OF run [of i]] that by auto
  show "\<exists>e s'. Cache_Get sc c i s = (Inl e, s')" if "cached sc (view s) i = None" for i
    using wpM_run [OF run [of i]] that by auto
  show "\<exists>s'. Cache_Exists c i s = (Inr (cached sc (view s) i \<noteq> None), s')" for i
  proof -
    have "wpM (Cache_Exists c i) (\<lambda>x s'. x = Inr (cached sc (view s) i \<noteq> None)) s"
      unfolding Cache_Exists_def wf_cache_dom [OF ok, symmetric]
      by (rule hexists) (simp_all add: wf_cache_hash [OF ok])
    from wpM_run [OF this] show ?thesis by auto
  qed
qed

text \<open>The cache of the gateway, on the in-memory server.\<close>

definition demo_cache :: "mem RedisCache" where
  "demo_cache = NewRedis mem_redis"

lemma demo_cache_reliable: "redis_reliable (cache_pool demo_cache) mem_view"
  by (simp add: demo_cache_def NewRedis_def mem.redis_reliable_axioms)

interpretation redis_cache: reservation_cache "Cache_Add demo_codec demo_cache" "Cache_Remove demo_cache"
    "Cache_Get demo_codec demo_cache" "Cache_Exists demo_cache" "\<lambda>s. cached demo_codec (mem_view s)"
    "\<lambda>s. wf_cache demo_codec (mem_view s)" "storable demo_codec" "\<lambda>i. True" tagged
  by (rule redis_cache_contract [OF demo_cache_reliable demo.versioned_store_axioms])

section \<open>Properties\<close>

text \<open>A cache with two reservations.\<close>

definition r_old :: reservation where
  "r_old = plain_reservation ''1-1'' ''7'' ''proxy'' ''old''"

definition r_new :: reservation where
  "r_new = plain_reservation ''2-1'' ''8'' ''gw'' ''new''"

definition stored_text :: "reservation \<Rightarrow> string" where
  "stored_text r = quote ''1.0.0'' @ json_marshal demo_to_json r"

definition cache_store :: mem where
  "cache_store = [(reservationsKey, MHash [(ID r_old, stored_text r_old), (ID r_new, stored_text r_new)])]"

lemma demo_reservations [simp]: "demo_storable r_old" "demo_storable r_new"
  by (simp_all add: demo_storable_def r_old_def r_new_def plain_reservation_def no_result_def ascii_valid ascii_def)

lemma demo_encode: "demo_storable r \<Longrightarrow> encode_reservation demo_codec r = Inr (stored_text r)"
  by (simp add: encode_reservation_def demo_codec_def reservationSchemaLastVersion_def reservationSchemaV1_def
      stored_text_def)

lemma demo_decode: "demo_storable r \<Longrightarrow> Tag r = [] \<Longrightarrow> decode_reservation demo_codec (stored_text r) = Inr r"
proof -
  assume r: "demo_storable r" "Tag r = []"
  then have "r\<lparr>Tag := []\<rparr> = r" by (cases r) simp
  with r demo_storable_json [OF r(1)] show ?thesis
    by (simp add: decode_reservation_def demo_codec_def stored_text_def HasPrefix_def reservationSchemaV1_def)
qed

lemma demo_tags [simp]: "Tag r_old = []" "Tag r_new = []"
  by (simp_all add: r_old_def r_new_def plain_reservation_def)

lemma demo_cached [simp]: "cached demo_codec (mem_view cache_store) = [''1-1'' \<mapsto> tagged r_old, ''2-1'' \<mapsto> tagged r_new]"
proof -
  have "ID r_old = ''1-1''" "ID r_new = ''2-1''"
    by (simp_all add: r_old_def r_new_def plain_reservation_def)
  then show ?thesis
    by (auto simp: cached_def cache_store_def mem_view_def hfield_def demo_decode tagged_def fun_eq_iff)
qed

lemma demo_cache_wf [simp]: "wf_cache demo_codec (mem_view cache_store)"
  by (auto simp: wf_cache_def cache_store_def mem_view_def hfield_def hash_key_def demo_decode split: if_splits)

text \<open>
  C24: a reservation added to the cache under a fresh identifier is what the cache returns for that
  identifier, with the cache's tag, and the cache reports that it exists.
\<close>

theorem cache_add_get:
  assumes "redis_reliable (cache_pool c) view" and "versioned_store sc"
    and "wf_cache sc (view s)" and "storable sc r" and "cached sc (view s) (ID r) = None"
    and "Cache_Add sc c r s = (x, s1)"
  shows "x = Inr () \<and> fst (Cache_Get sc c (ID r) s1) = Inr (tagged r) \<and>
    fst (Cache_Exists c (ID r) s1) = Inr True"
  using reservation_cache.get_after_add [OF redis_cache_contract [OF assms(1,2)] assms(3,4) TrueI assms(5,6)] .

lemma cache_add_get_witness:
  "fst (Cache_Get demo_codec demo_cache ''1-1'' (snd (Cache_Add demo_codec demo_cache r_old []))) = Inr (tagged r_old)"
proof -
  have "wf_cache demo_codec (mem_view [])"
    by (simp add: wf_cache_def mem_view_def hfield_def hash_key_def)
  moreover have "storable demo_codec r_old" by (simp add: storable_def demo_encode)
  moreover have "cached demo_codec (mem_view []) (ID r_old) = None"
    by (simp add: cached_def mem_view_def hfield_def)
  moreover have "ID r_old = ''1-1''" by (simp add: r_old_def plain_reservation_def)
  ultimately show ?thesis
    using cache_add_get [OF demo_cache_reliable demo.versioned_store_axioms, of "[]" r_old]
    by (cases "Cache_Add demo_codec demo_cache r_old []") simp
qed

text \<open>After Remove the reservation is gone: Get fails and Exists is false.\<close>

theorem cache_remove_gone:
  assumes "redis_reliable (cache_pool c) view" and "versioned_store sc"
    and "wf_cache sc (view s)" and "Cache_Remove c i s = (x, s1)"
  shows "x = Inr () \<and> (\<exists>e. fst (Cache_Get sc c i s1) = Inl e) \<and> fst (Cache_Exists c i s1) = Inr False"
  using reservation_cache.missing_after_remove [OF redis_cache_contract [OF assms(1,2)] assms(3) TrueI assms(4)] .

lemma cache_remove_gone_witness:
  "fst (Cache_Exists demo_cache ''1-1'' (snd (Cache_Remove demo_cache ''1-1'' cache_store))) = Inr False"
  using cache_remove_gone [OF demo_cache_reliable demo.versioned_store_axioms demo_cache_wf, of "''1-1''"]
  by (cases "Cache_Remove demo_cache ''1-1'' cache_store") simp

text \<open>C25: ClearByType deletes the reservations of the given types and no others.\<close>

theorem ClearByType_exact:
  assumes "redis_reliable (cache_pool c) view" and "wf_cache sc (view s)"
    and "ClearByType sc c types s = (x, s')"
  shows "x = Inr () \<and> cached sc (view s') =
    (\<lambda>i. case cached sc (view s) i of None \<Rightarrow> None
      | Some r \<Rightarrow> if Type r \<in> set types then None else Some r)"
  using wpM_D [OF redis_reliable.up_ClearByType [OF assms(1) refl assms(2)] assms(3)] by simp

lemma ClearByType_exact_witness:
  "cached demo_codec (mem_view (snd (ClearByType demo_codec demo_cache [''gw''] cache_store))) =
     [''1-1'' \<mapsto> tagged r_old]"
  using ClearByType_exact [OF demo_cache_reliable demo_cache_wf, of "[''gw'']"]
  by (cases "ClearByType demo_codec demo_cache [''gw''] cache_store")
    (auto simp: fun_eq_iff tagged_def r_old_def r_new_def plain_reservation_def)

text \<open>C26: GetExpired returns exactly the expired reservations and changes nothing.\<close>

theorem GetExpired_exact:
  assumes "redis_reliable (cache_pool c) view" and "wf_cache sc (view s)"
    and "GetExpired sc c s = (x, s')"
  shows "view s' = view s \<and> (\<exists>rs. x = Inr rs \<and> set rs = {r \<in> ran (cached sc (view s)). sc_expired sc r})"
  using wpM_D [OF redis_reliable.up_GetExpired [OF assms(1) refl assms(2)] assms(3)] .

lemma GetExpired_exact_witness:
  "\<exists>rs. fst (GetExpired demo_codec demo_cache cache_store) = Inr rs \<and> set rs = {tagged r_old}"
proof -
  have "sc_expired demo_codec (tagged r_old)" "\<not> sc_expired demo_codec (tagged r_new)"
    by (simp_all add: demo_codec_def tagged_def r_old_def r_new_def plain_reservation_def)
  then have "{r \<in> {tagged r_old, tagged r_new}. sc_expired demo_codec r} = {tagged r_old}" by auto
  moreover have "ran [''1-1'' \<mapsto> tagged r_old, ''2-1'' \<mapsto> tagged r_new] = {tagged r_old, tagged r_new}"
    by (simp add: ran_map_upd insert_commute)
  ultimately show ?thesis
    using GetExpired_exact [OF demo_cache_reliable demo_cache_wf
        surjective_pairing [of "GetExpired demo_codec demo_cache cache_store"]]
    by simp
qed

text \<open>Sync counts every cached reservation once, and nothing else.\<close>

theorem Sync_counts_all:
  assumes "redis_reliable (cache_pool c) view" and "wf_cache sc (view s)"
    and "Sync sc increment c (s, t) = (x, (s', t'))"
  shows "x = Inr () \<and> view s' = view s \<and>
    (\<exists>ids. distinct ids \<and> set ids = dom (cached sc (view s)) \<and>
      t' = fold (\<lambda>i. increment (the (cached sc (view s) i))) ids t)"
  using wpM_D [OF redis_reliable.up_Sync [OF assms(1) refl, of sc "(s, t)"] assms(3)] assms(2) by simp

lemma Sync_counts_all_witness:
  "snd (snd (Sync demo_codec (\<lambda>r n. Suc n) demo_cache (cache_store, 0))) = card {''1-1'', ''2-1''}"
proof -
  obtain x s' t' where run: "Sync demo_codec (\<lambda>r n. Suc n) demo_cache (cache_store, 0) = (x, (s', t'))"
    using prod_cases3 by blast
  obtain ids where "distinct ids" "set ids = dom (cached demo_codec (mem_view cache_store))"
    and t': "t' = fold (\<lambda>i n. Suc n) ids 0"
    using Sync_counts_all [OF demo_cache_reliable demo_cache_wf run] by auto
  moreover have "dom (cached demo_codec (mem_view cache_store)) = {''1-1'', ''2-1''}" by auto
  moreover have "fold (\<lambda>i n. Suc n) ids k = k + length ids" for k and ids :: "string list"
    by (induction ids arbitrary: k) simp_all
  ultimately show ?thesis by (simp add: run distinct_card [symmetric])
qed

text \<open>
  Reading an entry stops with a nil dereference exactly when the versioned reader returns no reader
  together with an error other than "not versioned". Whether it ever does is up to the package of the
  reader, whose code is not of this repository.
\<close>

lemma decode_nil_reader:
  assumes "versioned_store sc"
  shows "decode_reservation sc b = Inl nil_dereference \<longleftrightarrow>
    fst (sc_open sc b) = None \<and> \<not> sc_not_versioned sc (snd (sc_open sc b))"
  using versioned_store.decode_no_panic [OF assms]
  by (auto simp: decode_reservation_def nil_dereference_def split: prod.split option.split)

end
