(* ===== verification/MD5.thy ===== *)
theory MD5
  imports Utf8 "HOL-Library.Word"
begin

text \<open>
  The MD5 digest of the standard library (crypto/md5), which the pool of addresses hashes with:
  padding, the 64 steps on four 32-bit words, and little-endian input and output.
\<close>

unbundle bit_operations_syntax

type_synonym u32 = "32 word"

definition md5_table :: "u32 list" where
  "md5_table =
    [0xd76aa478, 0xe8c7b756, 0x242070db, 0xc1bdceee, 0xf57c0faf, 0x4787c62a,
     0xa8304613, 0xfd469501, 0x698098d8, 0x8b44f7af, 0xffff5bb1, 0x895cd7be,
     0x6b901122, 0xfd987193, 0xa679438e, 0x49b40821, 0xf61e2562, 0xc040b340,
     0x265e5a51, 0xe9b6c7aa, 0xd62f105d, 0x02441453, 0xd8a1e681, 0xe7d3fbc8,
     0x21e1cde6, 0xc33707d6, 0xf4d50d87, 0x455a14ed, 0xa9e3e905, 0xfcefa3f8,
     0x676f02d9, 0x8d2a4c8a, 0xfffa3942, 0x8771f681, 0x6d9d6122, 0xfde5380c,
     0xa4beea44, 0x4bdecfa9, 0xf6bb4b60, 0xbebfbc70, 0x289b7ec6, 0xeaa127fa,
     0xd4ef3085, 0x04881d05, 0xd9d4d039, 0xe6db99e5, 0x1fa27cf8, 0xc4ac5665,
     0xf4292244, 0x432aff97, 0xab9423a7, 0xfc93a039, 0x655b59c3, 0x8f0ccc92,
     0xffeff47d, 0x85845dd1, 0x6fa87e4f, 0xfe2ce6e0, 0xa3014314, 0x4e0811a1,
     0xf7537e82, 0xbd3af235, 0x2ad7d2bb, 0xeb86d391]"

definition md5_shifts :: "nat list" where
  "md5_shifts = [7, 12, 17, 22, 5, 9, 14, 20, 4, 11, 16, 23, 6, 10, 15, 21]"

text \<open>The little-endian bytes of a number, and words from bytes.\<close>

fun le_bytes :: "nat \<Rightarrow> int \<Rightarrow> string" where
  "le_bytes 0 n = []"
| "le_bytes (Suc k) n = char_of (n mod 256) # le_bytes k (n div 256)"

fun le_words :: "string \<Rightarrow> u32 list" where
  "le_words (a # b # c # d # s) =
     word_of_int (of_char a + 256 * (of_char b + 256 * (of_char c + 256 * of_char d))) # le_words s"
| "le_words _ = []"

definition md5_pad :: "string \<Rightarrow> string" where
  "md5_pad s = s @ CHR 0x80 # replicate ((119 - length s mod 64) mod 64) (CHR 0x00) @
     le_bytes 8 (8 * int (length s) mod 2 ^ 64)"

type_synonym md5_state = "u32 \<times> u32 \<times> u32 \<times> u32"

fun md5_step :: "u32 list \<Rightarrow> nat \<Rightarrow> md5_state \<Rightarrow> md5_state" where
  "md5_step m i (a, b, c, d) =
     (let (f, g) =
        (if i < 16 then ((b AND c) OR (NOT b AND d), i)
         else if i < 32 then ((d AND b) OR (NOT d AND c), (5 * i + 1) mod 16)
         else if i < 48 then (b XOR c XOR d, (3 * i + 5) mod 16)
         else (c XOR (b OR NOT d), (7 * i) mod 16));
        sum = a + f + md5_table ! i + m ! g
      in (d, b + word_rotl (md5_shifts ! (4 * (i div 16) + i mod 4)) sum, b, c))"

definition md5_block :: "u32 list \<Rightarrow> md5_state \<Rightarrow> md5_state" where
  "md5_block m st = (case (st, fold (md5_step m) [0..<64] st) of
     ((a, b, c, d), (a', b', c', d')) \<Rightarrow> (a + a', b + b', c + c', d + d'))"

fun md5_blocks :: "u32 list \<Rightarrow> md5_state \<Rightarrow> md5_state" where
  "md5_blocks [] st = st"
| "md5_blocks (w # ws) st = md5_blocks (drop 15 ws) (md5_block (take 16 (w # ws)) st)"

definition md5_Sum :: "string \<Rightarrow> string" where
  "md5_Sum s =
     (case md5_blocks (le_words (md5_pad s)) (0x67452301, 0xefcdab89, 0x98badcfe, 0x10325476) of
        (a, b, c, d) \<Rightarrow> concat (map (\<lambda>w. le_bytes 4 (uint w)) [a, b, c, d]))"

lemma length_le_bytes [simp]: "length (le_bytes k n) = k"
  by (induction k n rule: le_bytes.induct) simp_all

lemma length_md5 [simp]: "length (md5_Sum s) = 16"
  by (simp add: md5_Sum_def split: prod.split)

end
