(* ===== verification/ParseIP.thy ===== *)
theory ParseIP
  imports NetIP JsonCodec
begin

text \<open>
  \<open>net.ParseIP\<close> as the Go release of the module has it (leading zeros in IPv4 numbers are allowed),
  and the text form of an address in JSON. The nil address is the empty byte sequence; its text is
  empty, and the empty text is read back as nil.
\<close>

section \<open>Numbers\<close>

definition big :: nat where
  "big = 16777215"

text \<open>\<open>dtoi\<close> and \<open>xtoi\<close>: the value of the leading digits and the rest of the text; none when there
  are no digits or the number is too big.\<close>

definition dtoi :: "string \<Rightarrow> (nat \<times> string) option" where
  "dtoi s =
     (let ds = takeWhile is_digit s in
      if ds = [] \<or> big \<le> dec_val 0 ds then None else Some (dec_val 0 ds, dropWhile is_digit s))"

definition is_hex :: "char \<Rightarrow> bool" where
  "is_hex c \<longleftrightarrow> hex_val c \<noteq> None"

definition hex_number :: "string \<Rightarrow> nat" where
  "hex_number ds = foldl (\<lambda>n c. 16 * n + the (hex_val c)) 0 ds"

definition xtoi :: "string \<Rightarrow> (nat \<times> string) option" where
  "xtoi s =
     (let ds = takeWhile is_hex s in
      if ds = [] \<or> big \<le> hex_number ds then None else Some (hex_number ds, dropWhile is_hex s))"

section \<open>Addresses\<close>

fun v4_numbers :: "nat \<Rightarrow> bool \<Rightarrow> string \<Rightarrow> string option" where
  "v4_numbers 0 inner s = (if s = [] then Some [] else None)"
| "v4_numbers (Suc k) inner s =
     (case (if inner then (case s of [] \<Rightarrow> None | c # t \<Rightarrow> if c = CHR ''.'' then Some t else None)
            else Some s) of
        None \<Rightarrow> None
      | Some t \<Rightarrow>
          (case dtoi t of
             None \<Rightarrow> None
           | Some (n, rest) \<Rightarrow>
               if 255 < n then None else map_option (\<lambda>p. char_of n # p) (v4_numbers k True rest)))"

definition parseIPv4 :: "string \<Rightarrow> IP option" where
  "parseIPv4 s = map_option (\<lambda>p. v4_in_v6_prefix @ p) (v4_numbers 4 False s)"

text \<open>The loop of \<open>parseIPv6\<close>: the bytes so far, where the ellipsis stands among them, the rest of the
  text. It ends with all of the text used.\<close>

function v6_loop :: "string \<Rightarrow> nat option \<Rightarrow> string \<Rightarrow> (string \<times> nat option) option" where
  "v6_loop acc e s =
     (if 16 \<le> length acc then (if s = [] then Some (acc, e) else None)
      else
        (case xtoi s of
           None \<Rightarrow> None
         | Some (n, rest) \<Rightarrow>
             if 65535 < n then None
             else if rest \<noteq> [] \<and> hd rest = CHR ''.'' then
               if (e = None \<and> length acc \<noteq> 12) \<or> 16 < length acc + 4 then None
               else map_option (\<lambda>p. (acc @ drop 12 p, e)) (parseIPv4 s)
             else
               let acc' = acc @ [char_of (n div 256), char_of (n mod 256)] in
               if rest = [] then Some (acc', e)
               else if hd rest \<noteq> CHR '':'' \<or> length rest = 1 then None
               else if hd (tl rest) = CHR '':'' then
                 if e \<noteq> None then None
                 else if tl (tl rest) = [] then Some (acc', Some (length acc'))
                 else v6_loop acc' (Some (length acc')) (tl (tl rest))
               else v6_loop acc' e (tl rest)))"
  by pat_completeness auto
termination
  by (relation "measure (\<lambda>(acc, e, s). 16 - length acc)") auto

declare v6_loop.simps [simp del]

definition expand :: "string \<times> nat option \<Rightarrow> IP option" where
  "expand r = (case r of (acc, e) \<Rightarrow>
     if length acc < 16 then
       (case e of None \<Rightarrow> None
        | Some k \<Rightarrow> Some (take k acc @ replicate (16 - length acc) (CHR 0x00) @ drop k acc))
     else if e \<noteq> None then None else Some acc)"

definition parseIPv6 :: "string \<Rightarrow> IP option" where
  "parseIPv6 s =
     (if HasPrefix s ''::'' then
        if drop 2 s = [] then Some (replicate 16 (CHR 0x00))
        else (case v6_loop [] (Some 0) (drop 2 s) of None \<Rightarrow> None | Some r \<Rightarrow> expand r)
      else (case v6_loop [] None s of None \<Rightarrow> None | Some r \<Rightarrow> expand r))"

text \<open>\<open>net.ParseIP\<close>: nil when the text is not an address.\<close>

definition ParseIP :: "string \<Rightarrow> IP" where
  "ParseIP s =
     (case find (\<lambda>c. c = CHR ''.'' \<or> c = CHR '':'') s of
        None \<Rightarrow> []
      | Some c \<Rightarrow>
          (case (if c = CHR ''.'' then parseIPv4 s else parseIPv6 s) of None \<Rightarrow> [] | Some ip \<Rightarrow> ip))"

section \<open>JSON\<close>

text \<open>\<open>IP.MarshalText\<close> and \<open>IP.UnmarshalText\<close>.\<close>

definition enc_IP :: "IP \<Rightarrow> json option" where
  "enc_IP ip =
     (if length ip = 0 then Some (JStr [])
      else if length ip \<noteq> 4 \<and> length ip \<noteq> 16 then None
      else Some (JStr (IP_String ip)))"

fun dec_IP :: "json \<Rightarrow> IP option" where
  "dec_IP JNull = Some []"
| "dec_IP (JStr s) = (if s = [] then Some [] else if ParseIP s = [] then None else Some (ParseIP s))"
| "dec_IP _ = None"

section \<open>Facts\<close>

lemma dtoi_decimal:
  assumes "n < big" and "rest = [] \<or> \<not> is_digit (hd rest)"
  shows "dtoi (decimal n @ rest) = Some (n, rest)"
proof -
  have "takeWhile is_digit (decimal n @ rest) = decimal n" "dropWhile is_digit (decimal n @ rest) = rest"
    using dec_digits assms(2) by (cases rest; fastforce simp: takeWhile_append dropWhile_append)+
  with assms(1) show ?thesis by (simp add: dtoi_def)
qed

lemma dotted_four: "dotted [a, b, c, d] =
  decimal (byte a) @ ''.'' @ decimal (byte b) @ ''.'' @ decimal (byte c) @ ''.'' @ decimal (byte d)"
  by simp

lemma byte_small: "byte c < big" "\<not> 255 < byte c"
proof -
  have "byte c < 256" by simp
  then show "byte c < big" "\<not> 255 < byte c" by (simp_all add: big_def del: nat_of_char_less_256)
qed

lemma parseIPv4_dotted: "parseIPv4 (dotted [a, b, c, d]) = Some (v4_in_v6_prefix @ [a, b, c, d])"
  using byte_small
  by (simp add: parseIPv4_def numeral_eq_Suc dtoi_decimal [where rest = "[]", simplified] dtoi_decimal
      is_digit_def del: dotted.simps add: dotted_four)

lemma ParseIP_dotted [simp]: "ParseIP (dotted [a, b, c, d]) = IPv4 a b c d"
proof -
  have first: "find (\<lambda>c. c = CHR ''.'' \<or> c = CHR '':'') (decimal n @ CHR ''.'' # rest) = Some (CHR ''.'')" for n rest
  proof -
    have "find (\<lambda>c. c = CHR ''.'' \<or> c = CHR '':'') (xs @ CHR ''.'' # rest) = Some (CHR ''.'')"
      if "\<forall>c \<in> set xs. is_digit c" for xs
      using that by (induction xs) (auto simp: is_digit_def)
    then show ?thesis using dec_digits by blast
  qed
  show ?thesis
    using first [of "byte a"] parseIPv4_dotted [of a b c d]
    by (simp add: ParseIP_def dotted_four IPv4_def del: dotted.simps)
qed

text \<open>A text with neither a dot nor a colon is no address.\<close>

lemma ParseIP_plain: "CHR ''.'' \<notin> set s \<Longrightarrow> CHR '':'' \<notin> set s \<Longrightarrow> ParseIP s = []"
proof -
  assume "CHR ''.'' \<notin> set s" "CHR '':'' \<notin> set s"
  then have "find (\<lambda>c. c = CHR ''.'' \<or> c = CHR '':'') s = None" by (auto simp: find_None_iff)
  then show ?thesis by (simp add: ParseIP_def)
qed

lemma v4_numbers_length: "v4_numbers k i s = Some p \<Longrightarrow> length p = k"
  by (induction k i s arbitrary: p rule: v4_numbers.induct)
    (auto split: if_splits option.splits list.splits prod.splits)

lemma parseIPv4_length: "parseIPv4 s = Some ip \<Longrightarrow> length ip = 16"
  by (auto simp: parseIPv4_def v4_in_v6_prefix_def dest: v4_numbers_length)

definition within :: "nat option \<Rightarrow> nat \<Rightarrow> bool" where
  "within e n \<longleftrightarrow> (\<forall>k. e = Some k \<longrightarrow> k \<le> n)"

lemma within_simps [simp]: "within None n" "within (Some k) n \<longleftrightarrow> k \<le> n"
  by (simp_all add: within_def)

lemma within_mono: "within e n \<Longrightarrow> n \<le> m \<Longrightarrow> within e m"
  by (fastforce simp: within_def)

lemma v6_loop_inv:
  "v6_loop acc e s = Some (acc', e') \<Longrightarrow> length acc \<le> 16 \<Longrightarrow> even (length acc) \<Longrightarrow>
   within e (length acc) \<Longrightarrow> length acc' \<le> 16 \<and> within e' (length acc')"
proof (induction acc e s rule: v6_loop.induct)
  case (1 acc e s)
  have small: "length acc < 16 \<Longrightarrow> length acc + 2 \<le> 16" using 1(5) by presburger
  show ?case
  proof (cases "16 \<le> length acc")
    case True
    with 1(3-) show ?thesis by (subst (asm) (1) v6_loop.simps) (auto split: if_splits)
  next
    case False
    with 1(3) obtain n rest where x: "xtoi s = Some (n, rest)"
      by (subst (asm) (1) v6_loop.simps) (auto split: option.splits)
    from False small have len: "length acc + 2 \<le> 16" by simp
    show ?thesis
      using 1(3-) False x len 1(1)[OF False x refl] 1(2)[OF False x refl]
      apply (subst (asm) (1) v6_loop.simps)
      by (auto simp: Let_def within_mono dest!: parseIPv4_length split: if_splits)
  qed
qed

lemma expand_length: "length acc \<le> 16 \<Longrightarrow> within e (length acc) \<Longrightarrow>
  expand (acc, e) = Some ip \<Longrightarrow> length ip = 16"
  by (auto simp: expand_def split: if_splits option.splits)

text \<open>An address is 16 bytes long, or nil.\<close>

lemma ParseIP_length: "ParseIP s = [] \<or> length (ParseIP s) = 16"
proof -
  have loop: "length ip = 16" if "v6_loop [] e t = Some r" "expand r = Some ip" "within e 0" for e t r ip
    using that v6_loop_inv [of "[]" e t "fst r" "snd r"] expand_length [of "fst r" "snd r" ip]
    by (cases r) auto
  have "length ip = 16" if "parseIPv6 s = Some ip" for ip
    using that loop [of "Some 0" "drop 2 s" _ ip] loop [of None s _ ip]
    by (auto simp: parseIPv6_def split: if_splits option.splits)
  then show ?thesis
    by (auto simp: ParseIP_def dest: parseIPv4_length split: option.split)
qed

end
