(* ===== verification/IPText.thy ===== *)
theory IPText
  imports ParseIP
begin

text \<open>
  The text of an address is read back as the address: \<open>net.ParseIP\<close> inverts \<open>IP.String\<close> on IPv6
  addresses, whose text leaves out the longest run of zero groups, and on IPv4 addresses.
\<close>

section \<open>Hexadecimal groups\<close>

lemma hex_number_snoc: "hex_number (ds @ [c]) = 16 * hex_number ds + the (hex_val c)"
  by (simp add: hex_number_def)

lemma hex_number_digits [simp]: "hex_number (hex_digits n) = n"
proof (induction n rule: hex_digits.induct)
  case (1 n)
  then show ?case
    by (subst hex_digits.simps) (auto simp: hex_number_snoc, simp add: hex_number_def)
qed

lemma is_hex_char [simp]: "d < 16 \<Longrightarrow> is_hex (hex_char d)"
  by (simp add: is_hex_def)

lemma hex_digits_hex [simp]: "list_all is_hex (hex_digits n)"
proof (induction n rule: hex_digits.induct)
  case (1 n)
  then show ?case by (subst hex_digits.simps) simp
qed

lemma hex_digits_nonempty [simp]: "hex_digits n \<noteq> []"
  by (subst hex_digits.simps) simp

lemma hex_digits_head: "is_hex (hd (hex_digits n))"
  using hex_digits_hex [of n] hex_digits_nonempty [of n] by (auto simp: list_all_iff simp del: hex_digits_hex)

lemma xtoi_digits:
  assumes "n < 65536" and "rest = [] \<or> \<not> is_hex (hd rest)"
  shows "xtoi (hex_digits n @ rest) = Some (n, rest)"
proof -
  have "takeWhile is_hex (hex_digits n @ rest) = hex_digits n" "dropWhile is_hex (hex_digits n @ rest) = rest"
    using hex_digits_hex [of n] assms(2)
    by (cases rest; simp add: list_all_iff takeWhile_append dropWhile_append)+
  with assms(1) show ?thesis by (simp add: xtoi_def big_def)
qed

lemma colon_no_hex [simp]: "\<not> is_hex (CHR '':'')" "\<not> is_hex (CHR ''.'')"
  by (simp_all add: is_hex_def hex_val_def)

section \<open>Joined groups\<close>

definition group_bytes :: "nat list \<Rightarrow> string" where
  "group_bytes ws = concat (map (\<lambda>w. [char_of (w div 256), char_of (w mod 256)]) ws)"

lemma group_bytes_simps [simp]:
  "group_bytes [] = []"
  "group_bytes (w # ws) = char_of (w div 256) # char_of (w mod 256) # group_bytes ws"
  "group_bytes (xs @ ys) = group_bytes xs @ group_bytes ys"
  by (simp_all add: group_bytes_def)

lemma length_group_bytes [simp]: "length (group_bytes ws) = 2 * length ws"
  by (induction ws) simp_all

lemma group_bytes_zero [simp]: "group_bytes (replicate n 0) = replicate (2 * n) (CHR 0x00)"
  by (induction n) (simp_all add: char_of_def)

lemma groups_bytes: "even (length ip) \<Longrightarrow> group_bytes (groups ip) = ip"
proof (induction ip rule: groups.induct)
  case (1 a b s)
  moreover have "byte b < 256" by simp
  ultimately show ?case by (simp del: nat_of_char_less_256)
qed simp_all

lemma groups_small: "w \<in> set (groups ip) \<Longrightarrow> w < 65536"
proof (induction ip rule: groups.induct)
  case (1 a b s)
  moreover have "byte a < 256" "byte b < 256" by simp_all
  ultimately show ?case by (auto simp del: nat_of_char_less_256)
qed simp_all

lemma length_groups: "even (length ip) \<Longrightarrow> 2 * length (groups ip) = length ip"
  by (induction ip rule: groups.induct) simp_all

definition colons :: "nat list \<Rightarrow> string" where
  "colons ws = Join (map hex_digits ws) '':''"

definition more_colons :: "nat list \<Rightarrow> string" where
  "more_colons ws = concat (map (\<lambda>w. CHR '':'' # hex_digits w) ws)"

lemma colons_Cons: "colons (w # ws) = hex_digits w @ more_colons ws"
proof (induction ws arbitrary: w)
  case (Cons v ws)
  then show ?case by (simp add: colons_def more_colons_def)
qed (simp add: colons_def more_colons_def)

lemma more_colons_simps [simp]:
  "more_colons [] = []" "more_colons (w # ws) = CHR '':'' # colons (w # ws)"
  by (simp_all add: colons_Cons) (simp_all add: more_colons_def)

lemma colons_Nil [simp]: "colons [] = []"
  by (simp add: colons_def)

lemma colons_head: "ws \<noteq> [] \<Longrightarrow> colons ws \<noteq> [] \<and> is_hex (hd (colons ws))"
  by (cases ws) (auto simp: colons_Cons hd_append hex_digits_head)

text \<open>One group of the text, then what follows.\<close>

lemma v6_group:
  assumes "length acc < 16" "w < 65536" "rest = [] \<or> hd rest = CHR '':''"
  shows "v6_loop acc e (hex_digits w @ rest) =
    (let acc' = acc @ group_bytes [w] in
     if rest = [] then Some (acc', e)
     else if length rest = 1 then None
     else if hd (tl rest) = CHR '':'' then
       if e \<noteq> None then None
       else if tl (tl rest) = [] then Some (acc', Some (length acc'))
       else v6_loop acc' (Some (length acc')) (tl (tl rest))
     else v6_loop acc' e (tl rest))"
proof -
  have "xtoi (hex_digits w @ rest) = Some (w, rest)"
    using assms by (intro xtoi_digits) auto
  with assms show ?thesis
    by (subst v6_loop.simps) (auto simp: Let_def)
qed

lemma v6_tail:
  assumes "ws \<noteq> []" "list_all (\<lambda>w. w < 65536) ws" "length acc + 2 * length ws \<le> 16"
  shows "v6_loop acc e (colons ws) = Some (acc @ group_bytes ws, e)"
  using assms
proof (induction ws arbitrary: acc)
  case (Cons w ws)
  show ?case
  proof (cases ws)
    case Nil
    with Cons.prems show ?thesis using v6_group [of acc w "[]" e] by (simp add: colons_Cons)
  next
    case (Cons v vs)
    then have head: "colons ws \<noteq> []" "hd (colons ws) \<noteq> CHR '':''"
      using colons_head [of ws] by auto
    have "v6_loop acc e (colons (w # ws)) = v6_loop (acc @ group_bytes [w]) e (colons ws)"
      using Cons.prems head v6_group [of acc w "more_colons ws" e] \<open>ws = v # vs\<close>
      by (simp add: colons_Cons [of w])
    with Cons.IH [of "acc @ group_bytes [w]"] Cons.prems \<open>ws = v # vs\<close> show ?thesis by simp
  qed
qed simp

lemma v6_ellipsis:
  assumes "ws \<noteq> []" "list_all (\<lambda>w. w < 65536) (ws @ vs)" "length acc + 2 * length ws + 2 * length vs \<le> 16"
  shows "v6_loop acc None (colons ws @ ''::'' @ colons vs) =
    Some (acc @ group_bytes (ws @ vs), Some (length acc + 2 * length ws))"
  using assms
proof (induction ws arbitrary: acc)
  case (Cons w ws)
  show ?case
  proof (cases ws)
    case Nil
    have "v6_loop acc None (colons [w] @ ''::'' @ colons vs) =
        (if vs = [] then Some (acc @ group_bytes [w], Some (length acc + 2))
         else v6_loop (acc @ group_bytes [w]) (Some (length acc + 2)) (colons vs))"
      using Cons.prems colons_head [of vs] v6_group [of acc w "''::'' @ colons vs" None]
      by (auto simp: colons_Cons)
    with Nil Cons.prems show ?thesis by (auto simp: v6_tail)
  next
    case (Cons v us)
    then have head: "colons ws \<noteq> []" "hd (colons ws) \<noteq> CHR '':''"
      using colons_head [of ws] by auto
    have "v6_loop acc None (colons (w # ws) @ ''::'' @ colons vs) =
        v6_loop (acc @ group_bytes [w]) None (colons ws @ ''::'' @ colons vs)"
      using Cons.prems head v6_group [of acc w "more_colons ws @ ''::'' @ colons vs" None] \<open>ws = v # us\<close>
      by (simp add: colons_Cons [of w])
    with Cons.IH [of "acc @ group_bytes [w]"] Cons.prems \<open>ws = v # us\<close> show ?thesis by simp
  qed
qed simp

section \<open>Printed groups\<close>

lemma more_colons_append: "more_colons (xs @ ys) = more_colons xs @ more_colons ys"
  by (simp add: more_colons_def)

text \<open>Past the elided groups, or when none are, one group follows the other.\<close>

lemma print_rest:
  assumes "snd e = 0 \<or> fst e < i" "0 < i"
  shows "print_groups gs i e = more_colons (drop i gs)"
  using assms
proof (induction "length gs - i" arbitrary: i)
  case 0
  then show ?case by (subst print_groups.simps) simp
next
  case (Suc n)
  then have "i < length gs" by simp
  moreover from this have "drop i gs = gs ! i # drop (Suc i) gs" by (simp add: Cons_nth_drop_Suc)
  moreover have "print_groups gs (Suc i) e = more_colons (drop (Suc i) gs)"
    using Suc(2-) by (intro Suc(1)) auto
  ultimately show ?case
    using Suc.prems by (subst print_groups.simps) (auto simp: more_colons_def)
qed

lemma print_plain: "snd e = 0 \<Longrightarrow> print_groups gs 0 e = colons gs"
  using print_rest [of e "Suc 0" gs]
  by (cases gs) (subst print_groups.simps; simp add: colons_Cons)+

lemma print_ellipsis:
  assumes "0 < l" "i \<le> s" "s + l \<le> length gs"
  shows "print_groups gs i (s, l) =
    (if i < s then (if 0 < i then '':'' else []) @ colons (drop i (take s gs)) else []) @
    ''::'' @ colons (drop (s + l) gs)"
  using assms
proof (induction "s - i" arbitrary: i)
  case 0
  then have i: "i = s" "s < length gs" by simp_all
  show ?case
  proof (cases "s + l = length gs")
    case True
    with i 0 show ?thesis by (subst print_groups.simps) simp
  next
    case False
    with 0 have "s + l < length gs" by simp
    moreover from this have "drop (s + l) gs = gs ! (s + l) # drop (Suc (s + l)) gs"
      by (simp add: Cons_nth_drop_Suc)
    moreover have "print_groups gs (Suc (s + l)) (s, l) = more_colons (drop (Suc (s + l)) gs)"
      by (rule print_rest) simp_all
    ultimately show ?thesis
      using i 0 by (subst print_groups.simps) (simp add: colons_Cons Let_def)
  qed
next
  case (Suc n)
  then have i: "i < s" "i < length gs" "i < length (take s gs)" by simp_all
  have cons: "drop i (take s gs) = gs ! i # drop (Suc i) (take s gs)"
    using i Cons_nth_drop_Suc [OF i(3)] by simp
  have "print_groups gs (Suc i) (s, l) =
      (if Suc i < s then '':'' @ colons (drop (Suc i) (take s gs)) else []) @ ''::'' @ colons (drop (s + l) gs)"
    using Suc(2-) i by (subst Suc(1)) auto
  moreover have "(if Suc i < s then '':'' @ colons (drop (Suc i) (take s gs)) else []) =
      more_colons (drop (Suc i) (take s gs))"
  proof (cases "Suc i < s")
    case True
    with i Suc.prems have "drop (Suc i) (take s gs) \<noteq> []" by simp
    with True show ?thesis by (cases "drop (Suc i) (take s gs)") simp_all
  qed simp
  ultimately show ?case
    using i by (subst print_groups.simps) (simp add: cons colons_Cons)
qed

text \<open>The elided groups are zero.\<close>

definition zero_range :: "nat list \<Rightarrow> nat \<times> nat \<Rightarrow> bool" where
  "zero_range gs e \<longleftrightarrow> take (snd e) (drop (fst e) gs) = replicate (snd e) 0 \<and>
     (0 < snd e \<longrightarrow> fst e + snd e \<le> length gs)"

lemma zero_run_range: "zero_range gs (i, zero_run gs i)"
proof -
  let ?t = "takeWhile (\<lambda>g. g = 0) (drop i gs)"
  have "take (length ?t) (drop i gs) = ?t"
    by (simp add: takeWhile_eq_take [symmetric])
  moreover have "?t = replicate (length ?t) 0"
    by (rule replicate_eqI) (auto dest: set_takeWhileD)
  moreover have "length ?t \<le> length gs - i"
    using length_takeWhile_le [of "\<lambda>g. g = 0" "drop i gs"] by simp
  moreover have "0 < length ?t \<Longrightarrow> i < length gs" by (cases "i < length gs") auto
  ultimately show ?thesis by (auto simp: zero_range_def zero_run_def)
qed

lemma best_run_range: "zero_range gs best \<Longrightarrow> zero_range gs (best_run gs i best)"
proof (induction gs i best rule: best_run.induct)
  case (1 gs i best)
  then show ?case
    using zero_run_range [of gs i] by (subst best_run.simps) (auto simp: Let_def)
qed

lemma elision_range: "zero_range gs (elision gs)"
  using best_run_range [of gs "(0, 0)" 0] by (auto simp: elision_def Let_def zero_range_def)

section \<open>Round trip\<close>

lemma expand_at: "length acc < 16 \<Longrightarrow>
  expand (acc, Some k) = Some (take k acc @ replicate (16 - length acc) (CHR 0x00) @ drop k acc)"
  by (simp add: expand_def)

lemma expand_ellipsis:
  assumes "length gs = 8" "0 < l" "zero_range gs (s, l)"
  shows "expand (group_bytes (take s gs @ drop (s + l) gs), Some (2 * s)) = Some (group_bytes gs)"
proof -
  let ?acc = "group_bytes (take s gs @ drop (s + l) gs)"
  have le: "s + l \<le> 8" using assms by (simp add: zero_range_def)
  have "gs = take s gs @ take l (drop s gs) @ drop (s + l) gs"
    by (metis add.commute append_take_drop_id drop_drop)
  then have gs: "group_bytes gs = group_bytes (take s gs) @ replicate (2 * l) (CHR 0x00) @ group_bytes (drop (s + l) gs)"
    using assms(3) by (metis group_bytes_simps(3) group_bytes_zero zero_range_def fst_conv snd_conv)
  have len: "length ?acc < 16" "16 - length ?acc = 2 * l" using assms(1,2) le by simp_all
  have "take (2 * s) ?acc = group_bytes (take s gs)" "drop (2 * s) ?acc = group_bytes (drop (s + l) gs)"
    using assms(1) le by simp_all
  then show ?thesis by (simp only: expand_at len gs)
qed

lemma parseIPv6_groups:
  assumes "length gs = 8" "list_all (\<lambda>w. w < 65536) gs"
  shows "parseIPv6 (print_groups gs 0 (elision gs)) = Some (group_bytes gs)"
proof (cases "snd (elision gs) = 0")
  case True
  have "gs \<noteq> []" using assms by auto
  then have "\<not> HasPrefix (colons gs) ''::''"
    using colons_head [of gs] by (cases "colons gs") (auto simp: HasPrefix_def)
  moreover have "v6_loop [] None (colons gs) = Some (group_bytes gs, None)"
    using v6_tail [of gs "[]" None] assms \<open>gs \<noteq> []\<close> by simp
  ultimately show ?thesis
    using assms by (simp add: print_plain True parseIPv6_def expand_def)
next
  case False
  obtain s l where e: "elision gs = (s, l)" by force
  have l: "0 < l" "zero_range gs (s, l)" "s + l \<le> length gs"
    using False elision_range [of gs] by (auto simp: e zero_range_def)
  note expand = expand_ellipsis [OF assms(1) l(1,2)]
  have printed: "print_groups gs 0 (elision gs) = colons (take s gs) @ ''::'' @ colons (drop (s + l) gs)"
    using print_ellipsis [OF l(1) _ l(3), of 0] by (auto simp: e)
  have small: "list_all (\<lambda>w. w < 65536) (take s gs @ drop (s + l) gs)"
    using assms(2) by (auto simp: list_all_iff dest: in_set_takeD in_set_dropD)
  show ?thesis
  proof (cases "s = 0")
    case True
    show ?thesis
    proof (cases "drop l gs = []")
      case True
      then have "l = 8" using l \<open>s = 0\<close> assms by simp
      then have "gs = replicate 8 0" using l(2) \<open>s = 0\<close> assms by (simp add: zero_range_def)
      then have "group_bytes gs = replicate 16 (CHR 0x00)" by simp
      moreover have "print_groups gs 0 (elision gs) = ''::''"
        using printed True \<open>s = 0\<close> by simp
      ultimately show ?thesis by (simp add: parseIPv6_def HasPrefix_def)
    next
      case False
      then have "colons (drop l gs) \<noteq> []" using colons_head by blast
      moreover have "v6_loop [] (Some 0) (colons (drop l gs)) = Some (group_bytes (drop l gs), Some 0)"
        using v6_tail [OF False, of "[]" "Some 0"] small assms \<open>s = 0\<close> by simp
      ultimately show ?thesis
        using expand \<open>s = 0\<close> by (simp add: printed parseIPv6_def HasPrefix_def)
    qed
  next
    case False
    then have ne: "take s gs \<noteq> []" using assms by auto
    then have "\<not> HasPrefix (colons (take s gs) @ ''::'' @ colons (drop (s + l) gs)) ''::''"
      using colons_head [OF ne] by (cases "colons (take s gs)") (auto simp: HasPrefix_def)
    moreover have "v6_loop [] None (colons (take s gs) @ ''::'' @ colons (drop (s + l) gs)) =
        Some (group_bytes (take s gs @ drop (s + l) gs), Some (2 * s))"
      using v6_ellipsis [OF ne small, of "[]"] l assms by simp
    ultimately show ?thesis using expand by (simp add: printed parseIPv6_def)
  qed
qed

lemma set_colons: "c \<in> set (colons ws) \<Longrightarrow> is_hex c \<or> c = CHR '':''"
proof (induction ws)
  case (Cons w ws)
  then show ?case
    using hex_digits_hex [of w] by (cases ws) (auto simp: colons_Cons list_all_iff simp del: hex_digits_hex)
qed simp

lemma print_groups_chars:
  assumes "length gs = 8"
  shows "\<forall>c \<in> set (print_groups gs 0 (elision gs)). is_hex c \<or> c = CHR '':''"
    and "CHR '':'' \<in> set (print_groups gs 0 (elision gs))"
proof -
  let ?s = "print_groups gs 0 (elision gs)"
  obtain s l where e: "elision gs = (s, l)" by force
  have "(\<forall>c \<in> set ?s. is_hex c \<or> c = CHR '':'') \<and> CHR '':'' \<in> set ?s"
  proof (cases "l = 0")
    case True
    obtain a b ws where "gs = a # b # ws"
      using assms by (cases gs; cases "tl gs") auto
    with True e show ?thesis
      using set_colons [of _ gs] by (auto simp: print_plain colons_Cons [of a])
  next
    case False
    then have "?s = colons (take s gs) @ ''::'' @ colons (drop (s + l) gs)"
      using print_ellipsis [of l 0 s gs] elision_range [of gs] by (auto simp: e zero_range_def)
    then show ?thesis using set_colons by auto
  qed
  then show "\<forall>c \<in> set ?s. is_hex c \<or> c = CHR '':''" "CHR '':'' \<in> set ?s" by blast+
qed

lemma print_groups_colon:
  assumes "length gs = 8"
  shows "find (\<lambda>c. c = CHR ''.'' \<or> c = CHR '':'') (print_groups gs 0 (elision gs)) = Some (CHR '':'')"
proof -
  have "(\<forall>c \<in> set (print_groups gs 0 (elision gs)). c \<noteq> CHR ''.'') \<and> CHR '':'' \<in> set (print_groups gs 0 (elision gs))"
    using colon_no_hex(2) print_groups_chars [OF assms] by blast
  moreover have "find (\<lambda>c. c = CHR ''.'' \<or> c = CHR '':'') t = Some (CHR '':'')"
    if "(\<forall>c \<in> set t. c \<noteq> CHR ''.'') \<and> CHR '':'' \<in> set t" for t
    using that by (induction t) auto
  ultimately show ?thesis by blast
qed

text \<open>A text without dots is no IPv4 address.\<close>

lemma parseIPv4_no_dot: "\<forall>c \<in> set s. is_hex c \<or> c = CHR '':'' \<Longrightarrow> parseIPv4 s = None"
proof -
  assume no_dot: "\<forall>c \<in> set s. is_hex c \<or> c = CHR '':''"
  have "v4_numbers 3 True rest = None" if "dtoi s = Some (n, rest)" for n rest
  proof (cases rest)
    case (Cons c t)
    with that have "c \<in> set s" by (auto simp: dtoi_def Let_def dest: set_dropWhileD split: if_splits)
      (metis list.set_intros(1) set_dropWhileD)
    with no_dot have "c \<noteq> CHR ''.''" using colon_no_hex(2) by auto
    with Cons show ?thesis by (simp add: numeral_eq_Suc)
  qed (simp add: numeral_eq_Suc)
  then show ?thesis
    by (auto simp: parseIPv4_def numeral_eq_Suc split: option.split)
qed

theorem ParseIP_String:
  assumes "length ip = 16"
  shows "ParseIP (IP_String ip) = ip"
proof (cases "To4 ip")
  case None
  have len: "length (groups ip) = 8" using length_groups [of ip] assms by simp
  have "parseIPv6 (print_groups (groups ip) 0 (elision (groups ip))) = Some ip"
    using parseIPv6_groups [OF len] groups_small [of _ ip] groups_bytes [of ip] assms
    by (simp add: list_all_iff)
  moreover have "ip \<noteq> []" using assms by auto
  ultimately show ?thesis
    using assms print_groups_colon [OF len] by (simp add: None ParseIP_def IP_String_def)
next
  case (Some p)
  then have "length p = 4" by (rule To4_length)
  then obtain a b c d where p: "p = [a, b, c, d]" by (auto simp: length_Suc_conv numeral_eq_Suc)
  have "ip = v4_in_v6_prefix @ p"
    using Some assms by (auto simp: To4_def split: if_splits) (metis append_take_drop_id)
  then have "ip = IPv4 a b c d" by (simp add: p IPv4_def)
  moreover have "ip \<noteq> []" using assms by auto
  ultimately show ?thesis using ParseIP_dotted [of a b c d] by (simp add: IP_String_def del: dotted.simps)
qed

text \<open>The texts \<open>ParseIP\<close> reads are read again after printing.\<close>

lemma ParseIP_stable: "ParseIP s \<noteq> [] \<Longrightarrow> ParseIP (IP_String (ParseIP s)) = ParseIP s"
  using ParseIP_length ParseIP_String by blast

end
