(* ===== verification/NetCIDR.thy ===== *)
theory NetCIDR
  imports IPText "HOL-Library.Word"
begin

text \<open>
  Networks of package net: masks, \<open>IPNet\<close> with \<open>Contains\<close> and \<open>String\<close>, \<open>ParseCIDR\<close>, and
  \<open>SplitHostPort\<close>. A mask is a sequence of bytes, empty when it is nil.
\<close>

unbundle bit_operations_syntax

record IPNet =
  net_IP :: IP
  net_Mask :: string

text \<open>Byte \<open>i\<close> of the mask that starts with \<open>ones\<close> one bits.\<close>

definition mask_byte :: "nat \<Rightarrow> nat \<Rightarrow> char" where
  "mask_byte ones i =
     (if 8 * (i + 1) \<le> ones then CHR 0xFF
      else if 8 * i < ones then char_of (256 - 2 ^ (8 - (ones - 8 * i)) :: nat)
      else CHR 0x00)"

definition CIDRMask :: "nat \<Rightarrow> nat \<Rightarrow> string" where
  "CIDRMask ones bits =
     (if (bits \<noteq> 32 \<and> bits \<noteq> 128) \<or> bits < ones then [] else map (mask_byte ones) [0..<bits div 8])"

definition and_byte :: "char \<Rightarrow> char \<Rightarrow> char" where
  "and_byte a b = char_of (byte a AND byte b)"

text \<open>\<open>IP.Mask\<close>\<close>

definition IP_Mask :: "IP \<Rightarrow> string \<Rightarrow> IP" where
  "IP_Mask ip0 mask0 =
     (let mask = (if length mask0 = 16 \<and> length ip0 = 4 \<and> take 12 mask0 = replicate 12 (CHR 0xFF) then drop 12 mask0 else mask0);
          ip = (if length mask = 4 \<and> length ip0 = 16 \<and> take 12 ip0 = v4_in_v6_prefix then drop 12 ip0 else ip0)
      in if length ip \<noteq> length mask then [] else map2 and_byte ip mask)"

text \<open>The address and the mask of a network, in the same length, or none.\<close>

definition networkNumberAndMask :: "IPNet \<Rightarrow> (IP \<times> string) option" where
  "networkNumberAndMask n =
     (case (case To4 (net_IP n) of Some ip \<Rightarrow> Some ip
            | None \<Rightarrow> if length (net_IP n) \<noteq> 16 then None else Some (net_IP n)) of
        None \<Rightarrow> None
      | Some ip \<Rightarrow>
          let m = net_Mask n in
          if length m = 4 then (if length ip \<noteq> 4 then None else Some (ip, m))
          else if length m = 16 then Some (ip, if length ip = 4 then drop 12 m else m)
          else None)"

definition IPNet_Contains :: "IPNet \<Rightarrow> IP \<Rightarrow> bool" where
  "IPNet_Contains n ip0 =
     (case networkNumberAndMask n of
        None \<Rightarrow> False
      | Some (nn, m) \<Rightarrow>
          let ip = (case To4 ip0 of Some x \<Rightarrow> x | None \<Rightarrow> ip0) in
          length ip = length nn \<and> map2 and_byte nn m = map2 and_byte ip m)"

text \<open>The number of leading one bits of a mask, none when one bits follow a zero bit.\<close>

fun simpleMaskLength :: "string \<Rightarrow> nat option" where
  "simpleMaskLength [] = Some 0"
| "simpleMaskLength (v # vs) =
     (if byte v = 255 then map_option ((+) 8) (simpleMaskLength vs)
      else if list_all (\<lambda>c. byte c = 0) vs then find (\<lambda>k. byte v = 256 - 2 ^ (8 - k)) [0..<8]
      else None)"

definition hexString :: "string \<Rightarrow> string" where
  "hexString s = concat (map (\<lambda>c. [hex_char (byte c div 16), hex_char (byte c mod 16)]) s)"

definition IPNet_String :: "IPNet \<Rightarrow> string" where
  "IPNet_String n =
     (case networkNumberAndMask n of
        None \<Rightarrow> ''<nil>''
      | Some (nn, m) \<Rightarrow>
          (case simpleMaskLength m of
             None \<Rightarrow> IP_String nn @ ''/'' @ hexString m
           | Some l \<Rightarrow> IP_String nn @ ''/'' @ decimal l))"

definition cidr_error :: go_error where
  "cidr_error = StdErr ''invalid CIDR address''"

definition ParseCIDR :: "string \<Rightarrow> go_error + IP \<times> IPNet" where
  "ParseCIDR s =
     (if CHR ''/'' \<notin> set s then Inl cidr_error
      else
        let addr = takeWhile (\<lambda>c. c \<noteq> CHR ''/'') s;
            mask = tl (dropWhile (\<lambda>c. c \<noteq> CHR ''/'') s);
            (iplen, ip) = (case parseIPv4 addr of Some ip \<Rightarrow> (4, Some ip) | None \<Rightarrow> (16, parseIPv6 addr))
        in case (ip, dtoi mask) of
             (Some ip, Some (n, rest)) \<Rightarrow>
               if rest \<noteq> [] \<or> 8 * iplen < n then Inl cidr_error
               else let m = CIDRMask n (8 * iplen) in Inr (ip, \<lparr>net_IP = IP_Mask ip m, net_Mask = m\<rparr>)
           | _ \<Rightarrow> Inl cidr_error)"

text \<open>\<open>SplitHostPort\<close>: the last colon separates the host from the port; a host with colons stands in
  square brackets. Brackets anywhere else are an error.\<close>

fun last_index :: "char \<Rightarrow> string \<Rightarrow> nat option" where
  "last_index c [] = None"
| "last_index c (x # s) =
     (case last_index c s of Some i \<Rightarrow> Some (Suc i) | None \<Rightarrow> if x = c then Some 0 else None)"

definition host_port_error :: go_error where
  "host_port_error = StdErr ''net.SplitHostPort''"

definition SplitHostPort :: "string \<Rightarrow> go_error + string \<times> string" where
  "SplitHostPort hp =
     (case last_index (CHR '':'') hp of
        None \<Rightarrow> Inl host_port_error
      | Some i \<Rightarrow>
          if hd hp = CHR ''['' then
            (let e = length (takeWhile (\<lambda>c. c \<noteq> CHR '']'') hp) in
             if e = length hp \<or> e + 1 \<noteq> i then Inl host_port_error
             else if CHR ''['' \<in> set (drop 1 hp) \<or> CHR '']'' \<in> set (drop (e + 1) hp) then Inl host_port_error
             else Inr (take (e - 1) (drop 1 hp), drop (i + 1) hp))
          else if CHR '':'' \<in> set (take i hp) \<or> CHR ''['' \<in> set hp \<or> CHR '']'' \<in> set hp then
            Inl host_port_error
          else Inr (take i hp, drop (i + 1) hp))"

section \<open>Facts\<close>

lemma v4_numbers_digit: "v4_numbers (Suc k) False s \<noteq> None \<Longrightarrow> s \<noteq> [] \<and> is_digit (hd s)"
  by (cases s) (auto simp: dtoi_def split: option.splits if_splits)

lemma and_byte_simps [simp]: "and_byte c (CHR 0xFF) = c" "and_byte c (CHR 0x00) = CHR 0x00"
proof -
  have "byte c AND 255 = take_bit 8 (byte c)" by (simp add: take_bit_eq_mask mask_eq_exp_minus_1)
  moreover have "byte c < 2 ^ 8" by simp
  ultimately have "byte c AND 255 = byte c" by (simp only: take_bit_nat_eq_self)
  then show "and_byte c (CHR 0xFF) = c" by (simp add: and_byte_def)
  show "and_byte c (CHR 0x00) = CHR 0x00" by (simp add: and_byte_def char_of_def)
qed

lemma and_mask_none [simp]: "map2 and_byte ip (replicate (length ip) (CHR 0xFF)) = ip"
  by (induction ip) simp_all

lemma and_zero: "map2 and_byte ip (replicate (length ip) (CHR 0x00)) = replicate (length ip) (CHR 0x00)"
  by (induction ip) simp_all

lemma mask_bytes:
  "\<forall>i \<in> set is. 8 * (i + 1) \<le> ones \<Longrightarrow> map (mask_byte ones) is = replicate (length is) (CHR 0xFF)"
  "\<forall>i \<in> set is. ones \<le> 8 * i \<Longrightarrow> map (mask_byte ones) is = replicate (length is) (CHR 0x00)"
  by (induction "is") (auto simp: mask_byte_def)

lemma CIDRMask_full [simp]: "CIDRMask 128 128 = replicate 16 (CHR 0xFF)" "CIDRMask 32 32 = replicate 4 (CHR 0xFF)"
  by (simp_all add: CIDRMask_def mask_bytes(1))

lemma CIDRMask_half: "CIDRMask 64 128 = replicate 8 (CHR 0xFF) @ replicate 8 (CHR 0x00)"
proof -
  have "map (mask_byte 64) [0..<8 + 8] = map (mask_byte 64) [0..<8] @ map (mask_byte 64) [8..<8 + 8]"
    by (simp only: upt_add_eq_append [of 0 8 8, OF le0] map_append)
  also have "\<dots> = replicate 8 (CHR 0xFF) @ replicate 8 (CHR 0x00)"
    using mask_bytes(1) [of "[0..<8]" 64] mask_bytes(2) [of "[8..<16]" 64] by (simp del: upt_conv_Nil upt_rec_numeral)
  finally show ?thesis by (simp add: CIDRMask_def del: upt_rec_numeral)
qed

lemma length_CIDRMask: "CIDRMask n bits \<noteq> [] \<Longrightarrow> length (CIDRMask n bits) = bits div 8"
  by (simp add: CIDRMask_def split: if_splits)

lemma simple_full [simp]: "simpleMaskLength (replicate n (CHR 0xFF) @ m) = map_option ((+) (8 * n)) (simpleMaskLength m)"
  by (induction n) (simp_all add: option.map_comp o_def option.map_ident add.assoc)

lemma simple_zero [simp]: "simpleMaskLength (replicate n (CHR 0x00)) = Some 0"
proof (cases n)
  case (Suc k)
  have "find (\<lambda>k. (0 :: nat) = 256 - 2 ^ (8 - k)) [0..<8] = Some 0" by (simp add: upt_rec)
  with Suc show ?thesis by (simp add: list_all_iff)
qed simp

text \<open>The text of an IPv6 address followed by \<open>/128\<close> is the network of that address alone.\<close>

lemma takeWhile_text: "c \<notin> set t \<Longrightarrow> takeWhile (\<lambda>x. x \<noteq> c) (t @ c # u) = t \<and> dropWhile (\<lambda>x. x \<noteq> c) (t @ c # u) = c # u"
  by (induction t) auto

lemma v6_text:
  assumes "length ip = 16" "To4 ip = None"
  shows "parseIPv6 (IP_String ip) = Some ip" "parseIPv4 (IP_String ip) = None" "CHR ''/'' \<notin> set (IP_String ip)"
proof -
  have len: "length (groups ip) = 8" using length_groups [of ip] assms by simp
  have printed: "IP_String ip = print_groups (groups ip) 0 (elision (groups ip))"
    using assms by (auto simp: IP_String_def)
  show "parseIPv6 (IP_String ip) = Some ip"
    using parseIPv6_groups [OF len] groups_small [of _ ip] groups_bytes [of ip] assms
    by (simp add: list_all_iff printed)
  show "parseIPv4 (IP_String ip) = None"
    using print_groups_chars [OF len] by (simp add: printed parseIPv4_no_dot)
  show "CHR ''/'' \<notin> set (IP_String ip)"
    using print_groups_chars [OF len] by (auto simp: printed is_hex_def hex_val_def)
qed

lemma ParseCIDR_host:
  assumes "length ip = 16" "To4 ip = None"
  shows "ParseCIDR (IP_String ip @ ''/128'') = Inr (ip, \<lparr>net_IP = ip, net_Mask = CIDRMask 128 128\<rparr>)"
proof -
  note ip = v6_text [OF assms]
  have n: "dtoi ''128'' = Some (128, [])"
    by (simp add: dtoi_def is_digit_def digit_val_def big_def)
  have m: "IP_Mask ip (CIDRMask 128 128) = ip"
    using and_mask_none [of ip] assms by (simp add: IP_Mask_def Let_def)
  have "takeWhile (\<lambda>c. c \<noteq> CHR ''/'') (IP_String ip @ ''/128'') = IP_String ip"
    "tl (dropWhile (\<lambda>c. c \<noteq> CHR ''/'') (IP_String ip @ ''/128'')) = ''128''"
    using takeWhile_text [OF ip(3), of "''128''"] by simp_all
  then show ?thesis
    unfolding ParseCIDR_def Let_def by (simp add: ip(1,2) n m del: CIDRMask_full)
qed

end
