(* ===== verification/IPPool.thy ===== *)
theory IPPool
  imports MD5 NetCIDR
begin

text \<open>
  File wg/ip-pool.go: the addresses of the 4-to-6 tunnels. The /64 prefix is derived from the seed of
  the gateway's key, the last eight bytes of an address from the seed and the identifier of the user.
  A key pair belongs to the zos package: the record has what the program uses of it. The seed of an
  ed25519 private key is its first 32 bytes.
\<close>

record KeyPair =
  kp_PrivateKey :: string
  kp_PublicKey :: string
  kp_Identity :: string

definition Seed :: "string \<Rightarrow> string" where
  "Seed priv = take 32 priv"

record IPPool =
  pool_kp :: KeyPair

definition NewIPPool :: "KeyPair \<Rightarrow> IPPool" where
  "NewIPPool k = \<lparr>pool_kp = k\<rparr>"

text \<open>\<open>copy(dst, src)\<close>, and \<open>net.IP(make([]byte, net.IPv6len))\<close>.\<close>

definition copy_bytes :: "string \<Rightarrow> string \<Rightarrow> string" where
  "copy_bytes dst src = take (length dst) src @ drop (length src) dst"

definition zero_ip :: IP where
  "zero_ip = replicate 16 (CHR 0x00)"

definition Subnet :: "IPPool \<Rightarrow> IPNet" where
  "Subnet p =
     (let h = md5_Sum (Seed (kp_PrivateKey (pool_kp p)));
          ip = zero_ip[0 := CHR 0xFD];
          ip = foldl (\<lambda>ip i. ip[i := h ! (i - 1)]) ip [1..<8]
      in \<lparr>net_IP = ip, net_Mask = CIDRMask 64 128\<rparr>)"

text \<open>Writing to the hash never fails.\<close>

definition pool_Get :: "IPPool \<Rightarrow> string \<Rightarrow> go_error + IP" where
  "pool_Get p id1 =
     (let b = md5_Sum (Seed (kp_PrivateKey (pool_kp p)) @ id1);
          ip = copy_bytes zero_ip (net_IP (Subnet p))
      in Inr (foldl (\<lambda>ip i. ip[i := b ! (i - 8)]) ip [8..<16]))"

definition pool_Gateway :: "IPPool \<Rightarrow> IPNet" where
  "pool_Gateway p =
     (let gateway = copy_bytes zero_ip (net_IP (Subnet p))
      in \<lparr>net_IP = gateway[length (net_IP (Subnet p)) - 1 := CHR 0x01], net_Mask = CIDRMask 64 128\<rparr>)"

section \<open>The addresses\<close>

text \<open>The seven bytes of the prefix that depend on the seed, and the bytes of a user's address.\<close>

abbreviation prefix_bytes :: "IPPool \<Rightarrow> string" where
  "prefix_bytes p \<equiv> take 7 (md5_Sum (Seed (kp_PrivateKey (pool_kp p))))"

abbreviation host_bytes :: "IPPool \<Rightarrow> string \<Rightarrow> string" where
  "host_bytes p id1 \<equiv> take 8 (md5_Sum (Seed (kp_PrivateKey (pool_kp p)) @ id1))"

lemma foldl_writes:
  "length h \<ge> n \<Longrightarrow> k + n \<le> length ip \<Longrightarrow>
   foldl (\<lambda>ip i. ip[i := h ! (i - k)]) ip [k..<k + n] = take k ip @ take n h @ drop (k + n) ip"
proof (induction n)
  case (Suc n)
  have eq: "foldl (\<lambda>ip i. ip[i := h ! (i - k)]) ip [k..<k + n] = (take k ip @ take n h) @ drop (k + n) ip"
    using Suc by simp
  have len: "length (take k ip @ take n h) = k + n" using Suc.prems by simp
  have "drop (k + n) ip = ip ! (k + n) # drop (k + Suc n) ip"
    using Suc.prems by (simp add: Cons_nth_drop_Suc)
  moreover have "take (Suc n) h = take n h @ [h ! n]"
    using Suc.prems by (simp add: take_Suc_conv_app_nth)
  ultimately show ?case
    using len by (simp add: eq list_update_append del: append_assoc)
qed simp

lemma Subnet_IP: "net_IP (Subnet p) = CHR 0xFD # prefix_bytes p @ replicate 8 (CHR 0x00)"
proof -
  have "zero_ip[0 := CHR 0xFD] = CHR 0xFD # replicate 15 (CHR 0x00)"
    by (simp add: zero_ip_def numeral_eq_Suc)
  then show ?thesis
    using foldl_writes [of 7 "md5_Sum (Seed (kp_PrivateKey (pool_kp p)))" 1 "CHR 0xFD # replicate 15 (CHR 0x00)"]
    by (simp add: Subnet_def Let_def del: upt_rec_numeral)
qed

lemma length_Subnet [simp]: "length (net_IP (Subnet p)) = 16"
  by (simp add: Subnet_IP)

lemma copy_subnet: "copy_bytes zero_ip (net_IP (Subnet p)) = net_IP (Subnet p)"
  by (simp add: copy_bytes_def zero_ip_def)

lemma pool_Get_eq: "pool_Get p u = Inr (CHR 0xFD # prefix_bytes p @ host_bytes p u)"
proof -
  have "take 8 (net_IP (Subnet p)) = CHR 0xFD # prefix_bytes p" by (simp add: Subnet_IP)
  then show ?thesis
    using foldl_writes [of 8 "md5_Sum (Seed (kp_PrivateKey (pool_kp p)) @ u)" 8 "net_IP (Subnet p)"]
    by (simp add: pool_Get_def Let_def copy_subnet del: upt_rec_numeral)
qed

lemma pool_Gateway_eq:
  "pool_Gateway p = \<lparr>net_IP = CHR 0xFD # prefix_bytes p @ replicate 7 (CHR 0x00) @ [CHR 0x01], net_Mask = CIDRMask 64 128\<rparr>"
proof -
  have "net_IP (Subnet p) = (CHR 0xFD # prefix_bytes p @ replicate 7 (CHR 0x00)) @ [CHR 0x00]"
    by (simp add: Subnet_IP numeral_eq_Suc)
  then have "(net_IP (Subnet p))[15 := CHR 0x01] = (CHR 0xFD # prefix_bytes p @ replicate 7 (CHR 0x00)) @ [CHR 0x01]"
    by (simp only: list_update_append) simp
  then show ?thesis
    by (simp add: pool_Gateway_def copy_subnet)
qed

lemma ula_not_v4 [simp]: "To4 (CHR 0xFD # s) = None \<or> length (CHR 0xFD # s) = 4"
  by (simp add: To4_def v4_in_v6_prefix_def numeral_eq_Suc)

text \<open>An address of the pool's prefix.\<close>

lemma Subnet_Contains:
  assumes "length x = 8"
  shows "IPNet_Contains (Subnet p) (CHR 0xFD # prefix_bytes p @ x)"
proof -
  have "To4 (CHR 0xFD # prefix_bytes p @ x) = None" "To4 (net_IP (Subnet p)) = None"
    using assms by (simp_all add: To4_def Subnet_IP v4_in_v6_prefix_def numeral_eq_Suc)
  moreover have "net_Mask (Subnet p) = replicate 8 (CHR 0xFF) @ replicate 8 (CHR 0x00)"
    by (simp add: Subnet_def Let_def CIDRMask_half)
  moreover have "map2 and_byte (a @ x) (replicate 8 (CHR 0xFF) @ replicate 8 (CHR 0x00)) = a @ replicate 8 (CHR 0x00)"
    if "length a = 8" "length x = 8" for a x
    using that and_mask_none [of a] and_zero [of x] zip_append [of a "replicate 8 (CHR 0xFF)" x "replicate 8 (CHR 0x00)"]
    by simp
  from this [of "CHR 0xFD # prefix_bytes p"] assms have
    "map2 and_byte (CHR 0xFD # prefix_bytes p @ x) (replicate 8 (CHR 0xFF) @ replicate 8 (CHR 0x00)) =
     map2 and_byte (net_IP (Subnet p)) (replicate 8 (CHR 0xFF) @ replicate 8 (CHR 0x00))"
    by (simp add: Subnet_IP)
  ultimately show ?thesis
    using assms by (simp add: IPNet_Contains_def networkNumberAndMask_def)
qed

end
