(* ===== verification/Wg.thy ===== *)
theory Wg
  imports IPPool
begin

text \<open>
  File wg/manager.go: the manager of the 4-to-6 gateway. The kernel is reached through the packages
  wireguard, netlink, sysctl, wgctrl and wgtypes, which are not part of the repository: the calls
  the manager makes are the parameter \<open>wg_api\<close>, over a state of its own. A link and a controller are
  the handles these packages return, a key is the text of its 32 bytes. Code that is commented out
  in the source is not modelled.
\<close>

record Peer =
  peer_PublicKey :: string
  Endpoint :: string
  AllowedIPs :: "string list"

record PeerConfig =
  cfg_IPs :: "string list"
  cfg_Peers :: "Peer list"

text \<open>\<open>wgtypes.PeerConfig\<close> and \<open>wgtypes.Config\<close>; the interval is in nanoseconds.\<close>

record wg_peer =
  wp_PublicKey :: string
  wp_Remove :: bool
  wp_UpdateOnly :: bool
  wp_AllowedIPs :: "IPNet list"
  wp_Keepalive :: "int option"

record wg_config =
  wc_PrivateKey :: "string option"
  wc_ListenPort :: "int option"
  wc_ReplacePeers :: bool
  wc_Peers :: "wg_peer list"

type_synonym wg_link = string
type_synonym wg_client = nat

record 's wg_api =
  api_NewKey :: "string \<Rightarrow> go_error + string"
  api_ParseKey :: "string \<Rightarrow> go_error + string"
  api_PublicKey :: "string \<Rightarrow> string"
  api_KeyString :: "string \<Rightarrow> string"
  api_NewLink :: "string \<Rightarrow> ('s, wg_link) go"
  api_GetByName :: "string \<Rightarrow> ('s, wg_link) go"
  api_Sysctl :: "string \<Rightarrow> string \<Rightarrow> ('s, string) go"
  api_LinkByName :: "string \<Rightarrow> ('s, wg_link) go"
  api_LinkSetUp :: "wg_link \<Rightarrow> ('s, unit) go"
  api_LinkDel :: "wg_link \<Rightarrow> ('s, unit) go"
  api_SetAddr :: "wg_link \<Rightarrow> string \<Rightarrow> ('s, unit) go"
  api_Ctl :: "('s, wg_client) go"
  api_CtlClose :: "wg_client \<Rightarrow> ('s, unit) go"
  api_Configure :: "wg_client \<Rightarrow> string \<Rightarrow> wg_config \<Rightarrow> ('s, unit) go"

record wg_Mgr =
  wgm_kp :: KeyPair
  ipAlloc :: IPPool
  priv :: string
  wg_endpoint :: string
  wgIface :: string
  nsName :: string

section \<open>Operations\<close>

definition failed_to :: "string \<Rightarrow> go_error \<Rightarrow> go_error" where
  "failed_to what e = wrap_err e (''failed to '' @ what)"

definition setupWGNamespace :: "'s wg_api \<Rightarrow> wg_Mgr \<Rightarrow> ('s, unit) go" where
  "setupWGNamespace W m =
     bindM (wrapM (failed_to ''create wireguard interface'') (api_NewLink W (wgIface m))) (\<lambda>iface.
     bindM (wrapM (failed_to ''enable ipv6 forwarding'') (api_Sysctl W ''net.ipv6.conf.all.forwarding'' ''1'')) (\<lambda>_.
     bindM (wrapM (failed_to ''get lo link'') (api_LinkByName W ''lo'')) (\<lambda>lo.
     bindM (wrapM (failed_to ''bring lo up'') (api_LinkSetUp W lo)) (\<lambda>_.
     bindM (wrapM (failed_to ''set addr on wg iface'')
       (api_SetAddr W iface (IPNet_String (pool_Gateway (ipAlloc m))))) (\<lambda>_.
     bindM (wrapM (failed_to ''create wireguard controller'') (api_Ctl W)) (\<lambda>cl.
     deferM (api_CtlClose W cl)
       (bindM (liftM (SplitHostPort (wg_endpoint m))) (\<lambda>(host, sp).
        bindM (liftM (case atoi sp of None \<Rightarrow> Inl (StdErr ''strconv.Atoi'') | Some port \<Rightarrow> Inr port)) (\<lambda>port.
        bindM (wrapM (failed_to ''configure wireguard interface'')
          (api_Configure W cl (wgIface m)
             \<lparr>wc_PrivateKey = Some (priv m), wc_ListenPort = Some port, wc_ReplacePeers = False, wc_Peers = []\<rparr>)) (\<lambda>_.
        api_LinkSetUp W iface))))))))))"

definition wg_New :: "'s wg_api \<Rightarrow> KeyPair \<Rightarrow> IPPool \<Rightarrow> string \<Rightarrow> string \<Rightarrow> ('s, wg_Mgr) go" where
  "wg_New W k alloc endpoint iface =
     bindM (liftM (api_NewKey W (take 32 (Seed (kp_PrivateKey k))))) (\<lambda>key.
     let mgr = \<lparr>wgm_kp = k, ipAlloc = alloc, priv = key, wg_endpoint = endpoint, wgIface = iface,
       nsName = ''tfgateway''\<rparr>
     in bindM (setupWGNamespace W mgr) (\<lambda>_. returnM mgr))"

definition wg_Close :: "'s wg_api \<Rightarrow> wg_Mgr \<Rightarrow> ('s, unit) go" where
  "wg_Close W m = bindM (api_GetByName W (wgIface m)) (\<lambda>iface. api_LinkDel W iface)"

definition parse_net :: "string \<Rightarrow> go_error + IPNet" where
  "parse_net s = (case ParseCIDR s of Inl e \<Rightarrow> Inl e | Inr (ip, ipnet) \<Rightarrow> Inr ipnet)"

definition keepalive :: int where
  "keepalive = 25 * 1000000000"

definition appendPeer :: "'s wg_api \<Rightarrow> wg_Mgr \<Rightarrow> Peer \<Rightarrow> ('s, unit) go" where
  "appendPeer W m peer =
     bindM (api_Ctl W) (\<lambda>cl.
     deferM (api_CtlClose W cl)
       (bindM (liftM (api_ParseKey W (peer_PublicKey peer))) (\<lambda>k.
        bindM (liftM (map_sum_list parse_net (AllowedIPs peer))) (\<lambda>aips.
        api_Configure W cl (wgIface m)
          \<lparr>wc_PrivateKey = None, wc_ListenPort = None, wc_ReplacePeers = False,
           wc_Peers = [\<lparr>wp_PublicKey = k, wp_Remove = False, wp_UpdateOnly = False, wp_AllowedIPs = aips,
             wp_Keepalive = Some keepalive\<rparr>]\<rparr>))))"

definition AddPeer :: "'s wg_api \<Rightarrow> wg_Mgr \<Rightarrow> string \<Rightarrow> string \<Rightarrow> ('s, PeerConfig) go" where
  "AddPeer W m user pubKey =
     bindM (liftM (pool_Get (ipAlloc m) user)) (\<lambda>ip.
     let cfg = \<lparr>cfg_IPs = [IP_String ip], cfg_Peers = [\<lparr>peer_PublicKey = api_KeyString W (api_PublicKey W (priv m)),
       Endpoint = wg_endpoint m, AllowedIPs = [''::/0'']\<rparr>]\<rparr>
     in bindM (appendPeer W m \<lparr>peer_PublicKey = pubKey, Endpoint = [], AllowedIPs = [IP_String ip @ ''/128'']\<rparr>) (\<lambda>_.
        returnM cfg))"

definition removePeer :: "'s wg_api \<Rightarrow> wg_Mgr \<Rightarrow> string \<Rightarrow> ('s, unit) go" where
  "removePeer W m pub =
     bindM (api_Ctl W) (\<lambda>cl.
     deferM (api_CtlClose W cl)
       (bindM (liftM (api_ParseKey W pub)) (\<lambda>k.
        api_Configure W cl (wgIface m)
          \<lparr>wc_PrivateKey = None, wc_ListenPort = None, wc_ReplacePeers = False,
           wc_Peers = [\<lparr>wp_PublicKey = k, wp_Remove = True, wp_UpdateOnly = True, wp_AllowedIPs = [],
             wp_Keepalive = None\<rparr>]\<rparr>)))"

definition RemovePeer :: "'s wg_api \<Rightarrow> wg_Mgr \<Rightarrow> string \<Rightarrow> ('s, unit) go" where
  "RemovePeer W m pubKey = removePeer W m pubKey"

section \<open>What the manager relies on\<close>

text \<open>
  A device is a map from the public keys of its peers to their allowed networks. The kernel sends a
  packet to the one peer that has its address among the allowed networks: adding a network to a
  peer takes it from the others.
\<close>

type_synonym wg_device = "string \<rightharpoonup> IPNet set"

definition give :: "string \<Rightarrow> IPNet set \<Rightarrow> wg_device \<Rightarrow> wg_device" where
  "give k ns d = (\<lambda>k'. if k' = k then Some (ns \<union> (case d k of None \<Rightarrow> {} | Some x \<Rightarrow> x))
     else map_option (\<lambda>x. x - ns) (d k'))"

definition apply_peer :: "wg_peer \<Rightarrow> wg_device \<Rightarrow> wg_device" where
  "apply_peer p d =
     (if wp_Remove p then d(wp_PublicKey p := None)
      else if wp_UpdateOnly p \<and> d (wp_PublicKey p) = None then d
      else give (wp_PublicKey p) (set (wp_AllowedIPs p)) d)"

definition apply_config :: "wg_config \<Rightarrow> wg_device \<Rightarrow> wg_device" where
  "apply_config cfg d = fold apply_peer (wc_Peers cfg) (if wc_ReplacePeers cfg then Map.empty else d)"

text \<open>
  The single changes a configuration asks for. The package does not say that a call that fails has
  changed nothing: it may have made some of them.
\<close>

datatype wg_change = ClearPeers | DropPeer string | EnsurePeer string | AllowNet string IPNet

fun make_change :: "wg_change \<Rightarrow> wg_device \<Rightarrow> wg_device" where
  "make_change ClearPeers d = Map.empty"
| "make_change (DropPeer k) d = d(k := None)"
| "make_change (EnsurePeer k) d = (if d k = None then d(k \<mapsto> {}) else d)"
| "make_change (AllowNet k n) d = (if d k = None then d else give k {n} d)"

definition peer_changes :: "wg_peer \<Rightarrow> wg_change list" where
  "peer_changes p =
     (if wp_Remove p then [DropPeer (wp_PublicKey p)]
      else (if wp_UpdateOnly p then [] else [EnsurePeer (wp_PublicKey p)]) @
        map (AllowNet (wp_PublicKey p)) (wp_AllowedIPs p))"

definition config_changes :: "wg_config \<Rightarrow> wg_change list" where
  "config_changes cfg = (if wc_ReplacePeers cfg then [ClearPeers] else []) @ concat (map peer_changes (wc_Peers cfg))"

definition make_changes :: "wg_change list \<Rightarrow> wg_device \<Rightarrow> wg_device" where
  "make_changes cs d = fold make_change cs d"

lemma make_changes_simps [simp]:
  "make_changes [] d = d" "make_changes (c # cs) d = make_changes cs (make_change c d)"
  "make_changes (cs @ cs') d = make_changes cs' (make_changes cs d)"
  by (simp_all add: make_changes_def)

text \<open>A call that succeeds has made all of them.\<close>

lemma give_nets: "make_changes (map (AllowNet k) ns) d = (if d k = None then d else give k (set ns) d)"
proof (induction ns arbitrary: d)
  case Nil
  have "give k {} d = d" if "d k \<noteq> None"
    using that by (auto simp: give_def fun_eq_iff option.map_ident split: option.split)
  then show ?case by simp
next
  case (Cons n ns)
  have "give k (set ns) (give k {n} d) = give k (insert n (set ns)) d"
    by (auto simp: give_def fun_eq_iff option.map_comp o_def split: option.split intro!: arg_cong [of _ _ "\<lambda>f. map_option f _"])
  moreover have "give k {n} d k \<noteq> None" by (simp add: give_def)
  ultimately show ?case by (cases "d k = None") (simp_all add: Cons del: not_None_eq)
qed

lemma apply_peer_changes: "make_changes (peer_changes p) d = apply_peer p d"
proof -
  have "give k ns (d(k \<mapsto> {})) = give k ns d" if "d k = None" for k ns
    using that by (auto simp: give_def fun_eq_iff)
  then show ?thesis by (auto simp: peer_changes_def apply_peer_def give_nets)
qed

lemma apply_config_changes: "make_changes (config_changes cfg) d = apply_config cfg d"
proof -
  have "make_changes (concat (map peer_changes ps)) d = fold apply_peer ps d" for ps d
    by (induction ps arbitrary: d) (simp_all add: apply_peer_changes)
  then show ?thesis by (simp add: config_changes_def apply_config_def)
qed

text \<open>
  No call touches a device but the one it is for; \<open>ConfigureDevice\<close> does what it says or fails, and
  then it has made some of the changes, in some order, or none. Calls that only open or close the
  controller change no device.
\<close>

locale wg_kernel =
  fixes W :: "'s wg_api" and dev :: "'s \<Rightarrow> string \<rightharpoonup> wg_device"
  assumes ctl: "api_Ctl W s = (r, s') \<Longrightarrow> dev s' = dev s"
    and ctl_close: "api_CtlClose W cl s = (u, s') \<Longrightarrow> dev s' = dev s"
    and configure: "api_Configure W cl i cfg s = (u, s') \<Longrightarrow>
      (case u of
        Inl e \<Rightarrow> dev s' = dev s \<or>
          (\<exists>d cs. dev s i = Some d \<and> set cs \<subseteq> set (config_changes cfg) \<and> dev s' = (dev s)(i \<mapsto> make_changes cs d))
      | Inr _ \<Rightarrow> \<exists>d. dev s i = Some d \<and> dev s' = (dev s)(i \<mapsto> apply_config cfg d))"
    and key_no_panic: "api_ParseKey W x \<noteq> Inl (Panic t)"
begin

lemma wp_Ctl:
  assumes "\<And>r s'. dev s' = dev s \<Longrightarrow> Q r s'"
  shows "wpM (api_Ctl W) Q s"
  by (rule wpM_I) (auto intro: assms dest: ctl)

lemma wp_CtlClose:
  assumes "\<And>r s'. dev s' = dev s \<Longrightarrow> Q r s'"
  shows "wpM (api_CtlClose W cl) Q s"
  by (rule wpM_I) (auto intro: assms dest: ctl_close)

text \<open>Whatever the outcome, a call has made some of its changes.\<close>

lemma wp_Configure:
  assumes "\<And>r s'. dev s' = dev s \<Longrightarrow> Q r s'"
    and "\<And>r d cs s'. dev s i = Some d \<Longrightarrow> set cs \<subseteq> set (config_changes cfg) \<Longrightarrow>
      dev s' = (dev s)(i \<mapsto> make_changes cs d) \<Longrightarrow> Q r s'"
  shows "wpM (api_Configure W cl i cfg) Q s"
proof (rule wpM_I)
  fix r s'
  assume run: "api_Configure W cl i cfg s = (r, s')"
  show "Q r s'"
  proof (cases r)
    case (Inl e)
    with configure [OF run] assms show ?thesis by auto
  next
    case (Inr u)
    with configure [OF run] obtain d where "dev s i = Some d" "dev s' = (dev s)(i \<mapsto> make_changes (config_changes cfg) d)"
      by (auto simp: apply_config_changes)
    with assms(2) show ?thesis by blast
  qed
qed

lemmas wp_kernel = wp_Ctl wp_CtlClose wp_Configure

text \<open>A device has changed at most by some of the given changes.\<close>

definition changed_by :: "string \<Rightarrow> wg_change set \<Rightarrow> 's \<Rightarrow> 's \<Rightarrow> bool" where
  "changed_by i C s s' \<longleftrightarrow> dev s' = dev s \<or>
     (\<exists>d cs. dev s i = Some d \<and> set cs \<subseteq> C \<and> dev s' = (dev s)(i \<mapsto> make_changes cs d))"

lemma wp_appendPeer:
  "wpM (appendPeer W m peer) (\<lambda>r s'. dev s' = dev s \<or>
     (\<exists>k ns. api_ParseKey W (peer_PublicKey peer) = Inr k \<and> map_sum_list parse_net (AllowedIPs peer) = Inr ns \<and>
       changed_by (wgIface m) (insert (EnsurePeer k) (AllowNet k ` set ns)) s s')) s"
  unfolding appendPeer_def changed_by_def
  by (auto simp: wp config_changes_def peer_changes_def intro!: wp_kernel split: sum.split) blast

lemma wp_removePeer:
  "wpM (RemovePeer W m pub) (\<lambda>r s'. dev s' = dev s \<or>
     (\<exists>k. api_ParseKey W pub = Inr k \<and> changed_by (wgIface m) {DropPeer k} s s')) s"
  unfolding RemovePeer_def removePeer_def changed_by_def
  by (auto simp: wp config_changes_def peer_changes_def intro!: wp_kernel split: sum.split) blast

end

text \<open>The network of one user's address.\<close>

definition user_net :: "wg_Mgr \<Rightarrow> string \<Rightarrow> IPNet" where
  "user_net m user = \<lparr>net_IP = CHR 0xFD # prefix_bytes (ipAlloc m) @ host_bytes (ipAlloc m) user,
     net_Mask = CIDRMask 128 128\<rparr>"

lemma parse_user_net:
  "parse_net (IP_String (CHR 0xFD # prefix_bytes p @ host_bytes p user) @ ''/128'') =
     Inr \<lparr>net_IP = CHR 0xFD # prefix_bytes p @ host_bytes p user, net_Mask = CIDRMask 128 128\<rparr>"
proof -
  have "To4 (CHR 0xFD # prefix_bytes p @ host_bytes p user) = None"
    by (simp add: To4_def v4_in_v6_prefix_def numeral_eq_Suc)
  from ParseCIDR_host [OF _ this] show ?thesis by (simp add: parse_net_def)
qed

context wg_kernel
begin

lemma wp_AddPeer:
  "wpM (AddPeer W m user pub) (\<lambda>r s'. dev s' = dev s \<or>
     (\<exists>k. api_ParseKey W pub = Inr k \<and> changed_by (wgIface m) {EnsurePeer k, AllowNet k (user_net m user)} s s')) s"
  unfolding AddPeer_def
  by (simp add: wp pool_Get_eq Let_def)
    (rule wpM_mono [OF wp_appendPeer], auto simp: parse_user_net user_net_def split: sum.splits)

end

section \<open>A kernel that answers\<close>

locale wg_kernel_up = wg_kernel +
  assumes ctl_up: "\<exists>cl s'. api_Ctl W s = (Inr cl, s')"
    and configure_up: "dev s i \<noteq> None \<Longrightarrow> \<exists>s'. api_Configure W cl i cfg s = (Inr (), s')"
begin

lemma up_Configure:
  assumes "dev s i = Some d" and "\<And>s'. dev s' = (dev s)(i \<mapsto> apply_config cfg d) \<Longrightarrow> Q (Inr ()) s'"
  shows "wpM (api_Configure W cl i cfg) Q s"
proof (rule wpM_I)
  fix r s'
  assume run: "api_Configure W cl i cfg s = (r, s')"
  with configure_up [of s i cl cfg] assms(1) have "r = Inr ()" by auto
  with configure [OF run] assms show "Q r s'" by auto
qed

lemma up_Ctl:
  assumes "\<And>cl s'. dev s' = dev s \<Longrightarrow> Q (Inr cl) s'"
  shows "wpM (api_Ctl W) Q s"
proof (rule wpM_I)
  fix r s'
  assume run: "api_Ctl W s = (r, s')"
  with ctl_up [of s] obtain cl where "r = Inr cl" by auto
  with assms ctl [OF run] show "Q r s'" by blast
qed

lemma up_AddPeer:
  assumes "dev s (wgIface m) = Some d" and "api_ParseKey W pub = Inr k"
  shows "wpM (AddPeer W m user pub) (\<lambda>r s'.
    r = Inr \<lparr>cfg_IPs = [IP_String (net_IP (user_net m user))],
      cfg_Peers = [\<lparr>peer_PublicKey = api_KeyString W (api_PublicKey W (priv m)), Endpoint = wg_endpoint m,
        AllowedIPs = [''::/0'']\<rparr>]\<rparr> \<and>
    dev s' = (dev s)(wgIface m \<mapsto> give k {user_net m user} d)) s"
  using assms unfolding AddPeer_def appendPeer_def
  by (auto simp: wp pool_Get_eq Let_def parse_user_net user_net_def apply_config_def apply_peer_def
      intro!: up_Ctl up_Configure wp_CtlClose)

lemma up_RemovePeer:
  assumes "dev s (wgIface m) = Some d" and "api_ParseKey W pub = Inr k"
  shows "wpM (RemovePeer W m pub) (\<lambda>r s'. r = Inr () \<and> dev s' = (dev s)(wgIface m \<mapsto> d(k := None))) s"
  using assms unfolding RemovePeer_def removePeer_def
  by (auto simp: wp apply_config_def apply_peer_def intro!: up_Ctl up_Configure wp_CtlClose)

end

end
