(* ===== verification/WgMem.thy ===== *)
theory WgMem
  imports Wg Base64 "HOL-Library.AList"
begin

text \<open>
  An in-memory kernel: its devices with their peers. It interprets the contract of Wg, and the
  witnesses of the tunnel properties run on it. A key is read as wgtypes reads it: the base64 text of
  32 bytes.
\<close>

type_synonym mem_device = "(string \<times> IPNet list) list"
type_synonym mem_kernel = "(string \<times> mem_device) list"

definition device_view :: "mem_device \<Rightarrow> wg_device" where
  "device_view d = (\<lambda>k. map_option set (map_of d k))"

definition kernel_view :: "mem_kernel \<Rightarrow> string \<rightharpoonup> wg_device" where
  "kernel_view s = (\<lambda>i. map_option device_view (map_of s i))"

definition mem_give :: "string \<Rightarrow> IPNet list \<Rightarrow> mem_device \<Rightarrow> mem_device" where
  "mem_give k ns d =
     AList.update k (ns @ (case map_of d k of None \<Rightarrow> [] | Some x \<Rightarrow> x))
       (map (\<lambda>(k', x). (k', filter (\<lambda>n. n \<notin> set ns) x)) d)"

definition mem_apply :: "wg_peer \<Rightarrow> mem_device \<Rightarrow> mem_device" where
  "mem_apply p d =
     (if wp_Remove p then AList.delete (wp_PublicKey p) d
      else if wp_UpdateOnly p \<and> map_of d (wp_PublicKey p) = None then d
      else mem_give (wp_PublicKey p) (wp_AllowedIPs p) d)"

definition no_device :: go_error where
  "no_device = Extern ''file does not exist''"

definition mem_ParseKey :: "string \<Rightarrow> go_error + string" where
  "mem_ParseKey s = (case b64_decode s of
     Some k \<Rightarrow> if length k = 32 then Inr k else Inl (Extern ''wgtypes: incorrect key size'')
   | None \<Rightarrow> Inl (Extern ''wgtypes: failed to parse base64-encoded key''))"

definition mem_wg :: "mem_kernel wg_api" where
  "mem_wg = \<lparr>
     api_NewKey = Inr, api_ParseKey = mem_ParseKey, api_PublicKey = (\<lambda>k. k), api_KeyString = b64_encode,
     api_NewLink = (\<lambda>i s. (Inr i, AList.update i (case map_of s i of None \<Rightarrow> [] | Some d \<Rightarrow> d) s)),
     api_GetByName = (\<lambda>i s. (case map_of s i of None \<Rightarrow> Inl no_device | Some d \<Rightarrow> Inr i, s)),
     api_Sysctl = (\<lambda>k v. returnM v),
     api_LinkByName = (\<lambda>i. returnM i),
     api_LinkSetUp = (\<lambda>i. returnM ()),
     api_LinkDel = (\<lambda>i s. (Inr (), AList.delete i s)),
     api_SetAddr = (\<lambda>i a. returnM ()),
     api_Ctl = returnM 0,
     api_CtlClose = (\<lambda>cl. returnM ()),
     api_Configure = (\<lambda>cl i cfg s. case map_of s i of None \<Rightarrow> (Inl no_device, s)
       | Some d \<Rightarrow> (Inr (), AList.update i (fold mem_apply (wc_Peers cfg) (if wc_ReplacePeers cfg then [] else d)) s)) \<rparr>"

lemma view_give: "device_view (mem_give k ns d) = give k (set ns) (device_view d)"
proof -
  have "map_of (map (\<lambda>(k', x). (k', filter (\<lambda>n. n \<notin> set ns) x)) d) k' =
      map_option (filter (\<lambda>n. n \<notin> set ns)) (map_of d k')" for k'
    by (simp add: map_of_map)
  moreover have "{x \<in> A. x \<notin> set ns} = A - set ns" for A by auto
  ultimately show ?thesis
    by (auto simp: device_view_def mem_give_def give_def fun_eq_iff update_conv' option.map_comp o_def
        split: option.split)
qed

lemma view_apply: "device_view (mem_apply p d) = apply_peer p (device_view d)"
proof -
  have "device_view (AList.delete k d) = (device_view d)(k := None)" for k
    by (simp add: device_view_def delete_conv' fun_eq_iff)
  moreover have "device_view d k = None \<longleftrightarrow> map_of d k = None" for k by (simp add: device_view_def)
  ultimately show ?thesis by (simp add: mem_apply_def apply_peer_def view_give)
qed

lemma view_fold: "device_view (fold mem_apply ps d) = fold apply_peer ps (device_view d)"
  by (induction ps arbitrary: d) (simp_all add: view_apply)

lemma device_view_Nil [simp]: "device_view [] = Map.empty"
  by (simp add: device_view_def)

lemma kernel_view_update [simp]: "kernel_view (AList.update i d s) = (kernel_view s)(i \<mapsto> device_view d)"
  by (simp add: kernel_view_def update_conv' fun_eq_iff)

interpretation wgmem: wg_kernel_up mem_wg kernel_view
proof unfold_locales
  fix s s' :: mem_kernel and i cl cfg u
  assume "api_Configure mem_wg cl i cfg s = (u, s')"
  then show "case u of
       Inl e \<Rightarrow> kernel_view s' = kernel_view s \<or> (\<exists>d cs. kernel_view s i = Some d \<and>
         set cs \<subseteq> set (config_changes cfg) \<and> kernel_view s' = (kernel_view s)(i \<mapsto> make_changes cs d))
     | Inr _ \<Rightarrow> \<exists>d. kernel_view s i = Some d \<and> kernel_view s' = (kernel_view s)(i \<mapsto> apply_config cfg d)"
    by (auto simp: mem_wg_def apply_config_def view_fold kernel_view_def [of s] split: option.splits)
next
  fix s :: mem_kernel and i cl cfg
  assume "kernel_view s i \<noteq> None"
  then show "\<exists>s'. api_Configure mem_wg cl i cfg s = (Inr (), s')"
    by (auto simp: mem_wg_def kernel_view_def split: option.splits)
qed (auto simp: mem_wg_def returnM_def mem_ParseKey_def split: option.splits if_splits)

end
