(* ===== verification/WgProps.thy ===== *)
theory WgProps
  imports WgMem
begin

text \<open>
  The properties of the 4-to-6 gateway: the addresses of the pool, and what adding and removing a peer
  does to the wireguard device, also when a call to the kernel fails half-way.
\<close>

section \<open>A manager to run\<close>

definition demo_pool :: IPPool where
  "demo_pool = NewIPPool \<lparr>kp_PrivateKey = replicate 64 (CHR ''k''), kp_PublicKey = [], kp_Identity = ''gw''\<rparr>"

definition demo_wg :: wg_Mgr where
  "demo_wg = \<lparr>wgm_kp = pool_kp demo_pool, ipAlloc = demo_pool, priv = replicate 32 (CHR ''k''),
     wg_endpoint = ''gw.net:51820'', wgIface = ''wg0'', nsName = ''tfgateway''\<rparr>"

definition demo_key :: string where
  "demo_key = replicate 32 (CHR ''p'')"

definition demo_kernel :: mem_kernel where
  "demo_kernel = [(''wg0'', [])]"

lemma demo_wg_simps [simp]:
  "wgIface demo_wg = ''wg0''" "wg_endpoint demo_wg = ''gw.net:51820''" "ipAlloc demo_wg = demo_pool"
  by (simp_all add: demo_wg_def)

lemma demo_ParseKey [simp]: "api_ParseKey mem_wg (b64_encode demo_key) = Inr demo_key"
  by (simp add: mem_wg_def mem_ParseKey_def b64_decode_encode demo_key_def)

lemma mem_calls:
  "api_Ctl mem_wg = returnM 0" "api_CtlClose mem_wg cl = returnM ()"
  "api_Configure mem_wg cl i cfg [] = (Inl no_device, [])"
  by (simp_all add: mem_wg_def)

lemma demo_kernel_view [simp]: "kernel_view demo_kernel ''wg0'' = Some Map.empty"
  by (simp add: kernel_view_def demo_kernel_def)

lemma give_empty [simp]: "give k ns Map.empty = [k \<mapsto> ns]"
  by (auto simp: give_def fun_eq_iff)

section \<open>Addresses\<close>

text \<open>
  C31: the pool's subnet is a /64 of the unique local range; its gateway and the address of every user
  are 16 bytes long and lie in it, no address is refused, and the address depends on the user alone.
\<close>

theorem pool_in_subnet:
  "hd (net_IP (Subnet p)) = CHR 0xFD \<and> simpleMaskLength (net_Mask (Subnet p)) = Some 64 \<and>
   IPNet_Contains (Subnet p) (net_IP (pool_Gateway p)) \<and>
   (\<exists>ip. pool_Get p user = Inr ip \<and> length ip = 16 \<and> IPNet_Contains (Subnet p) ip \<and>
     take 8 ip = take 8 (net_IP (Subnet p)))"
proof (intro conjI exI)
  show "hd (net_IP (Subnet p)) = CHR 0xFD" by (simp add: Subnet_IP)
  show "simpleMaskLength (net_Mask (Subnet p)) = Some 64"
    by (simp add: Subnet_def Let_def CIDRMask_half)
  show "IPNet_Contains (Subnet p) (net_IP (pool_Gateway p))"
    using Subnet_Contains [of "replicate 7 (CHR 0x00) @ [CHR 0x01]" p] by (simp add: pool_Gateway_eq)
  show "pool_Get p user = Inr (CHR 0xFD # prefix_bytes p @ host_bytes p user)" by (rule pool_Get_eq)
  show "IPNet_Contains (Subnet p) (CHR 0xFD # prefix_bytes p @ host_bytes p user)"
    by (rule Subnet_Contains) simp
qed (simp_all add: Subnet_IP)

text \<open>
  Two users share an address exactly when the first eight bytes of their digests agree, and a
  user has the gateway's own address exactly when those bytes are 0, ..., 0, 1.
\<close>

theorem pool_collision:
  "(pool_Get p u = pool_Get p v) =
     (take 8 (md5_Sum (Seed (kp_PrivateKey (pool_kp p)) @ u)) = take 8 (md5_Sum (Seed (kp_PrivateKey (pool_kp p)) @ v))) \<and>
   (pool_Get p u = Inr (net_IP (pool_Gateway p))) =
     (take 8 (md5_Sum (Seed (kp_PrivateKey (pool_kp p)) @ u)) = replicate 7 (CHR 0x00) @ [CHR 0x01])"
  by (simp add: pool_Get_eq pool_Gateway_eq)

section \<open>Peers\<close>

text \<open>
  C19: on a kernel that answers, AddPeer gives the peer's key the user's address, as a network of that
  address alone, and takes it from every other key; the configuration it returns has that address and
  the gateway's key and endpoint.
\<close>

theorem AddPeer_exact:
  assumes "wg_kernel_up W dev" and "dev s (wgIface m) = Some d" and "api_ParseKey W pub = Inr k"
    and "AddPeer W m user pub s = (r, s')"
  shows "r = Inr \<lparr>cfg_IPs = [IP_String (net_IP (user_net m user))],
      cfg_Peers = [\<lparr>peer_PublicKey = api_KeyString W (api_PublicKey W (priv m)), Endpoint = wg_endpoint m,
        AllowedIPs = [''::/0'']\<rparr>]\<rparr> \<and>
    dev s' = (dev s)(wgIface m \<mapsto> give k {user_net m user} d)"
  using wpM_D [OF wg_kernel_up.up_AddPeer [OF assms(1-3)] assms(4)] .

lemma AddPeer_exact_witness:
  "kernel_view (snd (AddPeer mem_wg demo_wg ''7'' (b64_encode demo_key) demo_kernel)) ''wg0'' =
     Some [demo_key \<mapsto> {user_net demo_wg ''7''}]"
  using AddPeer_exact [OF wgmem.wg_kernel_up_axioms, of demo_kernel demo_wg Map.empty "b64_encode demo_key" demo_key "''7''"]
  by (cases "AddPeer mem_wg demo_wg ''7'' (b64_encode demo_key) demo_kernel") simp

text \<open>
  C32: removing a peer just added under a key the device did not have leaves the device as it was, when
  no other key had the user's address.
\<close>

theorem add_remove_peer:
  assumes "wg_kernel_up W dev" and "dev s (wgIface m) = Some d" and "api_ParseKey W pub = Inr k"
    and "d k = None" and "\<forall>k' ns. d k' = Some ns \<longrightarrow> user_net m user \<notin> ns"
    and "AddPeer W m user pub s = (r, s1)" and "RemovePeer W m pub s1 = (r', s')"
  shows "r' = Inr () \<and> dev s' = dev s"
proof -
  have s1: "dev s1 = (dev s)(wgIface m \<mapsto> give k {user_net m user} d)"
    using wpM_D [OF wg_kernel_up.up_AddPeer [OF assms(1-3)] assms(6)] by simp
  then have "dev s1 (wgIface m) = Some (give k {user_net m user} d)" by simp
  from wpM_D [OF wg_kernel_up.up_RemovePeer [OF assms(1) this assms(3)] assms(7)]
  have "r' = Inr ()" "dev s' = (dev s)(wgIface m \<mapsto> (give k {user_net m user} d)(k := None))"
    unfolding s1 fun_upd_upd by blast+
  moreover have "map_option (\<lambda>x. x - {user_net m user}) (d k') = d k'" for k'
    using assms(5) by (cases "d k'") auto
  then have "(give k {user_net m user} d)(k := None) = d"
    using assms(4) by (auto simp: give_def fun_eq_iff)
  ultimately show ?thesis using assms(2) by (simp add: fun_upd_idem)
qed

lemma add_remove_peer_witness:
  "kernel_view (snd (RemovePeer mem_wg demo_wg (b64_encode demo_key)
     (snd (AddPeer mem_wg demo_wg ''7'' (b64_encode demo_key) demo_kernel)))) = kernel_view demo_kernel"
proof -
  obtain r s1 where add: "AddPeer mem_wg demo_wg ''7'' (b64_encode demo_key) demo_kernel = (r, s1)" by force
  obtain r' s' where rem: "RemovePeer mem_wg demo_wg (b64_encode demo_key) s1 = (r', s')" by force
  from add_remove_peer [OF wgmem.wg_kernel_up_axioms _ _ _ _ add rem, of Map.empty demo_key] show ?thesis
    by (simp add: add rem)
qed

text \<open>The devices a partly executed call can leave.\<close>

lemma give_again: "give k {n} (give k {n} d) = give k {n} d" "give k {n} d k \<noteq> None"
  by (auto simp: give_def fun_eq_iff option.map_comp o_def split: option.split)

lemma added_changes:
  "set cs \<subseteq> {EnsurePeer k, AllowNet k n} \<Longrightarrow>
   make_changes cs d \<in> {d, make_change (EnsurePeer k) d, give k {n} d}"
proof (induction cs rule: rev_induct)
  case (snoc c cs)
  then have c: "c \<in> {EnsurePeer k, AllowNet k n}" and d: "make_changes cs d \<in> {d, make_change (EnsurePeer k) d, give k {n} d}"
    by simp_all
  have "give k {n} (d(k \<mapsto> {})) = give k {n} d" if "d k = None" using that by (auto simp: give_def fun_eq_iff)
  with c d show ?case using give_again [of k n d] by (auto split: if_splits)
qed simp

lemma dropped_changes: "set cs \<subseteq> {DropPeer k} \<Longrightarrow> make_changes cs d \<in> {d, d(k := None)}"
  by (induction cs rule: rev_induct) auto

text \<open>
  C20: whatever the kernel does, and however far a call gets that fails, adding and removing a peer
  leave every other device alone, and on the manager's device the peers of other keys: adding either
  changes nothing, or makes the key a peer without networks, or gives it the user's address, which
  another key loses only then; removing changes nothing but the key. A key that cannot be read changes
  nothing at all.
\<close>

theorem other_peers_stand:
  assumes "wg_kernel W dev" and "AddPeer W m user pub s = (r, s')" and "RemovePeer W m pub t = (q, t')"
  shows "(dev s' = dev s \<or> (\<exists>k d. api_ParseKey W pub = Inr k \<and> dev s (wgIface m) = Some d \<and>
      (d k = None \<and> dev s' = (dev s)(wgIface m \<mapsto> d(k \<mapsto> {})) \<or>
       dev s' = (dev s)(wgIface m \<mapsto> give k {user_net m user} d)))) \<and>
    (dev t' = dev t \<or> (\<exists>k d. api_ParseKey W pub = Inr k \<and> dev t (wgIface m) = Some d \<and>
      dev t' = (dev t)(wgIface m \<mapsto> d(k := None))))"
proof (intro conjI)
  note changed = wg_kernel.changed_by_def [OF assms(1)]
  consider "dev s' = dev s" | k d cs where "api_ParseKey W pub = Inr k" "dev s (wgIface m) = Some d"
      "set cs \<subseteq> {EnsurePeer k, AllowNet k (user_net m user)}" "dev s' = (dev s)(wgIface m \<mapsto> make_changes cs d)"
    using wpM_D [OF wg_kernel.wp_AddPeer [OF assms(1)] assms(2)] unfolding changed by blast
  then show "dev s' = dev s \<or> (\<exists>k d. api_ParseKey W pub = Inr k \<and> dev s (wgIface m) = Some d \<and>
      (d k = None \<and> dev s' = (dev s)(wgIface m \<mapsto> d(k \<mapsto> {})) \<or>
       dev s' = (dev s)(wgIface m \<mapsto> give k {user_net m user} d)))"
  proof cases
    case (2 k d cs)
    from 2(2) have "(dev s)(wgIface m \<mapsto> d) = dev s" by (simp add: fun_upd_idem)
    with added_changes [OF 2(3), of d] 2(1,2,4) show ?thesis by (cases "d k = None") auto
  qed simp
  consider "dev t' = dev t" | k d cs where "api_ParseKey W pub = Inr k" "dev t (wgIface m) = Some d"
      "set cs \<subseteq> {DropPeer k}" "dev t' = (dev t)(wgIface m \<mapsto> make_changes cs d)"
    using wpM_D [OF wg_kernel.wp_removePeer [OF assms(1)] assms(3)] unfolding changed by blast
  then show "dev t' = dev t \<or> (\<exists>k d. api_ParseKey W pub = Inr k \<and> dev t (wgIface m) = Some d \<and>
      dev t' = (dev t)(wgIface m \<mapsto> d(k := None)))"
  proof cases
    case (2 k d cs)
    from 2(2) have "(dev t)(wgIface m \<mapsto> d) = dev t" by (simp add: fun_upd_idem)
    with dropped_changes [OF 2(3), of d] 2(1,2,4) show ?thesis by auto
  qed simp
qed

text \<open>A kernel that makes the peer and fails before it has its networks.\<close>

definition half_peer :: "wg_peer \<Rightarrow> mem_device \<Rightarrow> mem_device" where
  "half_peer p d = (if wp_Remove p \<or> wp_UpdateOnly p \<or> map_of d (wp_PublicKey p) \<noteq> None then d
     else AList.update (wp_PublicKey p) [] d)"

definition half_wg :: "mem_kernel wg_api" where
  "half_wg = mem_wg\<lparr>api_Configure := \<lambda>cl i cfg s. (Inl no_device,
     case map_of s i of None \<Rightarrow> s | Some d \<Rightarrow> AList.update i (fold half_peer (wc_Peers cfg) d) s)\<rparr>"

lemma half_changes:
  "\<exists>cs. set cs \<subseteq> set (concat (map peer_changes ps)) \<and> device_view (fold half_peer ps d) = make_changes cs (device_view d)"
proof (induction ps arbitrary: d)
  case (Cons p ps)
  obtain cs where cs: "set cs \<subseteq> set (concat (map peer_changes ps))"
    "device_view (fold half_peer ps (half_peer p d)) = make_changes cs (device_view (half_peer p d))"
    using Cons by blast
  show ?case
  proof (cases "wp_Remove p \<or> wp_UpdateOnly p \<or> map_of d (wp_PublicKey p) \<noteq> None")
    case True
    then have "half_peer p d = d" by (auto simp: half_peer_def)
    with cs show ?thesis by (intro exI [of _ cs]) auto
  next
    case False
    then have "device_view (half_peer p d) = make_change (EnsurePeer (wp_PublicKey p)) (device_view d)"
      by (simp add: half_peer_def device_view_def update_conv' fun_eq_iff)
    with cs False show ?thesis
      by (intro exI [of _ "EnsurePeer (wp_PublicKey p) # cs"]) (auto simp: peer_changes_def)
  qed
qed (auto intro: exI [of _ "[]"])

lemma half_kernel: "wg_kernel half_wg kernel_view"
proof
  fix s s' :: mem_kernel and i cl cfg u
  assume run: "api_Configure half_wg cl i cfg s = (u, s')"
  then have u: "u = Inl no_device" by (simp add: half_wg_def split: option.splits)
  have "kernel_view s' = kernel_view s \<or> (\<exists>d cs. kernel_view s i = Some d \<and>
      set cs \<subseteq> set (config_changes cfg) \<and> kernel_view s' = (kernel_view s)(i \<mapsto> make_changes cs d))"
  proof (cases "map_of s i")
    case (Some d)
    obtain cs where "set cs \<subseteq> set (concat (map peer_changes (wc_Peers cfg)))"
      "device_view (fold half_peer (wc_Peers cfg) d) = make_changes cs (device_view d)" using half_changes by blast
    moreover have "kernel_view s i = Some (device_view d)" using Some by (simp add: kernel_view_def)
    moreover have "s' = AList.update i (fold half_peer (wc_Peers cfg) d) s" using run Some by (simp add: half_wg_def)
    ultimately show ?thesis by (intro disjI2 exI [of _ "device_view d"] exI [of _ cs]) (auto simp: config_changes_def)
  qed (use run in \<open>simp add: half_wg_def\<close>)
  with u show "case u of
       Inl e \<Rightarrow> kernel_view s' = kernel_view s \<or> (\<exists>d cs. kernel_view s i = Some d \<and>
         set cs \<subseteq> set (config_changes cfg) \<and> kernel_view s' = (kernel_view s)(i \<mapsto> make_changes cs d))
     | Inr _ \<Rightarrow> \<exists>d. kernel_view s i = Some d \<and> kernel_view s' = (kernel_view s)(i \<mapsto> apply_config cfg d)"
    by simp
qed (auto simp: half_wg_def mem_wg_def returnM_def mem_ParseKey_def split: option.splits if_splits)

lemma other_peers_stand_witness:
  "\<exists>d. kernel_view (snd (AddPeer half_wg demo_wg ''7'' (b64_encode demo_key) demo_kernel)) ''wg0'' = Some d \<and>
     dom d \<subseteq> {demo_key}"
proof -
  obtain r s' where add: "AddPeer half_wg demo_wg ''7'' (b64_encode demo_key) demo_kernel = (r, s')" by force
  obtain q t' where rem: "RemovePeer half_wg demo_wg (b64_encode demo_key) demo_kernel = (q, t')" by force
  have key: "api_ParseKey half_wg (b64_encode demo_key) = Inr demo_key" by (simp add: half_wg_def)
  show ?thesis
    using other_peers_stand [OF half_kernel add rem] demo_kernel_view key
    by (auto simp: add dom_def)
qed

end
