(* ===== verification/Workloads.thy ===== *)
theory Workloads
  imports ParseIP Reservation "HOL-Library.Word"
begin

text \<open>
  The workloads of the gateway and their way from the explorer to the provisioning engine: the
  structs of delegate.go, subdomain.go, proxy.go, reserse_proxy.go and 4to6.go with their JSON form,
  and the converters of provision.go. A workload of the explorer is a record of the values its
  accessors return together with the concrete type behind the interface. The texts of the workload
  types and the numbers of the result states belong to other packages: parameters.
\<close>

section \<open>Workloads of the explorer\<close>

datatype WorkloadType =
    WorkloadTypeProxy
  | WorkloadTypeReverseProxy
  | WorkloadTypeSubDomain
  | WorkloadTypeDomainDelegate
  | WorkloadTypeGateway4To6
  | WorkloadTypeOther nat

datatype workload_body =
    GatewayProxy string string "32 word" "32 word" string
  | GatewayReverseProxy string string string
  | GatewaySubdomain string "string list" string
  | GatewayDelegate string string
  | GatewayTunnel string string
  | OtherWorkload

record schema_result =
  sr_Category :: WorkloadType
  sr_WorkloadId :: string
  sr_DataJson :: string
  sr_Signature :: string
  sr_State :: int
  sr_Message :: string
  sr_Epoch :: int

record workload =
  GetID :: int
  WorkloadID :: int
  GetCustomerTid :: int
  GetWorkloadType :: WorkloadType
  GetEpoch :: int
  GetCustomerSignature :: string
  NextActionDelete :: bool
  GetReference :: string
  GetResult :: schema_result
  GetVersion :: int
  Body :: workload_body

text \<open>\<open>WorkloadTypeEnum.String\<close>, and the two conversions between the state enumerations.\<close>

record enums =
  wt_String :: "WorkloadType \<Rightarrow> string"
  state_to_schema :: "int \<Rightarrow> int"
  state_from_schema :: "int \<Rightarrow> int"

definition ProxyReservation :: "enums \<Rightarrow> ReservationType" where
  "ProxyReservation E = wt_String E WorkloadTypeProxy"

definition ReverseProxyReservation :: "enums \<Rightarrow> ReservationType" where
  "ReverseProxyReservation E = wt_String E WorkloadTypeReverseProxy"

definition SubDomainReservation :: "enums \<Rightarrow> ReservationType" where
  "SubDomainReservation E = wt_String E WorkloadTypeSubDomain"

definition DomainDeleateReservation :: "enums \<Rightarrow> ReservationType" where
  "DomainDeleateReservation E = wt_String E WorkloadTypeDomainDelegate"

definition Gateway4To6Reservation :: "enums \<Rightarrow> ReservationType" where
  "Gateway4To6Reservation E = wt_String E WorkloadTypeGateway4To6"

lemmas reservation_types = ProxyReservation_def ReverseProxyReservation_def SubDomainReservation_def
  DomainDeleateReservation_def Gateway4To6Reservation_def

text \<open>The map that orders the workloads for the engine.\<close>

definition ProvisionOrder :: "enums \<Rightarrow> ReservationType \<Rightarrow> int option" where
  "ProvisionOrder E = [DomainDeleateReservation E \<mapsto> 0, SubDomainReservation E \<mapsto> 1,
     ProxyReservation E \<mapsto> 2, ReverseProxyReservation E \<mapsto> 3, Gateway4To6Reservation E \<mapsto> 4]"

section \<open>Workloads of the gateway\<close>

record Delegate =
  del_Domain :: string

record Subdomain =
  sub_Domain :: string
  sub_IPs :: "IP list"

record Proxy =
  px_Domain :: string
  px_Addr :: string
  px_Port :: "32 word"
  px_PortTLS :: "32 word"

record ReverseProxy =
  rp_Domain :: string
  rp_Secret :: string

record Gateway4to6 =
  PublicKey :: string

definition enc_Delegate :: "Delegate \<Rightarrow> json" where
  "enc_Delegate x = JObj [(''domain'', JStr (del_Domain x))]"

definition dec_Delegate :: "json \<Rightarrow> Delegate option" where
  "dec_Delegate j =
     dec_struct (\<lambda>ms x. map_option (\<lambda>d. \<lparr>del_Domain = d\<rparr>)
       (get_field [''domain''] ''domain'' dec_string (del_Domain x) ms)) j \<lparr>del_Domain = []\<rparr>"

text \<open>Marshalling a list of addresses fails on an address that is neither nil nor 4 or 16 bytes
  long. A list in JSON is read element by element; \<open>null\<close> is the empty list.\<close>

definition enc_Subdomain :: "Subdomain \<Rightarrow> json option" where
  "enc_Subdomain x =
     map_option (\<lambda>ips. JObj [(''domain'', JStr (sub_Domain x)), (''destination'', JArr ips)])
       (those (map enc_IP (sub_IPs x)))"

fun dec_IPs :: "json \<Rightarrow> IP list \<Rightarrow> IP list option" where
  "dec_IPs JNull ips = Some []"
| "dec_IPs (JArr xs) ips = those (map dec_IP xs)"
| "dec_IPs _ ips = None"

definition dec_Subdomain :: "json \<Rightarrow> Subdomain option" where
  "dec_Subdomain j =
     dec_struct (\<lambda>ms x.
       case (get_field [''domain'', ''destination''] ''domain'' dec_string (sub_Domain x) ms,
             get_field [''domain'', ''destination''] ''destination'' dec_IPs (sub_IPs x) ms) of
         (Some d, Some ips) \<Rightarrow> Some \<lparr>sub_Domain = d, sub_IPs = ips\<rparr>
       | _ \<Rightarrow> None) j \<lparr>sub_Domain = [], sub_IPs = []\<rparr>"

text \<open>A \<open>uint32\<close>: a number out of its range is an error.\<close>

definition dec_port :: "json \<Rightarrow> 32 word \<Rightarrow> 32 word option" where
  "dec_port j p = map_option of_nat (dec_uint32 j (unat p))"

definition proxy_fields :: "string list" where
  "proxy_fields = [''domain'', ''addr'', ''port'', ''port_tls'']"

definition enc_Proxy :: "Proxy \<Rightarrow> json" where
  "enc_Proxy x = JObj [(''domain'', JStr (px_Domain x)), (''addr'', JStr (px_Addr x)),
     (''port'', enc_int (uint (px_Port x))), (''port_tls'', enc_int (uint (px_PortTLS x)))]"

definition dec_Proxy :: "json \<Rightarrow> Proxy option" where
  "dec_Proxy j =
     dec_struct (\<lambda>ms x.
       case (get_field proxy_fields ''domain'' dec_string (px_Domain x) ms,
             get_field proxy_fields ''addr'' dec_string (px_Addr x) ms,
             get_field proxy_fields ''port'' dec_port (px_Port x) ms,
             get_field proxy_fields ''port_tls'' dec_port (px_PortTLS x) ms) of
         (Some d, Some a, Some p, Some t) \<Rightarrow> Some \<lparr>px_Domain = d, px_Addr = a, px_Port = p, px_PortTLS = t\<rparr>
       | _ \<Rightarrow> None) j \<lparr>px_Domain = [], px_Addr = [], px_Port = 0, px_PortTLS = 0\<rparr>"

definition enc_ReverseProxy :: "ReverseProxy \<Rightarrow> json" where
  "enc_ReverseProxy x = JObj [(''domain'', JStr (rp_Domain x)), (''secret'', JStr (rp_Secret x))]"

definition dec_ReverseProxy :: "json \<Rightarrow> ReverseProxy option" where
  "dec_ReverseProxy j =
     dec_struct (\<lambda>ms x.
       case (get_field [''domain'', ''secret''] ''domain'' dec_string (rp_Domain x) ms,
             get_field [''domain'', ''secret''] ''secret'' dec_string (rp_Secret x) ms) of
         (Some d, Some s) \<Rightarrow> Some \<lparr>rp_Domain = d, rp_Secret = s\<rparr>
       | _ \<Rightarrow> None) j \<lparr>rp_Domain = [], rp_Secret = []\<rparr>"

definition enc_Gateway4to6 :: "Gateway4to6 \<Rightarrow> json" where
  "enc_Gateway4to6 x = JObj [(''public_key'', JStr (PublicKey x))]"

definition dec_Gateway4to6 :: "json \<Rightarrow> Gateway4to6 option" where
  "dec_Gateway4to6 j =
     dec_struct (\<lambda>ms x. map_option (\<lambda>k. \<lparr>PublicKey = k\<rparr>)
       (get_field [''public_key''] ''public_key'' dec_string (PublicKey x) ms)) j \<lparr>PublicKey = []\<rparr>"

section \<open>Converters\<close>

definition wrong_format :: "string \<Rightarrow> go_error" where
  "wrong_format what = NewErr (''failed to convert '' @ what @ '' workload, wrong format'')"

definition proxyConverter :: "workload_body \<Rightarrow> go_error + Proxy \<times> string" where
  "proxyConverter w = (case w of
     GatewayProxy d a p t node \<Rightarrow> Inr (\<lparr>px_Domain = d, px_Addr = a, px_Port = p, px_PortTLS = t\<rparr>, node)
   | _ \<Rightarrow> Inl (wrong_format ''proxy''))"

definition reserveproxyConverter :: "workload_body \<Rightarrow> go_error + ReverseProxy \<times> string" where
  "reserveproxyConverter w = (case w of
     GatewayReverseProxy d s node \<Rightarrow> Inr (\<lparr>rp_Domain = d, rp_Secret = s\<rparr>, node)
   | _ \<Rightarrow> Inl (wrong_format ''reverse proxy''))"

definition subdomainConverter :: "workload_body \<Rightarrow> go_error + Subdomain \<times> string" where
  "subdomainConverter w = (case w of
     GatewaySubdomain d ips node \<Rightarrow> Inr (\<lparr>sub_Domain = d, sub_IPs = map ParseIP ips\<rparr>, node)
   | _ \<Rightarrow> Inl (wrong_format ''subdomain''))"

definition delegateConverter :: "workload_body \<Rightarrow> go_error + Delegate \<times> string" where
  "delegateConverter w = (case w of
     GatewayDelegate d node \<Rightarrow> Inr (\<lparr>del_Domain = d\<rparr>, node)
   | _ \<Rightarrow> Inl (wrong_format ''delegate domain''))"

definition gateway4To6Converter :: "workload_body \<Rightarrow> go_error + Gateway4to6 \<times> string" where
  "gateway4To6Converter w = (case w of
     GatewayTunnel k node \<Rightarrow> Inr (\<lparr>PublicKey = k\<rparr>, node)
   | _ \<Rightarrow> Inl (wrong_format ''gateway 4to6''))"

definition resultFromSchemaType :: "enums \<Rightarrow> schema_result \<Rightarrow> Result" where
  "resultFromSchemaType E r = \<lparr>res_Type = wt_String E (sr_Category r), res_Created = sr_Epoch r,
     res_Data = sr_DataJson r, res_Error = sr_Message r, res_ID = sr_WorkloadId r,
     res_State = state_from_schema E (sr_State r), res_Signature = sr_Signature r\<rparr>"

definition ResultToSchemaType :: "enums \<Rightarrow> Result \<Rightarrow> go_error + schema_result" where
  "ResultToSchemaType E r =
     (let result = (\<lambda>rType. Inr \<lparr>sr_Category = rType, sr_WorkloadId = res_ID r, sr_DataJson = res_Data r,
        sr_Signature = res_Signature r, sr_State = state_to_schema E (res_State r),
        sr_Message = res_Error r, sr_Epoch = res_Created r\<rparr>)
      in if res_Type r = ProxyReservation E then result WorkloadTypeProxy
      else if res_Type r = ReverseProxyReservation E then result WorkloadTypeReverseProxy
      else if res_Type r = SubDomainReservation E then result WorkloadTypeSubDomain
      else if res_Type r = DomainDeleateReservation E then result WorkloadTypeDomainDelegate
      else if res_Type r = Gateway4To6Reservation E then result WorkloadTypeGateway4To6
      else Inl (NewErr (''unknown reservation type: '' @ res_Type r)))"

definition MaxInt64 :: int where
  "MaxInt64 = 2 ^ 63 - 1"

text \<open>The reservation without its node and data.\<close>

definition base_reservation :: "enums \<Rightarrow> workload \<Rightarrow> reservation" where
  "base_reservation E w =
     (let reservation = \<lparr>ID = itoa (GetID w) @ ''-'' @ itoa (WorkloadID w), NodeID = [],
        User = itoa (GetCustomerTid w), Type = wt_String E (GetWorkloadType w), Created = GetEpoch w,
        Duration = MaxInt64, Signature = GetCustomerSignature w, Data = [], ToDelete = NextActionDelete w,
        Reference = GetReference w, Result = resultFromSchemaType E (GetResult w),
        Version = GetVersion w, Tag = []\<rparr>
      in if Reference reservation \<noteq> [] then reservation\<lparr>ID := Reference reservation\<rparr> else reservation)"

text \<open>\<open>json.Marshal\<close> of a subdomain may fail.\<close>

definition marshal_Subdomain :: "Subdomain \<Rightarrow> go_error + string" where
  "marshal_Subdomain x = (case enc_Subdomain x of None \<Rightarrow> Inl (StdErr ''json.Marshal'') | Some j \<Rightarrow> Inr (print_json j))"

definition with_data :: "reservation \<Rightarrow> (go_error + 'a \<times> string) \<Rightarrow> ('a \<Rightarrow> go_error + string) \<Rightarrow> go_error + reservation" where
  "with_data r conv marshal =
     (case conv of
        Inl e \<Rightarrow> Inl e
      | Inr (data, node) \<Rightarrow>
          (case marshal data of Inl e \<Rightarrow> Inl e | Inr b \<Rightarrow> Inr (r\<lparr>NodeID := node, Data := b\<rparr>)))"

definition WorkloadToProvisionType :: "enums \<Rightarrow> workload \<Rightarrow> go_error + reservation" where
  "WorkloadToProvisionType E w =
     (let reservation = base_reservation E w in
      case GetWorkloadType w of
        WorkloadTypeProxy \<Rightarrow>
          with_data reservation (proxyConverter (Body w)) (\<lambda>x. Inr (json_marshal enc_Proxy x))
      | WorkloadTypeReverseProxy \<Rightarrow>
          with_data reservation (reserveproxyConverter (Body w)) (\<lambda>x. Inr (json_marshal enc_ReverseProxy x))
      | WorkloadTypeSubDomain \<Rightarrow>
          with_data reservation (subdomainConverter (Body w)) marshal_Subdomain
      | WorkloadTypeDomainDelegate \<Rightarrow>
          with_data reservation (delegateConverter (Body w)) (\<lambda>x. Inr (json_marshal enc_Delegate x))
      | WorkloadTypeGateway4To6 \<Rightarrow>
          with_data reservation (gateway4To6Converter (Body w)) (\<lambda>x. Inr (json_marshal enc_Gateway4to6 x))
      | WorkloadTypeOther k \<Rightarrow> Inr reservation)"

end
