(* ===== verification/Counters.thy ===== *)
theory Counters
  imports Workloads
begin

text \<open>
  File counters.go: the counters of the deployed workloads. A counter belongs to the zos package: the
  parameter \<open>counter_ops\<close> has its three methods over a type of its own, and the locale
  \<open>counter_uint64\<close> says what is relied on, that it counts modulo two to the 64. The counts are
  reported in 16 bits.
\<close>

record 'c counter_ops =
  c_Current :: "'c \<Rightarrow> 64 word"
  c_Increment :: "64 word \<Rightarrow> 'c \<Rightarrow> 'c"
  c_Decrement :: "64 word \<Rightarrow> 'c \<Rightarrow> 'c"

record 'c Counters =
  cnt_proxy :: 'c
  cnt_reverseProxy :: 'c
  cnt_subdomain :: 'c
  cnt_delegateDomain :: 'c
  cnt_NRU :: 'c

record WorkloadAmount =
  amt_Proxy :: "16 word"
  amt_ReverseProxy :: "16 word"
  amt_Subdomain :: "16 word"
  amt_DelegateDomain :: "16 word"

definition CheckMemoryRequirements :: "'c Counters \<Rightarrow> reservation \<Rightarrow> 64 word \<Rightarrow> go_error option" where
  "CheckMemoryRequirements c r totalMemAvailable = None"

definition CurrentWorkloads :: "'c counter_ops \<Rightarrow> 'c Counters \<Rightarrow> WorkloadAmount" where
  "CurrentWorkloads C c = \<lparr>
     amt_Proxy = ucast (c_Current C (cnt_proxy c)),
     amt_ReverseProxy = ucast (c_Current C (cnt_reverseProxy c)),
     amt_Subdomain = ucast (c_Current C (cnt_subdomain c)),
     amt_DelegateDomain = ucast (c_Current C (cnt_delegateDomain c))\<rparr>"

text \<open>The zero value of the explorer's \<open>ResourceAmount\<close>.\<close>

definition CurrentUnits :: "'r \<Rightarrow> 'c Counters \<Rightarrow> 'r" where
  "CurrentUnits zero c = zero"

text \<open>\<open>Increment\<close> and \<open>Decrement\<close> return nil.\<close>

definition Counters_Increment :: "'c counter_ops \<Rightarrow> enums \<Rightarrow> reservation \<Rightarrow> 'c Counters \<Rightarrow> 'c Counters" where
  "Counters_Increment C E r c =
     (if Type r = ProxyReservation E then c\<lparr>cnt_proxy := c_Increment C 1 (cnt_proxy c)\<rparr>
      else if Type r = ReverseProxyReservation E then c\<lparr>cnt_reverseProxy := c_Increment C 1 (cnt_reverseProxy c)\<rparr>
      else if Type r = SubDomainReservation E then c\<lparr>cnt_subdomain := c_Increment C 1 (cnt_subdomain c)\<rparr>
      else if Type r = DomainDeleateReservation E then c\<lparr>cnt_delegateDomain := c_Increment C 1 (cnt_delegateDomain c)\<rparr>
      else c)"

definition Counters_Decrement :: "'c counter_ops \<Rightarrow> enums \<Rightarrow> reservation \<Rightarrow> 'c Counters \<Rightarrow> 'c Counters" where
  "Counters_Decrement C E r c =
     (if Type r = ProxyReservation E then c\<lparr>cnt_proxy := c_Decrement C 1 (cnt_proxy c)\<rparr>
      else if Type r = ReverseProxyReservation E then c\<lparr>cnt_reverseProxy := c_Decrement C 1 (cnt_reverseProxy c)\<rparr>
      else if Type r = SubDomainReservation E then c\<lparr>cnt_subdomain := c_Decrement C 1 (cnt_subdomain c)\<rparr>
      else if Type r = DomainDeleateReservation E then c\<lparr>cnt_delegateDomain := c_Decrement C 1 (cnt_delegateDomain c)\<rparr>
      else c)"

section \<open>What is counted\<close>

locale counter_uint64 =
  fixes C :: "'c counter_ops"
  assumes current_increment: "c_Current C (c_Increment C n x) = c_Current C x + n"
    and current_decrement: "c_Current C (c_Decrement C n x) = c_Current C x - n"

definition distinct_types :: "enums \<Rightarrow> bool" where
  "distinct_types E \<longleftrightarrow> distinct (map (wt_String E) [WorkloadTypeProxy, WorkloadTypeReverseProxy,
     WorkloadTypeSubDomain, WorkloadTypeDomainDelegate, WorkloadTypeGateway4To6])"

text \<open>The four counts.\<close>

definition counts :: "'c counter_ops \<Rightarrow> enums \<Rightarrow> 'c Counters \<Rightarrow> ReservationType \<Rightarrow> 64 word" where
  "counts C E c t =
     (if t = ProxyReservation E then c_Current C (cnt_proxy c)
      else if t = ReverseProxyReservation E then c_Current C (cnt_reverseProxy c)
      else if t = SubDomainReservation E then c_Current C (cnt_subdomain c)
      else if t = DomainDeleateReservation E then c_Current C (cnt_delegateDomain c)
      else 0)"

definition counted :: "enums \<Rightarrow> ReservationType \<Rightarrow> bool" where
  "counted E t \<longleftrightarrow> t \<in> {ProxyReservation E, ReverseProxyReservation E, SubDomainReservation E, DomainDeleateReservation E}"

definition amount :: "enums \<Rightarrow> WorkloadAmount \<Rightarrow> ReservationType \<Rightarrow> 16 word" where
  "amount E a t =
     (if t = ProxyReservation E then amt_Proxy a
      else if t = ReverseProxyReservation E then amt_ReverseProxy a
      else if t = SubDomainReservation E then amt_Subdomain a
      else if t = DomainDeleateReservation E then amt_DelegateDomain a
      else 0)"

lemma amount_counts: "amount E (CurrentWorkloads C c) t = ucast (counts C E c t)"
  by (simp add: amount_def CurrentWorkloads_def counts_def)

context counter_uint64
begin

lemma counts_Increment:
  "distinct_types E \<Longrightarrow> counts C E (Counters_Increment C E r c) =
     (\<lambda>t. counts C E c t + (if t = Type r \<and> counted E t then 1 else 0))"
  by (auto simp: counts_def Counters_Increment_def counted_def distinct_types_def reservation_types
      current_increment fun_eq_iff)

lemma counts_Decrement:
  "distinct_types E \<Longrightarrow> counts C E (Counters_Decrement C E r c) =
     (\<lambda>t. counts C E c t - (if t = Type r \<and> counted E t then 1 else 0))"
  by (auto simp: counts_def Counters_Decrement_def counted_def distinct_types_def reservation_types
      current_decrement fun_eq_iff)

text \<open>Over a sequence of reservations.\<close>

lemma counts_fold:
  "distinct_types E \<Longrightarrow> counts C E (fold (\<lambda>x. Counters_Increment C E (f x)) xs c) =
     (\<lambda>t. counts C E c t + of_nat (if counted E t then count_list (map (\<lambda>x. Type (f x)) xs) t else 0))"
  by (induction xs arbitrary: c) (auto simp: counts_Increment fun_eq_iff)

end

text \<open>A counter of 64 bits.\<close>

definition word_counter :: "64 word counter_ops" where
  "word_counter = \<lparr>c_Current = (\<lambda>x. x), c_Increment = (\<lambda>n x. x + n), c_Decrement = (\<lambda>n x. x - n)\<rparr>"

interpretation word_counter: counter_uint64 word_counter
  by unfold_locales (simp_all add: word_counter_def)

end
