(* ===== verification/CountersProps.thy ===== *)
theory CountersProps
  imports Counters CacheProps
begin

text \<open>
  The properties of the counters, on their own and together with the cache, whose reservations they
  count when the gateway starts.
\<close>

definition demo_types :: enums where
  "demo_types = \<lparr>wt_String = (\<lambda>t. case t of
       WorkloadTypeProxy \<Rightarrow> ''proxy'' | WorkloadTypeReverseProxy \<Rightarrow> ''reverse'' | WorkloadTypeSubDomain \<Rightarrow> ''sub''
     | WorkloadTypeDomainDelegate \<Rightarrow> ''delegate'' | WorkloadTypeGateway4To6 \<Rightarrow> ''gw'' | WorkloadTypeOther k \<Rightarrow> []),
     state_to_schema = (\<lambda>i. i), state_from_schema = (\<lambda>i. i)\<rparr>"

definition zero_counters :: "64 word Counters" where
  "zero_counters = \<lparr>cnt_proxy = 0, cnt_reverseProxy = 0, cnt_subdomain = 0, cnt_delegateDomain = 0, cnt_NRU = 0\<rparr>"

lemma demo_types_distinct [simp]: "distinct_types demo_types"
  by (simp add: distinct_types_def demo_types_def)

lemma zero_counts [simp]: "counts word_counter E zero_counters = (\<lambda>t. 0)"
  by (auto simp: counts_def zero_counters_def word_counter_def)

section \<open>Sequences of calls\<close>

datatype stat_op = Inc reservation | Dec reservation

fun run_stat :: "'c counter_ops \<Rightarrow> enums \<Rightarrow> stat_op \<Rightarrow> 'c Counters \<Rightarrow> 'c Counters" where
  "run_stat C E (Inc r) c = Counters_Increment C E r c"
| "run_stat C E (Dec r) c = Counters_Decrement C E r c"

definition incs :: "stat_op list \<Rightarrow> ReservationType \<Rightarrow> nat" where
  "incs ops t = length (filter (\<lambda>x. case x of Inc r \<Rightarrow> Type r = t | Dec r \<Rightarrow> False) ops)"

definition decs :: "stat_op list \<Rightarrow> ReservationType \<Rightarrow> nat" where
  "decs ops t = length (filter (\<lambda>x. case x of Inc r \<Rightarrow> False | Dec r \<Rightarrow> Type r = t) ops)"

text \<open>
  C29: after any sequence of calls the amount reported for a counted type is, in 16 bits, what it was
  before plus the increments minus the decrements of reservations of that type; types that are not
  counted, tunnels among them, change nothing.
\<close>

theorem counters_track:
  assumes "counter_uint64 C" and "distinct_types E" and "c' = fold (run_stat C E) ops c"
  shows "amount E (CurrentWorkloads C c') t =
    (if counted E t then ucast (counts C E c t + of_nat (incs ops t) - of_nat (decs ops t)) else 0)"
proof -
  have "counts C E (fold (run_stat C E) ops c) t =
    counts C E c t + (if counted E t then of_nat (incs ops t) - of_nat (decs ops t) else 0)" for c
  proof (induction ops arbitrary: c)
    case (Cons x ops)
    then show ?case
      using counter_uint64.counts_Increment [OF assms(1,2)] counter_uint64.counts_Decrement [OF assms(1,2)]
      by (cases x) (auto simp: incs_def decs_def)
  qed (simp add: incs_def decs_def)
  moreover have "counts C E c t = 0" if "\<not> counted E t" using that by (auto simp: counts_def counted_def)
  ultimately show ?thesis using assms(3) by (simp add: amount_counts add_diff_eq)
qed

lemma counters_track_witness:
  "amount demo_types (CurrentWorkloads word_counter
     (fold (run_stat word_counter demo_types) [Inc r_old, Inc r_old, Dec r_old] zero_counters)) ''proxy'' = 1"
proof -
  have "Type r_old = ''proxy''" by (simp add: r_old_def plain_reservation_def)
  moreover have "counted demo_types ''proxy''"
    by (simp add: counted_def reservation_types demo_types_def)
  ultimately show ?thesis
    using counters_track [OF word_counter.counter_uint64_axioms demo_types_distinct refl,
        of "[Inc r_old, Inc r_old, Dec r_old]" zero_counters "''proxy''"]
    by (simp add: incs_def decs_def)
qed

section \<open>Counting the cache\<close>

lemma ucast_of_nat: "(ucast (word_of_nat n :: 64 word) :: 16 word) = word_of_nat n"
  by transfer (simp add: min_def)

lemma count_list_card:
  assumes "distinct ids"
  shows "count_list (map f ids) t = card {i \<in> set ids. f i = t}"
  using assms
proof (induction ids)
  case (Cons i ids)
  have "{j \<in> set (i # ids). f j = t} = (if f i = t then insert i {j \<in> set ids. f j = t} else {j \<in> set ids. f j = t})"
    by auto
  with Cons show ?case by simp
qed simp

text \<open>
  Counters that start at zero and are synchronised with the cache report for every counted type the number of cached reservations of that type, in 16 bits.
\<close>

lemma startup_counts:
  assumes "redis_reliable (cache_pool c) view" and "wf_cache sc (view s)"
    and "counter_uint64 C" and "distinct_types E" and "counts C E c0 = (\<lambda>t. 0)" and "counted E t"
    and "Sync sc (Counters_Increment C E) c (s, c0) = (x, (s', c1))"
  shows "x = Inr () \<and> amount E (CurrentWorkloads C c1) t =
    of_nat (card {i \<in> dom (cached sc (view s)). Type (the (cached sc (view s) i)) = t})"
proof -
  obtain ids where x: "x = Inr ()" and ids: "distinct ids" "set ids = dom (cached sc (view s))"
    and c1: "c1 = fold (\<lambda>i. Counters_Increment C E (the (cached sc (view s) i))) ids c0"
    using wpM_D [OF redis_reliable.up_Sync [OF assms(1) refl, of sc "(s, c0)"] assms(7)] assms(2) by auto
  have "counts C E c1 t = of_nat (count_list (map (\<lambda>i. Type (the (cached sc (view s) i))) ids) t)"
    unfolding c1
    using counter_uint64.counts_fold [OF assms(3,4), of "\<lambda>i. the (cached sc (view s) i)" ids c0] assms(5,6) by simp
  with x ids show ?thesis
    by (simp add: amount_counts count_list_card ucast_of_nat)
qed

lemma demo_proxies:
  "card {i \<in> dom (cached demo_codec (mem_view cache_store)).
     Type (the (cached demo_codec (mem_view cache_store) i)) = ''proxy''} = 1"
proof -
  have "Type r_old = ''proxy''" "Type r_new = ''gw''" by (simp_all add: r_old_def r_new_def plain_reservation_def)
  then have "{i \<in> dom (cached demo_codec (mem_view cache_store)).
      Type (the (cached demo_codec (mem_view cache_store) i)) = ''proxy''} = {''1-1''}"
    by (auto simp: tagged_def split: if_splits)
  then show ?thesis by (simp only: card.empty card.insert finite.emptyI empty_iff) simp
qed

lemma startup_counts_run:
  "amount demo_types (CurrentWorkloads word_counter
     (snd (snd (Sync demo_codec (Counters_Increment word_counter demo_types) demo_cache (cache_store, zero_counters))))) ''proxy'' = 1"
proof -
  obtain x s' c1 where run: "Sync demo_codec (Counters_Increment word_counter demo_types) demo_cache (cache_store, zero_counters) = (x, (s', c1))"
    using prod_cases3 by blast
  have "counted demo_types ''proxy''"
    by (simp add: counted_def reservation_types demo_types_def)
  from startup_counts [OF demo_cache_reliable demo_cache_wf word_counter.counter_uint64_axioms demo_types_distinct
      zero_counts this run]
  have "amount demo_types (CurrentWorkloads word_counter c1) ''proxy'' = of_nat 1"
    unfolding demo_proxies by (rule conjunct2)
  then show ?thesis by (simp add: run)
qed

end
