(* ===== verification/FileSystem.thy ===== *)
theory FileSystem
  imports GoStrings "HOL-Library.AList"
begin

text \<open>
  What the program uses of the packages os, io/ioutil, path and path/filepath, on a Unix file
  system: a tree of directories and files, a working directory, and the bytes that are left on the
  device. A write that does not fit stores what fits and fails. Links, permissions and the limits of
  a name are not part of the model; the handle of an open file is its path and its place in the tree.
  The message of \<open>os.MkdirAll\<close> names the whole path.
\<close>

section \<open>Paths as texts\<close>

text \<open>\<open>filepath.Clean\<close>: the elements kept so far are in reverse.\<close>

fun clean_elems :: "bool \<Rightarrow> string list \<Rightarrow> string list \<Rightarrow> string list" where
  "clean_elems rooted acc [] = rev acc"
| "clean_elems rooted acc (e # es) =
     (if e = [] \<or> e = ''.'' then clean_elems rooted acc es
      else if e = ''..'' then
        if acc \<noteq> [] \<and> hd acc \<noteq> ''..'' then clean_elems rooted (tl acc) es
        else if rooted then clean_elems rooted acc es
        else clean_elems rooted (''..'' # acc) es
      else clean_elems rooted (e # acc) es)"

definition elements :: "string \<Rightarrow> string list" where
  "elements p = SplitByte CHR ''/'' p"

definition rooted :: "string \<Rightarrow> bool" where
  "rooted p = HasPrefix p ''/''"

definition Clean :: "string \<Rightarrow> string" where
  "Clean p =
     (let es = clean_elems (rooted p) [] (elements p) in
      if rooted p then ''/'' @ Join es ''/'' else if es = [] then ''.'' else Join es ''/'')"

text \<open>\<open>filepath.Join\<close> and \<open>path.Join\<close> of two elements.\<close>

definition filepath_Join :: "string \<Rightarrow> string \<Rightarrow> string" where
  "filepath_Join a b =
     (if a = [] then if b = [] then [] else Clean b else Clean (a @ ''/'' @ b))"

section \<open>The tree\<close>

datatype node = Dir | File string

type_synonym place = "string list"

type_synonym handle = "string \<times> place"

record fs =
  fs_nodes :: "(place \<times> node) list"
  fs_cwd :: place
  fs_room :: "nat option"

definition node_at :: "fs \<Rightarrow> place \<Rightarrow> node option" where
  "node_at s p = (if p = [] then Some Dir else map_of (fs_nodes s) p)"

definition step :: "place \<Rightarrow> string \<Rightarrow> place" where
  "step p e = (if e = [] \<or> e = ''.'' then p else if e = ''..'' then butlast p else p @ [e])"

definition ENOENT :: go_error where "ENOENT = StdErr ''no such file or directory''"
definition EEXIST :: go_error where "EEXIST = StdErr ''file exists''"
definition ENOTDIR :: go_error where "ENOTDIR = StdErr ''not a directory''"
definition EISDIR :: go_error where "EISDIR = StdErr ''is a directory''"
definition ENOTEMPTY :: go_error where "ENOTEMPTY = StdErr ''directory not empty''"
definition EBUSY :: go_error where "EBUSY = StdErr ''device or resource busy''"
definition EINVAL :: go_error where "EINVAL = StdErr ''invalid argument''"
definition ENOSPC :: go_error where "ENOSPC = StdErr ''no space left on device''"

lemmas errnos = ENOENT_def EEXIST_def ENOTDIR_def EISDIR_def ENOTEMPTY_def EBUSY_def EINVAL_def ENOSPC_def

fun walk :: "fs \<Rightarrow> place \<Rightarrow> string list \<Rightarrow> go_error + place" where
  "walk s p [] = Inr p"
| "walk s p (e # es) =
     (case node_at s p of
        None \<Rightarrow> Inl ENOENT
      | Some Dir \<Rightarrow> walk s (step p e) es
      | Some (File b) \<Rightarrow> Inl ENOTDIR)"

definition resolve :: "fs \<Rightarrow> string \<Rightarrow> go_error + place" where
  "resolve s p = (if p = [] then Inl ENOENT else walk s (if rooted p then [] else fs_cwd s) (elements p))"

definition put_node :: "place \<Rightarrow> node \<Rightarrow> fs \<Rightarrow> fs" where
  "put_node p n s = s\<lparr>fs_nodes := AList.update p n (fs_nodes s)\<rparr>"

definition children :: "fs \<Rightarrow> place \<Rightarrow> string list" where
  "children s p = sort (remdups (map last (filter (\<lambda>q. q \<noteq> [] \<and> butlast q = p) (map fst (fs_nodes s)))))"

section \<open>Package os\<close>

text \<open>A \<open>PathError\<close>; \<open>os.IsNotExist\<close> and \<open>os.IsExist\<close> look at the error inside.\<close>

definition path_error :: "string \<Rightarrow> string \<Rightarrow> go_error \<Rightarrow> go_error" where
  "path_error op p e = Wrapped (op @ '' '' @ p @ '': '' @ error_text e) e"

fun underlying :: "go_error \<Rightarrow> go_error" where
  "underlying (Wrapped t e) = e"
| "underlying e = e"

definition IsNotExist :: "go_error \<Rightarrow> bool" where
  "IsNotExist e = (underlying e = ENOENT)"

definition IsExist :: "go_error \<Rightarrow> bool" where
  "IsExist e = (underlying e \<in> {EEXIST, ENOTEMPTY})"

definition at_path :: "string \<Rightarrow> string \<Rightarrow> (place \<Rightarrow> (fs, 'a) go) \<Rightarrow> (fs, 'a) go" where
  "at_path op p k s = (case resolve s p of Inl e \<Rightarrow> (Inl (path_error op p e), s) | Inr q \<Rightarrow> k q s)"

text \<open>\<open>os.Open\<close>, for reading; the reader's bytes, or the error of reading a directory.\<close>

definition os_Open :: "string \<Rightarrow> (fs, handle) go" where
  "os_Open p = at_path ''open'' p (\<lambda>q s.
     case node_at s q of None \<Rightarrow> (Inl (path_error ''open'' p ENOENT), s) | Some n \<Rightarrow> (Inr (p, q), s))"

definition read_file :: "handle \<Rightarrow> (fs, go_error + string) go" where
  "read_file f s =
     (Inr (case node_at s (snd f) of Some (File b) \<Rightarrow> Inr b | _ \<Rightarrow> Inl (path_error ''read'' (fst f) EISDIR)), s)"

text \<open>\<open>os.OpenFile\<close> with \<open>O_CREATE|O_EXCL|O_WRONLY\<close>.\<close>

definition os_Create :: "string \<Rightarrow> (fs, handle) go" where
  "os_Create p = at_path ''open'' p (\<lambda>q s.
     case node_at s q of None \<Rightarrow> (Inr (p, q), put_node q (File []) s) | Some n \<Rightarrow> (Inl (path_error ''open'' p EEXIST), s))"

definition append_bytes :: "place \<Rightarrow> string \<Rightarrow> fs \<Rightarrow> fs" where
  "append_bytes q b s = (case node_at s q of Some (File a) \<Rightarrow> put_node q (File (a @ b)) s | _ \<Rightarrow> s)"

definition file_Write :: "handle \<Rightarrow> string \<Rightarrow> (fs, unit) go" where
  "file_Write f b s =
     (case fs_room s of
        None \<Rightarrow> (Inr (), append_bytes (snd f) b s)
      | Some n \<Rightarrow>
          if length b \<le> n then (Inr (), (append_bytes (snd f) b s)\<lparr>fs_room := Some (n - length b)\<rparr>)
          else (Inl (path_error ''write'' (fst f) ENOSPC), (append_bytes (snd f) (take n b) s)\<lparr>fs_room := Some 0\<rparr>))"

definition os_Stat :: "string \<Rightarrow> (fs, node) go" where
  "os_Stat p = at_path ''stat'' p (\<lambda>q s.
     case node_at s q of None \<Rightarrow> (Inl (path_error ''stat'' p ENOENT), s) | Some n \<Rightarrow> (Inr n, s))"

definition drop_node :: "place \<Rightarrow> fs \<Rightarrow> fs" where
  "drop_node q s = s\<lparr>fs_nodes := AList.delete q (fs_nodes s),
     fs_room := map_option (\<lambda>n. n + (case node_at s q of Some (File b) \<Rightarrow> length b | _ \<Rightarrow> 0)) (fs_room s)\<rparr>"

text \<open>\<open>os.Remove\<close>: \<open>unlink\<close>, and \<open>rmdir\<close> when that fails.\<close>

definition os_Remove :: "string \<Rightarrow> (fs, unit) go" where
  "os_Remove p = at_path ''remove'' p (\<lambda>q s.
     case node_at s q of
       None \<Rightarrow> (Inl (path_error ''remove'' p ENOENT), s)
     | Some (File b) \<Rightarrow> (Inr (), drop_node q s)
     | Some Dir \<Rightarrow>
         if last (elements p) = ''.'' then (Inl (path_error ''remove'' p EINVAL), s)
         else if q = [] then (Inl (path_error ''remove'' p EBUSY), s)
         else if children s q \<noteq> [] then (Inl (path_error ''remove'' p ENOTEMPTY), s)
         else (Inr (), drop_node q s))"

text \<open>\<open>os.MkdirAll\<close> makes the missing directories from the left.\<close>

fun make_dirs :: "string \<Rightarrow> place \<Rightarrow> string list \<Rightarrow> (fs, unit) go" where
  "make_dirs p q [] s = (Inr (), s)"
| "make_dirs p q (e # es) s =
     (case node_at s (step q e) of
        None \<Rightarrow> make_dirs p (step q e) es (put_node (step q e) Dir s)
      | Some Dir \<Rightarrow> make_dirs p (step q e) es s
      | Some (File b) \<Rightarrow> (Inl (path_error ''mkdir'' p ENOTDIR), s))"

definition os_MkdirAll :: "string \<Rightarrow> (fs, unit) go" where
  "os_MkdirAll p s =
     (if p = [] then (Inl (path_error ''mkdir'' p ENOENT), s)
      else make_dirs p (if rooted p then [] else fs_cwd s) (elements p) s)"

text \<open>\<open>ioutil.ReadDir\<close>: what the program reads of each entry, in the order of the names. The size
  of a directory is not looked at.\<close>

record FileInfo =
  fi_Name :: string
  fi_Size :: nat
  fi_IsDir :: bool

definition file_info :: "fs \<Rightarrow> place \<Rightarrow> string \<Rightarrow> FileInfo" where
  "file_info s d i = \<lparr>fi_Name = i, fi_Size = (case node_at s (d @ [i]) of Some (File b) \<Rightarrow> length b | _ \<Rightarrow> 0),
     fi_IsDir = (node_at s (d @ [i]) = Some Dir)\<rparr>"

definition ReadDir :: "string \<Rightarrow> (fs, FileInfo list) go" where
  "ReadDir p = at_path ''open'' p (\<lambda>q s.
     case node_at s q of
       None \<Rightarrow> (Inl (path_error ''open'' p ENOENT), s)
     | Some (File b) \<Rightarrow> (Inl (path_error ''readdirent'' p ENOTDIR), s)
     | Some Dir \<Rightarrow> (Inr (map (file_info s q) (children s q)), s))"

section \<open>The names of a directory\<close>

definition plain_name :: "string \<Rightarrow> bool" where
  "plain_name i \<longleftrightarrow> i \<notin> {[], ''.'', ''..''} \<and> CHR ''/'' \<notin> set i"

lemma SplitByte_join: "es \<noteq> [] \<Longrightarrow> \<forall>e \<in> set es. c \<notin> set e \<Longrightarrow> SplitByte c (Join es [c]) = es"
proof (induction es)
  case (Cons e es)
  have head: "c \<notin> set e \<Longrightarrow> SplitByte c (e @ t) = (case SplitByte c t of w # ws \<Rightarrow> (e @ w) # ws)" for e t
    by (induction e) (auto split: list.split)
  have "c \<notin> set e \<Longrightarrow> SplitByte c e = [e]" for e by (induction e) auto
  with Cons show ?case by (cases es) (auto simp: head)
qed simp

lemma elements_snoc: "CHR ''/'' \<notin> set i \<Longrightarrow> elements (a @ CHR ''/'' # i) = elements a @ [i]"
proof (induction a)
  case Nil
  then have "SplitByte CHR ''/'' i = [i]" by (induction i) auto
  then show ?case by (simp add: elements_def)
next
  case (Cons c a)
  moreover obtain w ws where "elements a = w # ws" by (cases "elements a") (simp_all add: elements_def)
  ultimately show ?case by (simp add: elements_def)
qed

lemma clean_snoc: "plain_name i \<Longrightarrow> clean_elems r acc (es @ [i]) = clean_elems r acc es @ [i]"
  by (induction es arbitrary: acc) (auto simp: plain_name_def)

lemma clean_subset: "set (clean_elems r acc es) \<subseteq> set acc \<union> (set es - {[]})"
proof (induction es arbitrary: acc)
  case (Cons x es)
  have tl: "set (tl acc) \<subseteq> set acc" by (cases acc) auto
  consider "x = []" | "x \<noteq> []" "x = ''.''" | "x = ''..''" | "x \<notin> {[], ''.'', ''..''}" by blast
  then show ?case
  proof cases
    case 3
    then show ?thesis
      using Cons.IH [of "tl acc"] Cons.IH [of acc] Cons.IH [of "''..'' # acc"] tl by auto
  next
    case 4
    then show ?thesis using Cons.IH [of "x # acc"] by auto
  qed (use Cons.IH [of acc] in auto)
qed simp

definition clean_path :: "string \<Rightarrow> string list" where
  "clean_path p = clean_elems (rooted p) [] (elements p)"

lemma clean_path_elem:
  assumes "e \<in> set (clean_path p)"
  shows "CHR ''/'' \<notin> set e" "e \<noteq> []"
proof -
  have "e \<in> set (elements p) - {[]}"
    using assms clean_subset [of "rooted p" "[]" "elements p"] by (auto simp: clean_path_def)
  then show "CHR ''/'' \<notin> set e" "e \<noteq> []"
    using SplitByte_no_sep by (auto simp: elements_def)
qed

lemma Clean_text:
  "Clean p = (if rooted p then ''/'' @ Join (clean_path p) ''/''
     else if clean_path p = [] then ''.'' else Join (clean_path p) ''/'')"
  by (simp add: Clean_def Let_def clean_path_def)

lemma elements_Clean:
  "elements (Clean p) = (if rooted p then [] # (if clean_path p = [] then [[]] else clean_path p)
     else if clean_path p = [] then [''.''] else clean_path p)"
proof -
  have "SplitByte CHR ''/'' (Join (clean_path p) ''/'') = (if clean_path p = [] then [[]] else clean_path p)"
    using SplitByte_join [of "clean_path p" "CHR ''/''"] clean_path_elem by auto
  then show ?thesis by (simp add: Clean_text elements_def)
qed

lemma rooted_Clean: "rooted (Clean p) = rooted p"
proof (cases "rooted p")
  case False
  have "hd (Join (clean_path p) ''/'') \<noteq> CHR ''/''" if nonempty: "clean_path p \<noteq> []"
  proof -
    obtain e es where es: "clean_path p = e # es" using nonempty by (cases "clean_path p") auto
    then have "CHR ''/'' \<notin> set e" "e \<noteq> []" using clean_path_elem [of e p] by simp_all
    then have "hd (e @ t) \<noteq> CHR ''/''" for t by (cases e) auto
    then show ?thesis using es by (cases es) (simp_all, use \<open>e \<noteq> []\<close> in \<open>metis append_Nil2\<close>)
  qed
  with False show ?thesis
    by (cases "clean_path p = []"; cases "Join (clean_path p) ''/''") (auto simp: Clean_text rooted_def HasPrefix_def)
qed (simp add: Clean_text rooted_def HasPrefix_def)

lemma Clean_nonempty [simp]: "Clean p \<noteq> []"
proof (cases "clean_path p")
  case (Cons e es)
  then have "e \<noteq> []" using clean_path_elem [of e p] by simp
  with Cons show ?thesis by (cases es) (simp_all add: Clean_text)
qed (simp add: Clean_text)

lemma resolve_Clean:
  "resolve s (Clean p) = walk s (if rooted p then [] else fs_cwd s) (elements (Clean p))"
  by (simp add: resolve_def rooted_Clean)

lemma walk_append: "walk s p (es @ fs) = (case walk s p es of Inl e \<Rightarrow> Inl e | Inr q \<Rightarrow> walk s q fs)"
  by (induction es arbitrary: p) (auto split: option.split node.split)

end
