(* ===== verification/FsCache.thy ===== *)
theory FsCache
  imports Cache FileSystem
begin

text \<open>
  Component cache of reservations in files, file reservation_cache.go: one file of a directory per
  reservation, named by its identifier. The lock of the struct serialises the calls, so each is one
  step here. The engine's versioned storage is the parameter \<open>store_codec\<close>; \<open>fc_unreadable\<close> is what
  \<open>versioned.NewReader\<close> makes of a source whose reading fails: a version or nil, and an error or nil.
\<close>

record fs_codec =
  fc_store :: store_codec
  fc_unreadable :: "go_error \<Rightarrow> string option \<times> go_error option"

record Fs =
  fs_root :: string

definition NewFSCache :: "string \<Rightarrow> (fs, Fs) go" where
  "NewFSCache root = bindM (os_MkdirAll root) (\<lambda>_. returnM \<lparr>fs_root = root\<rparr>)"

text \<open>The part of \<open>get\<close> after the file is open.\<close>

definition decode_source :: "fs_codec \<Rightarrow> go_error + string \<Rightarrow> go_error + reservation" where
  "decode_source fc src =
     (case src of
        Inr b \<Rightarrow> decode_reservation (fc_store fc) b
      | Inl e \<Rightarrow>
         (case fc_unreadable fc e of (reader, err) \<Rightarrow>
          (case (if sc_not_versioned (fc_store fc) err then Some ''0.0.0'' else reader) of
             None \<Rightarrow> Inl nil_dereference
           | Some ver \<Rightarrow>
               if sc_in_range (fc_store fc) (''<='' @ reservationSchemaV1) ver then Inl e
               else Inl (NewErr (''unknown reservation object version ('' @ ver @ '')'')))))"

definition Fs_get :: "fs_codec \<Rightarrow> Fs \<Rightarrow> string \<Rightarrow> (fs, reservation) go" where
  "Fs_get fc c i =
     handleM (os_Open (filepath_Join (fs_root c) i)) (\<lambda>r. case r of
       Inl e \<Rightarrow> if IsNotExist e then raiseM (wrap_err e (''reservation '' @ i @ '' not found'')) else raiseM e
     | Inr f \<Rightarrow> bindM (read_file f) (\<lambda>src. liftM (decode_source fc src)))"

definition Fs_Sync :: "fs_codec \<Rightarrow> (reservation \<Rightarrow> 't \<Rightarrow> 't) \<Rightarrow> Fs \<Rightarrow> (fs \<times> 't, unit) go" where
  "Fs_Sync fc increment c =
     bindM (on_cache (ReadDir (fs_root c))) (\<lambda>infos.
     forM infos (\<lambda>info.
       if fi_IsDir info then returnM ()
       else bindM (on_cache (Fs_get fc c (fi_Name info))) (\<lambda>r. on_statser (increment r))))"

definition Fs_Add :: "fs_codec \<Rightarrow> Fs \<Rightarrow> reservation \<Rightarrow> (fs, unit) go" where
  "Fs_Add fc c r =
     bindM (os_MkdirAll (fs_root c)) (\<lambda>_.
     handleM (os_Create (filepath_Join (fs_root c) (ID r))) (\<lambda>h. case h of
       Inl e \<Rightarrow>
         if IsExist e then raiseM (NewErr (''reservation '' @ ID r @ '' already in the store'')) else raiseM e
     | Inr f \<Rightarrow>
         bindM (liftM (sc_header (fc_store fc) reservationSchemaLastVersion)) (\<lambda>head.
         bindM (file_Write f head) (\<lambda>_.
         bindM (liftM (sc_json (fc_store fc) r)) (\<lambda>body.
         file_Write f body)))))"

definition Fs_Remove :: "Fs \<Rightarrow> string \<Rightarrow> (fs, unit) go" where
  "Fs_Remove c i =
     handleM (os_Remove (filepath_Join (fs_root c) i)) (\<lambda>r. case r of
       Inl e \<Rightarrow> if IsNotExist e then returnM () else raiseM e
     | Inr u \<Rightarrow> returnM ())"

text \<open>The loop of \<open>GetExpired\<close>; \<open>rs\<close> is the slice so far. An empty file ends the call.\<close>

fun fs_expired :: "fs_codec \<Rightarrow> Fs \<Rightarrow> reservation list \<Rightarrow> FileInfo list \<Rightarrow> (fs, reservation list) go" where
  "fs_expired fc c rs [] = returnM rs"
| "fs_expired fc c rs (info # infos) =
     (if fi_IsDir info then fs_expired fc c rs infos
      else if fi_Size info = 0 then
        bindM (os_Remove (filepath_Join (fs_root c) (fi_Name info))) (\<lambda>_. returnM [])
      else bindM (Fs_get fc c (fi_Name info)) (\<lambda>r.
        fs_expired fc c (if sc_expired (fc_store fc) r then rs @ [r] else rs) infos))"

definition Fs_GetExpired :: "fs_codec \<Rightarrow> Fs \<Rightarrow> (fs, reservation list) go" where
  "Fs_GetExpired fc c = bindM (ReadDir (fs_root c)) (fs_expired fc c [])"

definition Fs_Get :: "fs_codec \<Rightarrow> Fs \<Rightarrow> string \<Rightarrow> (fs, reservation) go" where
  "Fs_Get fc c i = Fs_get fc c i"

definition Fs_Exists :: "Fs \<Rightarrow> string \<Rightarrow> (fs, bool) go" where
  "Fs_Exists c i =
     handleM (os_Stat (filepath_Join (fs_root c) i)) (\<lambda>r. case r of
       Inr n \<Rightarrow> returnM True
     | Inl e \<Rightarrow> if IsNotExist e then returnM False else raiseM e)"

definition Fs_Close :: "Fs \<Rightarrow> (fs, unit) go" where
  "Fs_Close c = returnM ()"

section \<open>The directory of a cache\<close>

text \<open>\<open>fs_dir c s d\<close>: the root of the cache is the directory at \<open>d\<close>, as it is written and as
  \<open>filepath.Join\<close> cleans it.\<close>

definition fs_dir :: "Fs \<Rightarrow> fs \<Rightarrow> place \<Rightarrow> bool" where
  "fs_dir c s d \<longleftrightarrow> node_at s d = Some Dir \<and> resolve s (fs_root c) = Inr d \<and> resolve s (Clean (fs_root c)) = Inr d"

lemma fs_dir_node: "fs_dir c s d \<Longrightarrow> node_at s d = Some Dir"
  by (simp add: fs_dir_def)

lemma plain_child: "plain_name i \<Longrightarrow> walk s p [i] = (case node_at s p of None \<Rightarrow> Inl ENOENT
    | Some Dir \<Rightarrow> Inr (p @ [i]) | Some (File b) \<Rightarrow> Inl ENOTDIR)"
  by (auto simp: plain_name_def step_def split: option.split node.split)

lemma resolve_child:
  assumes "fs_dir c s d" "plain_name i"
  shows "resolve s (filepath_Join (fs_root c) i) = Inr (d @ [i])"
proof -
  let ?root = "fs_root c"
  have d: "node_at s d = Some Dir" "?root \<noteq> []" "resolve s (Clean ?root) = Inr d"
    using assms(1) by (auto simp: fs_dir_def resolve_def split: if_splits)
  have i: "CHR ''/'' \<notin> set i" using assms(2) by (simp add: plain_name_def)
  have rooted: "rooted (?root @ ''/'' @ i) = rooted ?root"
    using d(2) by (cases ?root) (simp_all add: rooted_def HasPrefix_def)
  have path: "clean_path (?root @ ''/'' @ i) = clean_path ?root @ [i]"
    using elements_snoc [OF i, of ?root] clean_snoc [OF assms(2)] rooted by (simp add: clean_path_def)
  define es where "es = (if rooted ?root then [[]] else []) @ clean_path ?root"
  have "elements (Clean (?root @ ''/'' @ i)) = es @ [i]"
    using rooted path by (simp add: elements_Clean es_def)
  moreover have "walk s (if rooted ?root then [] else fs_cwd s) es = Inr d"
    using d(3) by (auto simp: resolve_Clean elements_Clean es_def step_def node_at_def split: if_splits option.splits node.splits)
  ultimately show ?thesis
    using d plain_child [OF assms(2), of s d] rooted
    by (simp add: filepath_Join_def resolve_Clean walk_append)
qed

section \<open>What the calls of the file system do there\<close>

lemma node_put [simp]:
  "node_at (put_node p n s) q = (if q = p \<and> p \<noteq> [] then Some n else node_at s q)"
  by (auto simp: node_at_def put_node_def update_conv)

lemma node_drop [simp]:
  "node_at (drop_node p s) q = (if q = p \<and> p \<noteq> [] then None else node_at s q)"
  by (auto simp: node_at_def drop_node_def delete_conv)

lemma node_room [simp]: "node_at (s\<lparr>fs_room := n\<rparr>) q = node_at s q"
  by (simp add: node_at_def)

lemma cwd_simps [simp]:
  "fs_cwd (put_node p n s) = fs_cwd s" "fs_cwd (drop_node p s) = fs_cwd s"
  by (simp_all add: put_node_def drop_node_def)

lemma walk_dirs_stay:
  "walk s p es = Inr q \<Longrightarrow> \<forall>x. node_at s x = Some Dir \<longrightarrow> node_at s' x = Some Dir \<Longrightarrow> walk s' p es = Inr q"
  by (induction es arbitrary: p) (auto split: option.splits node.splits)

lemma fs_dir_stays:
  assumes "fs_dir c s d" "\<forall>x. node_at s x = Some Dir \<longrightarrow> node_at s' x = Some Dir" "fs_cwd s' = fs_cwd s"
  shows "fs_dir c s' d"
  using assms by (auto simp: fs_dir_def resolve_def intro: walk_dirs_stay split: if_splits)

lemma make_dirs_done:
  "walk s p es = Inr q \<Longrightarrow> node_at s q = Some Dir \<Longrightarrow> make_dirs t p es s = (Inr (), s)"
proof (induction es arbitrary: p)
  case (Cons e es)
  then have rest: "walk s (step p e) es = Inr q" by (auto split: option.splits node.splits)
  have "node_at s (step p e) = Some Dir"
    using rest Cons.prems(2) by (cases es) (auto split: option.splits node.splits)
  with rest Cons show ?case by simp
qed simp

lemma mkdir_root: "fs_dir c s d \<Longrightarrow> os_MkdirAll (fs_root c) s = (Inr (), s)"
  using make_dirs_done by (auto simp: fs_dir_def os_MkdirAll_def resolve_def split: if_splits)

lemma error_kinds [simp]:
  "IsNotExist (path_error op p ENOENT)" "\<not> IsExist (path_error op p ENOENT)"
  "IsExist (path_error op p EEXIST)" "\<not> IsNotExist (path_error op p EISDIR)"
  by (simp_all add: IsNotExist_def IsExist_def path_error_def errnos)

lemma fs_get_child:
  assumes dir: "fs_dir c s d" and name: "plain_name i"
  shows "Fs_get fc c i s =
  (case node_at s (d @ [i]) of
     None \<Rightarrow> Inl (wrap_err (path_error ''open'' (filepath_Join (fs_root c) i) ENOENT) (''reservation '' @ i @ '' not found''))
   | Some Dir \<Rightarrow> decode_source fc (Inl (path_error ''read'' (filepath_Join (fs_root c) i) EISDIR))
   | Some (File b) \<Rightarrow> decode_reservation (fc_store fc) b, s)"
  using resolve_child [OF dir name]
  by (simp add: Fs_get_def os_Open_def at_path_def read_file_def go_defs decode_source_def split: option.split node.split)

lemma fs_exists_child:
  assumes dir: "fs_dir c s d" and name: "plain_name i"
  shows "Fs_Exists c i s = (Inr (node_at s (d @ [i]) \<noteq> None), s)"
  using resolve_child [OF dir name]
  by (simp add: Fs_Exists_def os_Stat_def at_path_def go_defs split: option.split)

lemma fs_remove_child:
  assumes dir: "fs_dir c s d" and name: "plain_name i" and "node_at s (d @ [i]) \<noteq> Some Dir"
  shows "os_Remove (filepath_Join (fs_root c) i) s =
      (if node_at s (d @ [i]) = None then (Inl (path_error ''remove'' (filepath_Join (fs_root c) i) ENOENT), s)
       else (Inr (), drop_node (d @ [i]) s))"
    and "Fs_Remove c i s = (Inr (), if node_at s (d @ [i]) = None then s else drop_node (d @ [i]) s)"
  using resolve_child [OF dir name] assms(3)
  by (auto simp: Fs_Remove_def os_Remove_def at_path_def go_defs split: option.split node.split)

lemma fs_create_child:
  assumes dir: "fs_dir c s d" and name: "plain_name i"
  shows "os_Create (filepath_Join (fs_root c) i) s =
  (if node_at s (d @ [i]) = None then (Inr (filepath_Join (fs_root c) i, d @ [i]), put_node (d @ [i]) (File []) s)
   else (Inl (path_error ''open'' (filepath_Join (fs_root c) i) EEXIST), s))"
  using resolve_child [OF dir name]
  by (auto simp: os_Create_def at_path_def)

lemma set_children: "set (children s p) = {i. node_at s (p @ [i]) \<noteq> None}"
proof -
  have "i \<in> set (children s p) \<longleftrightarrow> node_at s (p @ [i]) \<noteq> None" for i
  proof -
    have "i \<in> set (children s p) \<longleftrightarrow> (\<exists>q \<in> fst ` set (fs_nodes s). q \<noteq> [] \<and> butlast q = p \<and> last q = i)"
      by (auto simp: children_def)
    also have "\<dots> \<longleftrightarrow> p @ [i] \<in> fst ` set (fs_nodes s)"
      by (metis append_butlast_last_id butlast_snoc last_snoc snoc_eq_iff_butlast)
    finally show ?thesis by (simp add: node_at_def map_of_eq_None_iff)
  qed
  then show ?thesis by blast
qed

lemma distinct_children: "distinct (children s p)" "sorted (children s p)"
  by (simp_all add: children_def)

lemma read_root: "fs_dir c s d \<Longrightarrow> ReadDir (fs_root c) s = (Inr (map (file_info s d) (children s d)), s)"
  by (simp add: ReadDir_def at_path_def fs_dir_def)

end
