(* ===== verification/FsCacheProps.thy ===== *)
theory FsCacheProps
  imports FsCache CacheProps
begin

text \<open>
  The properties of the file cache: it meets the contract of a reservation cache while there is room
  on the device, it writes nothing outside its directory when the identifiers are names, a failed
  \<open>Add\<close> leaves a file behind, and \<open>GetExpired\<close> is exact.
\<close>

section \<open>The directory between two calls\<close>

text \<open>What every operation keeps: the root is a directory, and it holds files with plain names only.\<close>

definition fs_inv :: "Fs \<Rightarrow> place \<Rightarrow> fs \<Rightarrow> bool" where
  "fs_inv c d s \<longleftrightarrow> fs_dir c s d \<and> (\<forall>i n. node_at s (d @ [i]) = Some n \<longrightarrow> plain_name i \<and> n \<noteq> Dir)"

definition fs_stored :: "fs_codec \<Rightarrow> place \<Rightarrow> fs \<Rightarrow> string \<Rightarrow> reservation option" where
  "fs_stored fc d s i = (case node_at s (d @ [i]) of
     Some (File b) \<Rightarrow> (case decode_reservation (fc_store fc) b of Inr r \<Rightarrow> Some r | Inl e \<Rightarrow> None)
   | _ \<Rightarrow> None)"

text \<open>Every file that is not empty can be read.\<close>

definition fs_readable :: "fs_codec \<Rightarrow> place \<Rightarrow> fs \<Rightarrow> bool" where
  "fs_readable fc d s \<longleftrightarrow>
     (\<forall>i b. node_at s (d @ [i]) = Some (File b) \<and> b \<noteq> [] \<longrightarrow> (\<exists>r. decode_reservation (fc_store fc) b = Inr r))"

definition fits :: "fs \<Rightarrow> nat \<Rightarrow> bool" where
  "fits s n \<longleftrightarrow> (case fs_room s of None \<Rightarrow> True | Some m \<Rightarrow> n \<le> m)"

lemma fs_inv_dir: "fs_inv c d s \<Longrightarrow> fs_dir c s d"
  by (simp add: fs_inv_def)

lemma fs_inv_child: "fs_inv c d s \<Longrightarrow> node_at s (d @ [i]) = Some n \<Longrightarrow> plain_name i \<and> n \<noteq> Dir"
  by (simp add: fs_inv_def)

lemma fs_inv_put:
  assumes "fs_inv c d s" "plain_name i" "node_at s' = (node_at s)(d @ [i] := Some (File b))" "fs_cwd s' = fs_cwd s"
  shows "fs_inv c d s'"
proof -
  have "fs_dir c s' d"
    by (rule fs_dir_stays [OF fs_inv_dir [OF assms(1)]]) (use assms fs_inv_child [OF assms(1), of i Dir] in auto)
  then show ?thesis using assms by (auto simp: fs_inv_def)
qed

lemma fs_inv_drop:
  assumes "fs_inv c d s"
  shows "fs_inv c d (drop_node (d @ [i]) s)"
proof -
  have "fs_dir c (drop_node (d @ [i]) s) d"
    by (rule fs_dir_stays [OF fs_inv_dir [OF assms]]) (use fs_inv_child [OF assms, of i Dir] in auto)
  then show ?thesis using assms by (auto simp: fs_inv_def)
qed

section \<open>The operations\<close>

lemma write_child:
  assumes "node_at s q = Some (File a)" "q \<noteq> []"
  shows "fits s (length b) \<Longrightarrow> \<exists>s'. file_Write (p, q) b s = (Inr (), s') \<and>
      node_at s' = (node_at s)(q := Some (File (a @ b))) \<and> fs_cwd s' = fs_cwd s \<and>
      fs_room s' = map_option (\<lambda>m. m - length b) (fs_room s)"
    and "file_Write (p, q) b s = (x, s') \<Longrightarrow> \<exists>t. prefix t b \<and> (x = Inr () \<longleftrightarrow> t = b) \<and>
      node_at s' = (node_at s)(q := Some (File (a @ t))) \<and> fs_cwd s' = fs_cwd s"
proof -
  show "\<exists>s'. file_Write (p, q) b s = (Inr (), s') \<and>
      node_at s' = (node_at s)(q := Some (File (a @ b))) \<and> fs_cwd s' = fs_cwd s \<and>
      fs_room s' = map_option (\<lambda>m. m - length b) (fs_room s)" if "fits s (length b)"
    using that assms
    by (auto simp: file_Write_def append_bytes_def fits_def put_node_def node_at_def update_conv split: option.splits)
  show "\<exists>t. prefix t b \<and> (x = Inr () \<longleftrightarrow> t = b) \<and>
      node_at s' = (node_at s)(q := Some (File (a @ t))) \<and> fs_cwd s' = fs_cwd s" if run: "file_Write (p, q) b s = (x, s')"
  proof (cases "fits s (length b)")
    case True
    with run assms show ?thesis
      by (intro exI [of _ b]) (auto simp: file_Write_def append_bytes_def fits_def put_node_def node_at_def update_conv split: option.splits)
  next
    case False
    then obtain m where m: "fs_room s = Some m" "m < length b" by (auto simp: fits_def split: option.splits)
    then have "take m b \<noteq> b" by (metis length_take min_less_iff_conj nat_less_le)
    with run assms m show ?thesis
      by (intro exI [of _ "take m b"])
        (auto simp: file_Write_def append_bytes_def put_node_def node_at_def update_conv take_is_prefix)
  qed
qed

text \<open>An \<open>Add\<close> of a taken identifier, of a fresh one with room, and of a fresh one that fails.\<close>

lemma fs_add_run:
  assumes "fs_dir c s d" "plain_name (ID r)"
  shows "Fs_Add fc c r s =
    (if node_at s (d @ [ID r]) \<noteq> None then (Inl (NewErr (''reservation '' @ ID r @ '' already in the store'')), s)
     else case sc_header (fc_store fc) reservationSchemaLastVersion of
       Inl e \<Rightarrow> (Inl e, put_node (d @ [ID r]) (File []) s)
     | Inr h \<Rightarrow> (case file_Write (filepath_Join (fs_root c) (ID r), d @ [ID r]) h (put_node (d @ [ID r]) (File []) s) of
           (Inl e, s1) \<Rightarrow> (Inl e, s1)
         | (Inr u, s1) \<Rightarrow> (case sc_json (fc_store fc) r of
              Inl e \<Rightarrow> (Inl e, s1)
            | Inr j \<Rightarrow> file_Write (filepath_Join (fs_root c) (ID r), d @ [ID r]) j s1)))"
  using assms
  by (simp add: Fs_Add_def bindM_def handleM_def liftM_def raiseM_def mkdir_root fs_create_child split: sum.split prod.split)

lemma fs_add_taken:
  assumes "fs_dir c s d" "plain_name (ID r)" "node_at s (d @ [ID r]) \<noteq> None"
  shows "Fs_Add fc c r s = (Inl (NewErr (''reservation '' @ ID r @ '' already in the store'')), s)"
  using fs_add_run [OF assms(1,2)] assms(3) by simp

lemma fs_add_fresh:
  assumes "fs_dir c s d" "plain_name (ID r)" "node_at s (d @ [ID r]) = None"
    and enc: "encode_reservation (fc_store fc) r = Inr b" and room: "fits s (length b)"
  shows "\<exists>s'. Fs_Add fc c r s = (Inr (), s') \<and> node_at s' = (node_at s)(d @ [ID r] := Some (File b)) \<and>
    fs_cwd s' = fs_cwd s \<and> fs_room s' = map_option (\<lambda>m. m - length b) (fs_room s)"
proof -
  let ?q = "d @ [ID r]" and ?p = "filepath_Join (fs_root c) (ID r)"
  let ?s0 = "put_node ?q (File []) s"
  obtain h j where hj: "sc_header (fc_store fc) reservationSchemaLastVersion = Inr h" "sc_json (fc_store fc) r = Inr j" "b = h @ j"
    using enc by (auto simp: encode_reservation_def split: sum.splits)
  have "fs_room ?s0 = fs_room s" by (simp add: put_node_def)
  then have "fits ?s0 (length h)" using room hj(3) by (auto simp: fits_def split: option.splits)
  then obtain s1 where s1: "file_Write (?p, ?q) h ?s0 = (Inr (), s1)" "node_at s1 = (node_at ?s0)(?q := Some (File h))"
      "fs_cwd s1 = fs_cwd s" "fs_room s1 = map_option (\<lambda>m. m - length h) (fs_room s)"
    using write_child(1) [of ?s0 ?q "[]" h ?p] \<open>fs_room ?s0 = fs_room s\<close> by auto
  have "fits s1 (length j)" using room hj(3) s1(4) by (auto simp: fits_def split: option.splits)
  then obtain s2 where "file_Write (?p, ?q) j s1 = (Inr (), s2)" "node_at s2 = (node_at s1)(?q := Some (File (h @ j)))"
      "fs_cwd s2 = fs_cwd s1" "fs_room s2 = map_option (\<lambda>m. m - length j) (fs_room s1)"
    using write_child(1) [of s1 ?q h j ?p] s1(2) by auto
  then show ?thesis
    using assms(1-3) hj s1
    by (auto simp: fs_add_run option.map_comp comp_def fun_eq_iff diff_diff_left)
qed

lemma fs_add_any:
  assumes "fs_dir c s d" "plain_name (ID r)" "node_at s (d @ [ID r]) = None" and run: "Fs_Add fc c r s = (x, s')"
  shows "\<exists>b. node_at s' = (node_at s)(d @ [ID r] := Some (File b)) \<and> fs_cwd s' = fs_cwd s \<and>
    (\<forall>full. x \<noteq> Inr () \<and> encode_reservation (fc_store fc) r = Inr full \<longrightarrow> strict_prefix b full)"
proof -
  let ?q = "d @ [ID r]" and ?p = "filepath_Join (fs_root c) (ID r)" and ?sc = "fc_store fc"
  let ?s0 = "put_node ?q (File []) s"
  have s0: "node_at ?s0 = (node_at s)(?q := Some (File []))" "fs_cwd ?s0 = fs_cwd s"
    by (simp_all add: fun_eq_iff)
  note unfold = fs_add_run [OF assms(1,2)] assms(3)
  show ?thesis
  proof (cases "sc_header ?sc reservationSchemaLastVersion")
    case (Inl e)
    with run s0 show ?thesis by (intro exI [of _ "[]"]) (auto simp: unfold encode_reservation_def)
  next
    case h: (Inr h)
    obtain x1 s1 where w1: "file_Write (?p, ?q) h ?s0 = (x1, s1)" by fastforce
    from write_child(2) [OF _ _ this, of "[]"] s0 obtain t where t: "prefix t h" "x1 = Inr () \<longleftrightarrow> t = h"
      "node_at s1 = (node_at s)(?q := Some (File t))" "fs_cwd s1 = fs_cwd s" by auto
    show ?thesis
    proof (cases x1)
      case (Inl e)
      with run h w1 t show ?thesis
        by (intro exI [of _ t]) (auto simp: unfold encode_reservation_def strict_prefix_def prefix_def split: sum.splits)
    next
      case x1: (Inr u)
      with t(2) have "t = h" by simp
      with t(3) have s1: "node_at s1 = (node_at s)(?q := Some (File h))" by simp
      show ?thesis
      proof (cases "sc_json ?sc r")
        case (Inl e)
        with run h w1 x1 s1 t(4) show ?thesis by (intro exI [of _ h]) (auto simp: unfold encode_reservation_def)
      next
        case j: (Inr j)
        with run h w1 x1 have "file_Write (?p, ?q) j s1 = (x, s')" by (simp add: unfold)
        from write_child(2) [OF _ _ this, of h] s1 obtain t' where "prefix t' j" "x = Inr () \<longleftrightarrow> t' = j"
          "node_at s' = (node_at s)(?q := Some (File (h @ t')))" "fs_cwd s' = fs_cwd s1" by auto
        with h j t(4) show ?thesis
          by (intro exI [of _ "h @ t'"]) (auto simp: encode_reservation_def strict_prefix_def)
      qed
    qed
  qed
qed

text \<open>Reading changes nothing.\<close>

lemma fs_get_pure: "snd (Fs_get fc c i s) = s"
  by (simp add: Fs_get_def os_Open_def at_path_def read_file_def go_defs split: sum.split option.split)

lemma fs_sync_pure: "fst (snd (Fs_Sync fc inc c st)) = fst st"
proof -
  have loop: "fst (snd (forM infos (\<lambda>info. if fi_IsDir info then returnM ()
      else bindM (on_cache (Fs_get fc c (fi_Name info))) (\<lambda>r. on_statser (inc r))) st)) = fst st" for infos :: "FileInfo list" and st
  proof (induction infos arbitrary: st)
    case (Cons info infos)
    have "snd (Fs_get fc c (fi_Name info) (fst st)) = fst st" by (rule fs_get_pure)
    then obtain x where x: "Fs_get fc c (fi_Name info) (fst st) = (x, fst st)" by (cases "Fs_get fc c (fi_Name info) (fst st)") simp
    show ?case
      using Cons [of st] Cons [of "(fst st, inc (projr x) (snd st))"] x
      by (cases x; cases st) (simp_all add: bindM_def on_cache_def on_statser_def returnM_def)
  qed (simp add: returnM_def)
  show ?thesis
    by (cases st) (use loop in \<open>simp add: Fs_Sync_def bindM_def on_cache_def ReadDir_def at_path_def
      split: sum.split option.split node.split\<close>)
qed

text \<open>The loop of \<open>GetExpired\<close> on files that can be read.\<close>

lemma fs_expired_run:
  assumes inv: "fs_inv c d s" and readable: "fs_readable fc d s"
  shows "set ids \<subseteq> set (children s d) \<Longrightarrow> fs_expired fc c rs (map (file_info s d) ids) s =
    (case find (\<lambda>i. node_at s (d @ [i]) = Some (File [])) ids of
       Some i \<Rightarrow> (Inr [], drop_node (d @ [i]) s)
     | None \<Rightarrow> (Inr (rs @ filter (sc_expired (fc_store fc)) (map (\<lambda>i. the (fs_stored fc d s i)) ids)), s))"
proof (induction ids arbitrary: rs)
  case (Cons i ids)
  then obtain b where b: "node_at s (d @ [i]) = Some (File b)" "plain_name i"
    using fs_inv_child [OF inv, of i] by (auto simp: set_children) (metis node.exhaust)
  note run = fs_remove_child(1) [OF fs_inv_dir [OF inv] b(2)] fs_get_child [OF fs_inv_dir [OF inv] b(2)]
  show ?case
  proof (cases "b = []")
    case True
    with b run show ?thesis by (simp add: file_info_def bindM_def returnM_def)
  next
    case False
    then obtain r where "decode_reservation (fc_store fc) b = Inr r" using readable b by (auto simp: fs_readable_def)
    with False b run Cons show ?thesis
      by (simp add: file_info_def bindM_def fs_stored_def split: option.split)
  qed
qed (simp add: returnM_def)

lemma fs_expired_state:
  assumes inv: "fs_inv c d s"
  shows "set ids \<subseteq> set (children s d) \<Longrightarrow>
    snd (fs_expired fc c rs (map (file_info s d) ids) s) \<in> {s} \<union> (\<lambda>i. drop_node (d @ [i]) s) ` UNIV"
proof (induction ids arbitrary: rs)
  case (Cons i ids)
  then obtain b where b: "node_at s (d @ [i]) = Some (File b)" "plain_name i"
    using fs_inv_child [OF inv, of i] by (auto simp: set_children) (metis node.exhaust)
  note run = fs_remove_child(1) [OF fs_inv_dir [OF inv] b(2)] fs_get_child [OF fs_inv_dir [OF inv] b(2)]
  from b run Cons show ?case
    by (auto simp: file_info_def bindM_def returnM_def split: sum.split)
qed (simp add: returnM_def)

section \<open>The contract of a cache\<close>

definition fs_seen :: "fs_codec \<Rightarrow> reservation \<Rightarrow> reservation" where
  "fs_seen fc r = (case encode_reservation (fc_store fc) r of
     Inr b \<Rightarrow> (case decode_reservation (fc_store fc) b of Inr x \<Rightarrow> x | Inl e \<Rightarrow> r) | Inl e \<Rightarrow> r)"

definition fs_ok :: "fs_codec \<Rightarrow> Fs \<Rightarrow> place \<Rightarrow> fs \<Rightarrow> bool" where
  "fs_ok fc c d s \<longleftrightarrow> fs_inv c d s \<and> fs_room s = None \<and>
     (\<forall>i. node_at s (d @ [i]) \<noteq> None \<longrightarrow> fs_stored fc d s i \<noteq> None)"

lemma fs_stored_put:
  "node_at s' = (node_at s)(d @ [i] := Some (File b)) \<Longrightarrow> decode_reservation (fc_store fc) b = Inr r \<Longrightarrow>
   fs_stored fc d s' = (fs_stored fc d s)(i \<mapsto> r)"
  by (auto simp: fs_stored_def fun_eq_iff)

lemma fs_stored_drop: "fs_stored fc d (drop_node (d @ [i]) s) = (fs_stored fc d s)(i := None)"
  by (auto simp: fs_stored_def fun_eq_iff)

lemma room_drop: "fs_room s = None \<Longrightarrow> fs_room (drop_node p s) = None"
  by (simp add: drop_node_def)

lemma fs_stored_node: "fs_ok fc c d s \<Longrightarrow> fs_stored fc d s i = None \<longleftrightarrow> node_at s (d @ [i]) = None"
  by (auto simp: fs_ok_def fs_stored_def)

lemma fs_cache_contract:
  assumes sc: "versioned_store (fc_store fc)"
  shows "reservation_cache (Fs_Add fc c) (Fs_Remove c) (Fs_Get fc c) (Fs_Exists c)
    (fs_stored fc d) (fs_ok fc c d) (storable (fc_store fc)) plain_name (fs_seen fc)"
proof
  fix s assume ok: "fs_ok fc c d s"
  then have inv: "fs_inv c d s" and dir: "fs_dir c s d" and room: "fs_room s = None"
    by (simp_all add: fs_ok_def fs_inv_dir)
  show "\<exists>s'. Fs_Add fc c r s = (Inr (), s') \<and> fs_ok fc c d s' \<and> fs_stored fc d s' = (fs_stored fc d s)(ID r \<mapsto> fs_seen fc r)"
    if r: "storable (fc_store fc) r" "plain_name (ID r)" "fs_stored fc d s (ID r) = None" for r
  proof -
    obtain b t where b: "encode_reservation (fc_store fc) r = Inr b" "decode_reservation (fc_store fc) b = Inr (r\<lparr>Tag := t\<rparr>)"
      using r(1) versioned_store.decode_encode [OF sc] unfolding storable_def by blast
    have "fits s (length b)" using room by (simp add: fits_def)
    from fs_add_fresh [OF dir r(2) _ b(1) this] r(3) ok obtain s' where s': "Fs_Add fc c r s = (Inr (), s')"
      "node_at s' = (node_at s)(d @ [ID r] := Some (File b))" "fs_cwd s' = fs_cwd s" "fs_room s' = None"
      by (auto simp: fs_stored_node room)
    have stored: "fs_stored fc d s' = (fs_stored fc d s)(ID r \<mapsto> fs_seen fc r)"
      using fs_stored_put [OF s'(2) b(2)] b by (simp add: fs_seen_def)
    have "fs_ok fc c d s'"
      unfolding fs_ok_def stored using fs_inv_put [OF inv r(2) s'(2,3)] s' ok by (auto simp: fs_ok_def)
    with s' stored show ?thesis by blast
  qed
  fix i assume i: "plain_name i"
  note get = fs_get_child [OF dir i, of fc] and ex = fs_exists_child [OF dir i]
  have no_dir: "node_at s (d @ [i]) \<noteq> Some Dir" using fs_inv_child [OF inv, of i] by auto
  have "fs_ok fc c d (drop_node (d @ [i]) s)"
    unfolding fs_ok_def fs_stored_drop using fs_inv_drop [OF inv] ok room_drop [OF room] by (auto simp: fs_ok_def)
  then show "\<exists>s'. Fs_Remove c i s = (Inr (), s') \<and> fs_ok fc c d s' \<and> fs_stored fc d s' = (fs_stored fc d s)(i := None)"
    using fs_remove_child(2) [OF dir i no_dir] ok by (auto simp: fs_stored_drop fs_stored_node fun_upd_idem)
  show "\<exists>s'. Fs_Get fc c i s = (Inr r, s')" if "fs_stored fc d s i = Some r" for r
    using that get by (auto simp: Fs_Get_def fs_stored_def split: option.splits node.splits sum.splits)
  show "\<exists>e s'. Fs_Get fc c i s = (Inl e, s')" if "fs_stored fc d s i = None"
    using that get fs_stored_node [OF ok, of i] by (simp add: Fs_Get_def)
  show "\<exists>s'. Fs_Exists c i s = (Inr (fs_stored fc d s i \<noteq> None), s')"
    using ex fs_stored_node [OF ok, of i] by simp
qed

text \<open>A cache in \<open>/cache\<close>, with the store of the other cache's witnesses.\<close>

definition demo_fs_codec :: fs_codec where
  "demo_fs_codec = \<lparr>fc_store = demo_codec, fc_unreadable = \<lambda>e. (None, Some e)\<rparr>"

definition demo_fs :: Fs where
  "demo_fs = \<lparr>fs_root = ''/cache''\<rparr>"

definition demo_disk :: "(string \<times> string) list \<Rightarrow> nat option \<Rightarrow> fs" where
  "demo_disk files room = \<lparr>fs_nodes = ([''cache''], Dir) # map (\<lambda>(i, b). ([''cache'', i], File b)) files,
     fs_cwd = [], fs_room = room\<rparr>"

lemma demo_node: "node_at (demo_disk files room) [''cache'', i] = map_option File (map_of files i)"
  by (induction files) (auto simp: node_at_def demo_disk_def)

lemma demo_disk_inv:
  assumes "\<forall>i \<in> fst ` set files. plain_name i"
  shows "fs_inv demo_fs [''cache''] (demo_disk files room)"
proof -
  have root: "node_at (demo_disk files room) [] = Some Dir" "node_at (demo_disk files room) [''cache''] = Some Dir"
    by (simp_all add: node_at_def demo_disk_def)
  have "elements ''/cache'' = [[], ''cache'']" "Clean ''/cache'' = ''/cache''"
    by (simp_all add: elements_def Clean_def rooted_def HasPrefix_def)
  then have "fs_dir demo_fs (demo_disk files room) [''cache'']"
    using root by (simp add: fs_dir_def resolve_def rooted_def HasPrefix_def demo_fs_def step_def)
  with assms show ?thesis by (auto simp: fs_inv_def demo_node dest!: map_of_SomeD)
qed

interpretation fs_cache: reservation_cache "Fs_Add demo_fs_codec demo_fs" "Fs_Remove demo_fs" "Fs_Get demo_fs_codec demo_fs"
    "Fs_Exists demo_fs" "fs_stored demo_fs_codec [''cache'']" "fs_ok demo_fs_codec demo_fs [''cache'']"
    "storable demo_codec" plain_name "fs_seen demo_fs_codec"
  using fs_cache_contract [of demo_fs_codec] demo.versioned_store_axioms by (simp add: demo_fs_codec_def)

section \<open>Properties\<close>

text \<open>The states that calls with identifiers that are plain names can reach.\<close>

inductive fs_reach :: "fs_codec \<Rightarrow> Fs \<Rightarrow> fs \<Rightarrow> fs \<Rightarrow> bool" for fc c s where
  start: "fs_reach fc c s s"
| add: "fs_reach fc c s s1 \<Longrightarrow> plain_name (ID r) \<Longrightarrow> fs_reach fc c s (snd (Fs_Add fc c r s1))"
| remove: "fs_reach fc c s s1 \<Longrightarrow> plain_name i \<Longrightarrow> fs_reach fc c s (snd (Fs_Remove c i s1))"
| get: "fs_reach fc c s s1 \<Longrightarrow> fs_reach fc c s (snd (Fs_Get fc c i s1))"
| exists: "fs_reach fc c s s1 \<Longrightarrow> plain_name i \<Longrightarrow> fs_reach fc c s (snd (Fs_Exists c i s1))"
| expired: "fs_reach fc c s s1 \<Longrightarrow> fs_reach fc c s (snd (Fs_GetExpired fc c s1))"
| sync: "fs_reach fc c s s1 \<Longrightarrow> fs_reach fc c s (fst (snd (Fs_Sync fc inc c (s1, t :: nat))))"

lemma fs_expired_root:
  "fs_inv c d s \<Longrightarrow> Fs_GetExpired fc c s = fs_expired fc c [] (map (file_info s d) (children s d)) s"
  using read_root [OF fs_inv_dir, of c d s] by (simp add: Fs_GetExpired_def bindM_def)

definition outside_same :: "place \<Rightarrow> fs \<Rightarrow> fs \<Rightarrow> bool" where
  "outside_same d s s' \<longleftrightarrow> (\<forall>q. (\<forall>i. q \<noteq> d @ [i]) \<longrightarrow> node_at s' q = node_at s q)"

lemma outside_same_add:
  assumes "fs_inv c d s" "plain_name (ID r)"
  shows "fs_inv c d (snd (Fs_Add fc c r s)) \<and> outside_same d s (snd (Fs_Add fc c r s))"
proof (cases "node_at s (d @ [ID r])")
  case None
  obtain x s' where run: "Fs_Add fc c r s = (x, s')" by fastforce
  from fs_add_any [OF fs_inv_dir [OF assms(1)] assms(2) None run] obtain b where
    "node_at s' = (node_at s)(d @ [ID r] := Some (File b))" "fs_cwd s' = fs_cwd s" by blast
  with fs_inv_put [OF assms this] run show ?thesis by (auto simp: outside_same_def)
next
  case (Some n)
  with fs_add_taken [OF fs_inv_dir [OF assms(1)] assms(2)] assms(1) show ?thesis by (simp add: outside_same_def)
qed

lemma outside_same_remove:
  assumes "fs_inv c d s" "plain_name i"
  shows "fs_inv c d (snd (Fs_Remove c i s)) \<and> outside_same d s (snd (Fs_Remove c i s))"
proof -
  have "node_at s (d @ [i]) \<noteq> Some Dir" using fs_inv_child [OF assms(1), of i] by auto
  from fs_remove_child(2) [OF fs_inv_dir [OF assms(1)] assms(2) this] fs_inv_drop [OF assms(1)] assms(1) show ?thesis
    by (simp add: outside_same_def)
qed

lemma outside_same_expired:
  assumes "fs_inv c d s"
  shows "fs_inv c d (snd (Fs_GetExpired fc c s)) \<and> outside_same d s (snd (Fs_GetExpired fc c s))"
  using fs_expired_state [OF assms, of "children s d" fc "[]"] fs_inv_drop [OF assms] assms
  unfolding fs_expired_root [OF assms] by (auto simp: outside_same_def)

text \<open>
  C22: whatever calls with plain names as identifiers are made on a file cache and however they fail, the
  cache stays a directory of plainly named files, and no other place of the file system changes.
\<close>

theorem fs_cache_confined:
  assumes "fs_reach fc c s s'" and "fs_inv c d s"
  shows "fs_inv c d s' \<and> (\<forall>q. (\<forall>i. q \<noteq> d @ [i]) \<longrightarrow> node_at s' q = node_at s q)"
proof -
  have "fs_inv c d s' \<and> outside_same d s s'"
    using assms
  proof (induction rule: fs_reach.induct)
    case (add s1 r)
    with outside_same_add [of c d s1 r fc] show ?case by (simp add: outside_same_def)
  next
    case (remove s1 i)
    with outside_same_remove [of c d s1 i] show ?case by (simp add: outside_same_def)
  next
    case (exists s1 i)
    with fs_exists_child [OF fs_inv_dir, of c d s1 i] show ?case by simp
  next
    case (expired s1)
    with outside_same_expired [of c d s1 fc] show ?case by (simp add: outside_same_def)
  qed (simp_all add: outside_same_def Fs_Get_def fs_get_pure fs_sync_pure)
  then show ?thesis by (simp add: outside_same_def)
qed

definition disk :: "nat option \<Rightarrow> fs" where
  "disk room = demo_disk [(''1-1'', stored_text r_old)] room"

lemma disk_inv: "fs_inv demo_fs [''cache''] (disk room)"
  unfolding disk_def by (rule demo_disk_inv) (simp add: plain_name_def)

lemma r_new_name: "plain_name (ID r_new)" "ID r_new = ''2-1''"
  by (simp_all add: plain_name_def r_new_def plain_reservation_def)

lemma disk_node: "node_at (disk room) [''cache'', i] = (if i = ''1-1'' then Some (File (stored_text r_old)) else None)"
  by (simp add: disk_def demo_node)

lemma disk_top: "node_at (disk room) [''2-1''] = None"
  by (simp add: disk_def demo_disk_def node_at_def)

lemma fs_cache_confined_witness:
  "node_at (snd (Fs_Add demo_fs_codec demo_fs r_new (disk (Some 3)))) [''2-1''] = None"
  using fs_cache_confined [OF fs_reach.add [OF fs_reach.start r_new_name(1)] disk_inv, of demo_fs_codec "Some 3"]
  by (simp add: disk_top)

text \<open>
  C23: with room on the device, \<open>Add\<close> of a fresh identifier succeeds, \<open>Get\<close> gives the reservation back
  up to the tag that is not stored, \<open>Exists\<close> says yes, no other reservation changes, and \<open>Remove\<close> brings
  back the files and the room there were before.
\<close>

theorem fs_add_get:
  assumes "fs_inv c d s" "plain_name (ID r)" "node_at s (d @ [ID r]) = None" "versioned_store (fc_store fc)"
    and "encode_reservation (fc_store fc) r = Inr b" "fits s (length b)" "Fs_Add fc c r s = (x, s')"
  shows "x = Inr () \<and> (\<exists>t. fst (Fs_Get fc c (ID r) s') = Inr (r\<lparr>Tag := t\<rparr>)) \<and>
    fst (Fs_Exists c (ID r) s') = Inr True \<and>
    (\<forall>i. i \<noteq> ID r \<longrightarrow> fs_stored fc d s' i = fs_stored fc d s i) \<and>
    (\<exists>s''. Fs_Remove c (ID r) s' = (Inr (), s'') \<and> node_at s'' = node_at s \<and> fs_room s'' = fs_room s)"
proof -
  note dir = fs_inv_dir [OF assms(1)]
  from fs_add_fresh [OF dir assms(2,3,5,6)] assms(7) have s': "x = Inr ()"
    "node_at s' = (node_at s)(d @ [ID r] := Some (File b))" "fs_cwd s' = fs_cwd s"
    "fs_room s' = map_option (\<lambda>m. m - length b) (fs_room s)" by auto
  note dir' = fs_inv_dir [OF fs_inv_put [OF assms(1,2) s'(2,3)]]
  have "node_at (drop_node (d @ [ID r]) s') = node_at s" using s'(2) assms(3) by (simp add: fun_eq_iff)
  moreover have "fs_room (drop_node (d @ [ID r]) s') = fs_room s"
    using s'(2,4) assms(6) by (cases "fs_room s") (simp_all add: drop_node_def fits_def)
  ultimately show ?thesis
    using versioned_store.decode_encode [OF assms(4,5)] s' fs_exists_child [OF dir' assms(2)]
      fs_get_child [OF dir' assms(2), of fc] fs_remove_child(2) [OF dir' assms(2)]
    by (simp add: Fs_Get_def fs_stored_def)
qed

lemma r_new_bytes: "encode_reservation (fc_store demo_fs_codec) r_new = Inr (stored_text r_new)"
  using demo_reservations(2)
  by (simp add: demo_fs_codec_def demo_codec_def encode_reservation_def stored_text_def
      reservationSchemaLastVersion_def reservationSchemaV1_def)

lemma fs_add_get_witness:
  "\<exists>t. fst (Fs_Get demo_fs_codec demo_fs ''2-1'' (snd (Fs_Add demo_fs_codec demo_fs r_new (disk (Some 100))))) =
     Inr (r_new\<lparr>Tag := t\<rparr>)"
proof -
  obtain x s' where run: "Fs_Add demo_fs_codec demo_fs r_new (disk (Some 100)) = (x, s')" by fastforce
  have "length (stored_text r_new) \<le> 100" by code_simp
  then have "fits (disk (Some 100)) (length (stored_text r_new))" by (simp add: fits_def disk_def demo_disk_def)
  with fs_add_get [OF disk_inv r_new_name(1) _ _ r_new_bytes _ run] run show ?thesis
    by (simp add: disk_node r_new_name demo_fs_codec_def demo.versioned_store_axioms)
qed

text \<open>
  C38: when \<open>Add\<close> of a fresh identifier fails, for lack of room or because the reservation cannot be
  encoded, a file with less than the reservation stays in the cache: the identifier exists from then
  on, and a second \<open>Add\<close> is refused as if the first had succeeded.
\<close>

theorem fs_failed_add_blocks:
  assumes "fs_inv c d s" "plain_name (ID r)" "node_at s (d @ [ID r]) = None"
    and "Fs_Add fc c r s = (Inl e, s')" "ID r' = ID r"
  shows "(\<exists>b. node_at s' (d @ [ID r]) = Some (File b) \<and>
      (\<forall>full. encode_reservation (fc_store fc) r = Inr full \<longrightarrow> strict_prefix b full)) \<and>
    fst (Fs_Exists c (ID r) s') = Inr True \<and>
    Fs_Add fc c r' s' = (Inl (NewErr (''reservation '' @ ID r @ '' already in the store'')), s')"
proof -
  from fs_add_any [OF fs_inv_dir [OF assms(1)] assms(2,3,4)] obtain b where b:
    "node_at s' = (node_at s)(d @ [ID r] := Some (File b))" "fs_cwd s' = fs_cwd s"
    "\<forall>full. encode_reservation (fc_store fc) r = Inr full \<longrightarrow> strict_prefix b full" by auto
  note dir' = fs_inv_dir [OF fs_inv_put [OF assms(1,2) b(1,2)]]
  show ?thesis
    using b fs_exists_child [OF dir' assms(2)] fs_add_taken [OF dir', of r'] assms(2,5) by simp
qed

lemma fs_failed_add_blocks_witness:
  "Fs_Add demo_fs_codec demo_fs r_new (snd (Fs_Add demo_fs_codec demo_fs r_new (disk (Some 3)))) =
     (Inl (NewErr ''reservation 2-1 already in the store''), snd (Fs_Add demo_fs_codec demo_fs r_new (disk (Some 3))))"
proof -
  obtain x s' where run: "Fs_Add demo_fs_codec demo_fs r_new (disk (Some 3)) = (x, s')" by fastforce
  have "\<not> length (quote ''1.0.0'') \<le> 3" by code_simp
  moreover have "fs_room (put_node q n (disk (Some 3))) = Some 3" for q n
    by (simp add: put_node_def disk_def demo_disk_def)
  ultimately have "fst (Fs_Add demo_fs_codec demo_fs r_new (disk (Some 3))) \<noteq> Inr ()"
    unfolding fs_add_run [OF fs_inv_dir [OF disk_inv] r_new_name(1)]
    by (simp add: disk_node r_new_name demo_fs_codec_def demo_codec_def reservationSchemaLastVersion_def
        reservationSchemaV1_def file_Write_def)
  with run obtain e where "x = Inl e" by (cases x) auto
  with fs_failed_add_blocks [OF disk_inv r_new_name(1) _ _ refl, of "Some 3" demo_fs_codec e s'] run show ?thesis
    by (simp add: disk_node r_new_name)
qed

text \<open>
  C27: \<open>GetExpired\<close> returns the expired reservations in the order of their names; but when a file is empty,
  the first such file is removed and no reservation is returned at all.
\<close>

theorem fs_GetExpired_exact:
  assumes "fs_inv c d s" "fs_readable fc d s"
  shows "Fs_GetExpired fc c s =
    (case find (\<lambda>i. node_at s (d @ [i]) = Some (File [])) (children s d) of
       Some i \<Rightarrow> (Inr [], drop_node (d @ [i]) s)
     | None \<Rightarrow> (Inr (filter (sc_expired (fc_store fc)) (map (\<lambda>i. the (fs_stored fc d s i)) (children s d))), s))"
  unfolding fs_expired_root [OF assms(1)] using fs_expired_run [OF assms subset_refl, of "[]"] by (simp only: append_Nil)

lemma fs_GetExpired_exact_witness:
  "fst (Fs_GetExpired demo_fs_codec demo_fs (demo_disk [(''1-1'', stored_text r_old), (''3-1'', [])] None)) = Inr []"
proof -
  let ?s = "demo_disk [(''1-1'', stored_text r_old), (''3-1'', [])] None"
  have "fs_inv demo_fs [''cache''] ?s" by (rule demo_disk_inv) (simp add: plain_name_def)
  moreover have "fs_readable demo_fs_codec [''cache''] ?s"
    using demo_decode [of r_old] by (auto simp: fs_readable_def demo_node demo_fs_codec_def split: if_splits)
  moreover have "children ?s [''cache''] = [''1-1'', ''3-1'']" by (simp add: children_def demo_disk_def)
  moreover have "stored_text r_old \<noteq> []" by (simp add: stored_text_def quote_def)
  ultimately show ?thesis
    using fs_GetExpired_exact [of demo_fs "[''cache'']" ?s demo_fs_codec] by (simp add: demo_node)
qed

section \<open>An identifier that is no name\<close>

text \<open>Nothing checks the identifiers: one with \<open>..\<close> leads out of the directory of the cache.\<close>

lemma fs_identifier_escapes:
  "let s' = snd (Fs_Add demo_fs_codec demo_fs (r_new\<lparr>ID := ''../passwd''\<rparr>) (disk None)) in
   node_at (disk None) [''passwd''] = None \<and> node_at s' [''passwd''] \<noteq> None"
  by (simp add: Let_def Fs_Add_def bindM_def handleM_def liftM_def os_MkdirAll_def demo_fs_def disk_def demo_disk_def
    os_Create_def at_path_def filepath_Join_def Clean_def elements_def rooted_def HasPrefix_def resolve_def step_def
    node_at_def file_Write_def append_bytes_def put_node_def split: sum.split prod.split)

end
