(* ===== verification/Explorer.thy ===== *)
theory Explorer
  imports Counters
begin

text \<open>
  The client of the explorer, which is not part of the repository, as a parameter with the calls the
  program makes, and file feedback.go, which sends the engine's results to it.
\<close>

text \<open>What the gateway registers about itself.\<close>

record Location =
  loc_Continent :: string
  loc_Country :: string
  loc_City :: string
  loc_Longitude :: string
  loc_Latitude :: string

record Gateway =
  gw_NodeId :: string
  gw_FarmId :: int
  gw_PublicKeyHex :: string
  gw_OsVersion :: string
  gw_Location :: Location
  gw_ManagedDomains :: "string list"
  gw_DnsNameserver :: "string list"
  gw_TcpRouterPort :: int
  gw_FreeToUse :: bool

text \<open>\<open>Phonebook.Get\<close> is reduced to the public key of the user it returns.\<close>

record ('s, 'r) explorer =
  PhonebookGet :: "int \<Rightarrow> ('s, string) go"
  NodeWorkloadPutResult :: "string \<Rightarrow> string \<Rightarrow> schema_result \<Rightarrow> ('s, unit) go"
  NodeWorkloadPutDeleted :: "string \<Rightarrow> string \<Rightarrow> ('s, unit) go"
  GatewayUpdateReservedResources :: "string \<Rightarrow> 'r \<Rightarrow> WorkloadAmount \<Rightarrow> ('s, unit) go"
  GatewayRegister :: "Gateway \<Rightarrow> ('s, unit) go"
  GatewayUpdateUptime :: "string \<Rightarrow> 64 word \<Rightarrow> ('s, unit) go"

record ('s, 'r) Feedback =
  fb_client :: "('s, 'r) explorer"
  fb_converter :: "Result \<Rightarrow> go_error + schema_result"

definition NewFeedback :: "('s, 'r) explorer \<Rightarrow> (Result \<Rightarrow> go_error + schema_result) \<Rightarrow> ('s, 'r) Feedback" where
  "NewFeedback client converter = \<lparr>fb_client = client, fb_converter = converter\<rparr>"

definition send_feedback :: "('s, 'r) Feedback \<Rightarrow> string \<Rightarrow> Result \<Rightarrow> ('s, unit) go" where
  "send_feedback e nodeID r =
     bindM (wrapM (\<lambda>x. wrap_err x ''failed to convert result into schema type'') (liftM (fb_converter e r))) (\<lambda>wr.
     NodeWorkloadPutResult (fb_client e) nodeID (res_ID r) wr)"

definition Deleted :: "('s, 'r) Feedback \<Rightarrow> string \<Rightarrow> string \<Rightarrow> ('s, unit) go" where
  "Deleted e nodeID i = NodeWorkloadPutDeleted (fb_client e) nodeID i"

definition UpdateStats :: "('s, 'r) Feedback \<Rightarrow> string \<Rightarrow> WorkloadAmount \<Rightarrow> 'r \<Rightarrow> ('s, unit) go" where
  "UpdateStats e nodeID w u = GatewayUpdateReservedResources (fb_client e) nodeID u w"

end
