(* ===== verification/WorkloadCodec.thy ===== *)
theory WorkloadCodec
  imports Workloads IPText
begin

text \<open>
  The JSON form of the gateway's workloads is read back as the workload: the instances of the
  encoding contract for each struct, over texts that are valid UTF-8. The addresses that
  \<open>net.ParseIP\<close> returns, \<open>nil\<close> among them, are read back.
\<close>

lemma unat_32_max [simp]: "unat (p :: 32 word) < uint32_max"
  using unsigned_less [of p, where ?'a = nat] by (simp add: uint32_max_def)

lemma dec_port_enc [simp]: "dec_port (enc_int (uint p)) q = Some p"
proof -
  have "enc_int (uint p) = enc_int (int (unat p))" by simp
  then show ?thesis by (simp only: dec_port_def dec_uint32_enc unat_32_max) simp
qed

lemma workload_fields [simp]:
  "match_field [''domain''] ''domain'' = Some ''domain''"
  "match_field [''domain'', ''secret''] ''domain'' = Some ''domain''"
  "match_field [''domain'', ''secret''] ''secret'' = Some ''secret''"
  "match_field [''domain'', ''destination''] ''domain'' = Some ''domain''"
  "match_field [''domain'', ''destination''] ''destination'' = Some ''destination''"
  "match_field [''public_key''] ''public_key'' = Some ''public_key''"
  "match_field proxy_fields ''domain'' = Some ''domain''"
  "match_field proxy_fields ''addr'' = Some ''addr''"
  "match_field proxy_fields ''port'' = Some ''port''"
  "match_field proxy_fields ''port_tls'' = Some ''port_tls''"
  by (simp_all add: match_field_def proxy_fields_def)

interpretation delegate: json_codec enc_Delegate dec_Delegate "\<lambda>x. valid_utf8 (del_Domain x)"
  by unfold_locales
    (simp_all add: enc_Delegate_def dec_Delegate_def get_field_def to_valid_id ascii_valid ascii_def)

interpretation proxy: json_codec enc_Proxy dec_Proxy "\<lambda>x. valid_utf8 (px_Domain x) \<and> valid_utf8 (px_Addr x)"
  by unfold_locales
    (simp_all add: enc_Proxy_def dec_Proxy_def get_field_def to_valid_id ascii_valid ascii_def)

interpretation reverse: json_codec enc_ReverseProxy dec_ReverseProxy
    "\<lambda>x. valid_utf8 (rp_Domain x) \<and> valid_utf8 (rp_Secret x)"
  by unfold_locales
    (simp_all add: enc_ReverseProxy_def dec_ReverseProxy_def get_field_def to_valid_id ascii_valid ascii_def)

interpretation tunnel: json_codec enc_Gateway4to6 dec_Gateway4to6 "\<lambda>x. valid_utf8 (PublicKey x)"
  by unfold_locales
    (simp_all add: enc_Gateway4to6_def dec_Gateway4to6_def get_field_def to_valid_id ascii_valid ascii_def)

section \<open>Sub-domains\<close>

text \<open>The addresses whose JSON text is read as the address itself.\<close>

definition ip_readable :: "IP \<Rightarrow> bool" where
  "ip_readable ip \<longleftrightarrow> (\<exists>j. enc_IP ip = Some j \<and> dec_IP j = Some ip)"

lemma ip_readable_nil [simp]: "ip_readable []"
  by (simp add: ip_readable_def enc_IP_def)

lemma ip_readable_16: "length ip = 16 \<Longrightarrow> ip_readable ip"
  using ParseIP_String [of ip] by (auto simp: ip_readable_def enc_IP_def) (auto simp: ParseIP_def)

lemma ip_readable_ParseIP [simp]: "ip_readable (ParseIP s)"
  using ParseIP_length [of s] ip_readable_16 by fastforce

lemma enc_IP_shape: "enc_IP ip = Some j \<Longrightarrow> wf_json j \<and> norm_json j = j"
  by (auto simp: enc_IP_def ascii_valid to_valid_id split: if_splits)

lemma encode_IPs:
  assumes "list_all ip_readable ips"
  shows "\<exists>js. those (map enc_IP ips) = Some js \<and> those (map dec_IP js) = Some ips \<and>
    list_all wf_json js \<and> map norm_json js = js"
  using assms
proof (induction ips)
  case (Cons ip ips)
  then obtain j where j: "enc_IP ip = Some j" "dec_IP j = Some ip"
    by (auto simp: ip_readable_def)
  with Cons enc_IP_shape [OF j(1)] show ?case by auto
qed simp

definition wf_Subdomain :: "Subdomain \<Rightarrow> bool" where
  "wf_Subdomain x \<longleftrightarrow> valid_utf8 (sub_Domain x) \<and> list_all ip_readable (sub_IPs x)"

lemma marshal_Subdomain_ok:
  assumes "wf_Subdomain x"
  shows "\<exists>b. marshal_Subdomain x = Inr b \<and> json_unmarshal dec_Subdomain b = Inr x"
proof -
  obtain js where js: "those (map enc_IP (sub_IPs x)) = Some js" "those (map dec_IP js) = Some (sub_IPs x)"
    "list_all wf_json js" "map norm_json js = js"
    using encode_IPs assms by (metis wf_Subdomain_def)
  define j where "j = JObj [(''domain'', JStr (sub_Domain x)), (''destination'', JArr js)]"
  have "wf_json j" using js assms by (simp add: j_def wf_Subdomain_def list_all_iff)
  from parse_print [OF this] have "parse_json (print_json j) = Some j"
    using js assms by (simp add: j_def to_valid_id wf_Subdomain_def ascii_valid)
  moreover have "dec_Subdomain j = Some x"
    using js assms by (simp add: j_def dec_Subdomain_def get_field_def)
  moreover have "marshal_Subdomain x = Inr (print_json j)"
    using js by (simp add: marshal_Subdomain_def enc_Subdomain_def j_def)
  ultimately show ?thesis by (auto simp: json_unmarshal_def)
qed

end
