(* ===== verification/Provision.thy ===== *)
theory Provision
  imports Explorer WorkloadCodec Dns Proxy Wg
begin

text \<open>
  The handlers of the provisioning engine: the struct \<open>Provisioner\<close> of provision.go with its two
  dispatch tables, the decryption of secrets, and the handlers of delegate.go, subdomain.go, proxy.go,
  reserse_proxy.go and 4to6.go. The packages that are not in the repository are the parameter
  \<open>externals\<close>: the check of DNS names, the ciphers of zos, the wireguard calls and the enumerations
  of the explorer's workloads. The context argument and the log messages are left out.
\<close>

record 's externals =
  ext_isDNSName :: "string \<Rightarrow> bool"
  ext_Decrypt :: "string \<Rightarrow> string \<Rightarrow> go_error + string"
  ext_DecryptECDH :: "string \<Rightarrow> string \<Rightarrow> string \<Rightarrow> go_error + string"
  ext_wg :: "'s wg_api"
  ext_enums :: enums

record Gateway4to6Result =
  tun_IPs :: "string list"
  tun_Peers :: "Peer list"

text \<open>The interface value a handler returns.\<close>

datatype provision_result = NilResult | TunnelResult Gateway4to6Result

record ('s, 'r) Provisioner =
  prov_kp :: KeyPair
  prov_proxy :: "'s proxy_Mgr"
  prov_dns :: "'s dns_Mgr"
  prov_wg :: "wg_Mgr option"
  prov_explorer :: "('s, 'r) explorer"
  Provisioners :: "ReservationType \<rightharpoonup> (reservation \<Rightarrow> ('s, provision_result) go)"
  Decommissioners :: "ReservationType \<rightharpoonup> (reservation \<Rightarrow> ('s, unit) go)"

section \<open>Secrets\<close>

definition hex_error :: go_error where
  "hex_error = StdErr ''hex.DecodeString''"

definition hex_DecodeString :: "string \<Rightarrow> go_error + string" where
  "hex_DecodeString s = (case hex_decode s of None \<Rightarrow> Inl hex_error | Some b \<Rightarrow> Inr b)"

definition fetchUserPublicKey :: "('s, 'r) Provisioner \<Rightarrow> string \<Rightarrow> ('s, string) go" where
  "fetchUserPublicKey p userID =
     bindM (liftM (case atoi userID of None \<Rightarrow> Inl (StdErr ''strconv.Atoi'') | Some i \<Rightarrow> Inr i)) (\<lambda>iid.
     bindM (PhonebookGet (prov_explorer p) iid) (\<lambda>pubkey.
     liftM (hex_DecodeString pubkey)))"

definition decrypt :: "'s externals \<Rightarrow> ('s, 'r) Provisioner \<Rightarrow> string \<Rightarrow> string \<Rightarrow> int \<Rightarrow> ('s, string) go" where
  "decrypt X p msg userID reservationVersion =
     (if length msg = 0 then returnM []
      else
        bindM (liftM (hex_DecodeString msg)) (\<lambda>bytes.
        if reservationVersion = 0 then liftM (ext_Decrypt X bytes (kp_PrivateKey (prov_kp p)))
        else
          bindM (wrapM (\<lambda>e. wrap_err e (''failed to retrieve user '' @ userID @ '' public key''))
            (fetchUserPublicKey p userID)) (\<lambda>userPubKey.
          liftM (ext_DecryptECDH X bytes (kp_PrivateKey (prov_kp p)) userPubKey))))"

definition validate :: "ReverseProxy \<Rightarrow> string \<Rightarrow> go_error option" where
  "validate r user =
     (if rp_Domain r = [] then Some (NewErr ''domain cannot be empty'')
      else if rp_Secret r = [] then Some (NewErr ''secret cannot be empty'')
      else if \<not> HasPrefix (rp_Secret r) (user @ '':'') then
        Some (NewErr (''secret must follow the format '' @ quoted ''threebotID:random''))
      else None)"

section \<open>Handlers\<close>

definition domainDeleateProvision ::
    "'s externals \<Rightarrow> ('s, 'r) Provisioner \<Rightarrow> reservation \<Rightarrow> ('s, provision_result) go" where
  "domainDeleateProvision X p r =
     bindM (liftM (json_unmarshal dec_Delegate (Data r))) (\<lambda>data.
     bindM (AddDomainDelagate (ext_isDNSName X) (prov_dns p) (NodeID r) (User r) (del_Domain data)) (\<lambda>_.
     returnM NilResult))"

definition domainDeleateDecomission ::
    "'s externals \<Rightarrow> ('s, 'r) Provisioner \<Rightarrow> reservation \<Rightarrow> ('s, unit) go" where
  "domainDeleateDecomission X p r =
     bindM (liftM (json_unmarshal dec_Delegate (Data r))) (\<lambda>data.
     RemoveDomainDelagate (ext_isDNSName X) (prov_dns p) (User r) (del_Domain data))"

definition subDomainProvision ::
    "'s externals \<Rightarrow> ('s, 'r) Provisioner \<Rightarrow> reservation \<Rightarrow> ('s, provision_result) go" where
  "subDomainProvision X p r =
     bindM (liftM (json_unmarshal dec_Subdomain (Data r))) (\<lambda>data.
     bindM (AddSubdomain (ext_isDNSName X) (prov_dns p) (User r) (sub_Domain data) (sub_IPs data)) (\<lambda>_.
     returnM NilResult))"

definition subDomainDecomission ::
    "'s externals \<Rightarrow> ('s, 'r) Provisioner \<Rightarrow> reservation \<Rightarrow> ('s, unit) go" where
  "subDomainDecomission X p r =
     bindM (liftM (json_unmarshal dec_Subdomain (Data r))) (\<lambda>data.
     RemoveSubdomain (ext_isDNSName X) (prov_dns p) (User r) (sub_Domain data) (sub_IPs data))"

text \<open>\<open>int(data.Port)\<close> of an unsigned 32-bit number.\<close>

definition proxyProvision :: "('s, 'r) Provisioner \<Rightarrow> reservation \<Rightarrow> ('s, provision_result) go" where
  "proxyProvision p r =
     bindM (liftM (json_unmarshal dec_Proxy (Data r))) (\<lambda>data.
     bindM (AddProxy (prov_proxy p) (User r) (px_Domain data) (px_Addr data)
       (uint (px_Port data)) (uint (px_PortTLS data))) (\<lambda>_.
     returnM NilResult))"

definition proxyDecomission :: "('s, 'r) Provisioner \<Rightarrow> reservation \<Rightarrow> ('s, unit) go" where
  "proxyDecomission p r =
     bindM (liftM (json_unmarshal dec_Proxy (Data r))) (\<lambda>data.
     RemoveProxy (prov_proxy p) (User r) (px_Domain data))"

definition reverseProxyProvision ::
    "'s externals \<Rightarrow> ('s, 'r) Provisioner \<Rightarrow> reservation \<Rightarrow> ('s, provision_result) go" where
  "reverseProxyProvision X p r =
     bindM (liftM (json_unmarshal dec_ReverseProxy (Data r))) (\<lambda>data.
     bindM (wrapM (\<lambda>e. wrap_err e ''failed to decrypt secret'')
       (decrypt X p (rp_Secret data) (User r) (Version r))) (\<lambda>secret.
     let data = data\<lparr>rp_Secret := secret\<rparr> in
     case validate data (User r) of
       Some e \<Rightarrow> raiseM e
     | None \<Rightarrow>
         bindM (AddReverseProxy (prov_proxy p) (User r) (rp_Domain data) (rp_Secret data)) (\<lambda>_.
         returnM NilResult)))"

definition reverseProxyDecomission :: "('s, 'r) Provisioner \<Rightarrow> reservation \<Rightarrow> ('s, unit) go" where
  "reverseProxyDecomission p r =
     bindM (liftM (json_unmarshal dec_ReverseProxy (Data r))) (\<lambda>data.
     RemoveReverseProxy (prov_proxy p) (User r) (rp_Domain data))"

text \<open>Without a wireguard manager its methods would run on a nil pointer; the tables have no handler for
  tunnels then.\<close>

definition gateway4To6ProvisionImpl ::
    "'s externals \<Rightarrow> ('s, 'r) Provisioner \<Rightarrow> reservation \<Rightarrow> ('s, Gateway4to6Result) go" where
  "gateway4To6ProvisionImpl X p r =
     bindM (liftM (json_unmarshal dec_Gateway4to6 (Data r))) (\<lambda>data.
     case prov_wg p of
       None \<Rightarrow> raiseM nil_dereference
     | Some m \<Rightarrow>
         bindM (AddPeer (ext_wg X) m (User r) (PublicKey data)) (\<lambda>cfg.
         returnM \<lparr>tun_IPs = cfg_IPs cfg, tun_Peers = cfg_Peers cfg\<rparr>))"

definition gateway4To6Provision ::
    "'s externals \<Rightarrow> ('s, 'r) Provisioner \<Rightarrow> reservation \<Rightarrow> ('s, provision_result) go" where
  "gateway4To6Provision X p r = bindM (gateway4To6ProvisionImpl X p r) (\<lambda>x. returnM (TunnelResult x))"

definition gateway4To6Decomission ::
    "'s externals \<Rightarrow> ('s, 'r) Provisioner \<Rightarrow> reservation \<Rightarrow> ('s, unit) go" where
  "gateway4To6Decomission X p r =
     bindM (liftM (json_unmarshal dec_Gateway4to6 (Data r))) (\<lambda>data.
     case prov_wg p of
       None \<Rightarrow> raiseM nil_dereference
     | Some m \<Rightarrow> RemovePeer (ext_wg X) m (PublicKey data))"

section \<open>Dispatch\<close>

definition NewProvisioner ::
    "'s externals \<Rightarrow> 's proxy_Mgr \<Rightarrow> 's dns_Mgr \<Rightarrow> wg_Mgr option \<Rightarrow> KeyPair \<Rightarrow> ('s, 'r) explorer \<Rightarrow> ('s, 'r) Provisioner" where
  "NewProvisioner X px dns wg kp expl =
     (let E = ext_enums X;
          p = \<lparr>prov_kp = kp, prov_proxy = px, prov_dns = dns, prov_wg = wg, prov_explorer = expl,
            Provisioners = Map.empty, Decommissioners = Map.empty\<rparr>;
          q = p\<lparr>Provisioners :=
              [ProxyReservation E \<mapsto> proxyProvision p,
               ReverseProxyReservation E \<mapsto> reverseProxyProvision X p,
               SubDomainReservation E \<mapsto> subDomainProvision X p,
               DomainDeleateReservation E \<mapsto> domainDeleateProvision X p],
            Decommissioners :=
              [ProxyReservation E \<mapsto> proxyDecomission p,
               ReverseProxyReservation E \<mapsto> reverseProxyDecomission p,
               SubDomainReservation E \<mapsto> subDomainDecomission X p,
               DomainDeleateReservation E \<mapsto> domainDeleateDecomission X p]\<rparr>
      in if wg \<noteq> None then
           q\<lparr>Provisioners := (Provisioners q)(Gateway4To6Reservation E \<mapsto> gateway4To6Provision X p),
             Decommissioners := (Decommissioners q)(Gateway4To6Reservation E \<mapsto> gateway4To6Decomission X p)\<rparr>
         else q)"

end
