(* ===== verification/ProvisionSpec.thy ===== *)
theory ProvisionSpec
  imports Provision
begin

text \<open>
  What becomes of a workload. \<open>intended_provision\<close> and \<open>intended_removal\<close> say for each workload of
  the explorer which call of a manager it stands for; the facts of this theory relate them to the
  path the program takes: conversion to a reservation, the tables of handlers, the handler's own
  reading of the reservation's data.
\<close>

text \<open>The concrete type of a workload is the one its type says, and its texts are UTF-8.\<close>

fun wf_body :: "WorkloadType \<Rightarrow> workload_body \<Rightarrow> bool" where
  "wf_body WorkloadTypeProxy (GatewayProxy d a p t node) = (valid_utf8 d \<and> valid_utf8 a)"
| "wf_body WorkloadTypeReverseProxy (GatewayReverseProxy d s node) = (valid_utf8 d \<and> valid_utf8 s)"
| "wf_body WorkloadTypeSubDomain (GatewaySubdomain d ips node) = valid_utf8 d"
| "wf_body WorkloadTypeDomainDelegate (GatewayDelegate d node) = valid_utf8 d"
| "wf_body WorkloadTypeGateway4To6 (GatewayTunnel k node) = valid_utf8 k"
| "wf_body _ _ = False"

fun intended_provision ::
    "'s externals \<Rightarrow> ('s, 'r) Provisioner \<Rightarrow> string \<Rightarrow> int \<Rightarrow> workload_body \<Rightarrow> ('s, provision_result) go" where
  "intended_provision X p user version (GatewayProxy d a port tls node) =
     bindM (AddProxy (prov_proxy p) user d a (uint port) (uint tls)) (\<lambda>_. returnM NilResult)"
| "intended_provision X p user version (GatewayReverseProxy d s node) =
     bindM (wrapM (\<lambda>e. wrap_err e ''failed to decrypt secret'') (decrypt X p s user version)) (\<lambda>secret.
     case validate \<lparr>rp_Domain = d, rp_Secret = secret\<rparr> user of
       Some e \<Rightarrow> raiseM e
     | None \<Rightarrow> bindM (AddReverseProxy (prov_proxy p) user d secret) (\<lambda>_. returnM NilResult))"
| "intended_provision X p user version (GatewaySubdomain d ips node) =
     bindM (AddSubdomain (ext_isDNSName X) (prov_dns p) user d (map ParseIP ips)) (\<lambda>_. returnM NilResult)"
| "intended_provision X p user version (GatewayDelegate d node) =
     bindM (AddDomainDelagate (ext_isDNSName X) (prov_dns p) node user d) (\<lambda>_. returnM NilResult)"
| "intended_provision X p user version (GatewayTunnel k node) =
     bindM (AddPeer (ext_wg X) (the (prov_wg p)) user k) (\<lambda>cfg.
     returnM (TunnelResult \<lparr>tun_IPs = cfg_IPs cfg, tun_Peers = cfg_Peers cfg\<rparr>))"
| "intended_provision X p user version OtherWorkload = returnM NilResult"

fun intended_removal ::
    "'s externals \<Rightarrow> ('s, 'r) Provisioner \<Rightarrow> string \<Rightarrow> workload_body \<Rightarrow> ('s, unit) go" where
  "intended_removal X p user (GatewayProxy d a port tls node) = RemoveProxy (prov_proxy p) user d"
| "intended_removal X p user (GatewayReverseProxy d s node) = RemoveReverseProxy (prov_proxy p) user d"
| "intended_removal X p user (GatewaySubdomain d ips node) =
     RemoveSubdomain (ext_isDNSName X) (prov_dns p) user d (map ParseIP ips)"
| "intended_removal X p user (GatewayDelegate d node) =
     RemoveDomainDelagate (ext_isDNSName X) (prov_dns p) user d"
| "intended_removal X p user (GatewayTunnel k node) = RemovePeer (ext_wg X) (the (prov_wg p)) k"
| "intended_removal X p user OtherWorkload = returnM ()"

fun body_node :: "workload_body \<Rightarrow> string" where
  "body_node (GatewayProxy d a port tls node) = node"
| "body_node (GatewayReverseProxy d s node) = node"
| "body_node (GatewaySubdomain d ips node) = node"
| "body_node (GatewayDelegate d node) = node"
| "body_node (GatewayTunnel k node) = node"
| "body_node OtherWorkload = []"

section \<open>Reservations\<close>

lemma base_simps [simp]:
  "User (base_reservation E w) = itoa (GetCustomerTid w)"
  "Type (base_reservation E w) = wt_String E (GetWorkloadType w)"
  "Version (base_reservation E w) = GetVersion w"
  "ID (base_reservation E w) =
     (if GetReference w \<noteq> [] then GetReference w else itoa (GetID w) @ ''-'' @ itoa (WorkloadID w))"
  by (simp_all add: base_reservation_def Let_def)

lemma converter_simps [simp]:
  "proxyConverter (GatewayProxy d a p t node) =
     Inr (\<lparr>px_Domain = d, px_Addr = a, px_Port = p, px_PortTLS = t\<rparr>, node)"
  "reserveproxyConverter (GatewayReverseProxy d s node) = Inr (\<lparr>rp_Domain = d, rp_Secret = s\<rparr>, node)"
  "subdomainConverter (GatewaySubdomain d ips node) = Inr (\<lparr>sub_Domain = d, sub_IPs = map ParseIP ips\<rparr>, node)"
  "delegateConverter (GatewayDelegate d node) = Inr (\<lparr>del_Domain = d\<rparr>, node)"
  "gateway4To6Converter (GatewayTunnel k node) = Inr (\<lparr>PublicKey = k\<rparr>, node)"
  by (simp_all add: proxyConverter_def reserveproxyConverter_def subdomainConverter_def
      delegateConverter_def gateway4To6Converter_def)

lemma with_data_Inr [simp]:
  "with_data r (Inr (data, node)) f =
     (case f data of Inl e \<Rightarrow> Inl e | Inr b \<Rightarrow> Inr (r\<lparr>NodeID := node, Data := b\<rparr>))"
  by (simp add: with_data_def)

section \<open>Handlers run on what the converters wrote\<close>

lemma decrypt_cong:
  "prov_kp p = prov_kp q \<Longrightarrow> prov_explorer p = prov_explorer q \<Longrightarrow> decrypt X p = decrypt X q"
proof -
  assume same: "prov_kp p = prov_kp q" "prov_explorer p = prov_explorer q"
  then have fetch: "fetchUserPublicKey p = fetchUserPublicKey q"
    by (simp add: fetchUserPublicKey_def fun_eq_iff)
  show ?thesis unfolding decrypt_def same fetch by (rule refl)
qed

lemma bindM_liftM [simp]: "bindM (liftM (Inr x)) f = f x" "bindM (liftM (Inl e)) f = raiseM e"
  by (simp_all add: go_defs fun_eq_iff)

text \<open>Conversion and handler of each kind of workload.\<close>

lemma handle_workload:
  assumes "wf_body t b"
    and conv: "WorkloadToProvisionType E w = x" and "GetWorkloadType w = t" "Body w = b"
  shows "\<exists>r. x = Inr r \<and> User r = itoa (GetCustomerTid w) \<and> Type r = wt_String E t \<and> Version r = GetVersion w \<and>
    NodeID r = body_node b \<and>
    (case t of
       WorkloadTypeProxy \<Rightarrow> proxyProvision p r = intended_provision X p (User r) (Version r) b \<and>
         proxyDecomission p r = intended_removal X p (User r) b
     | WorkloadTypeReverseProxy \<Rightarrow> reverseProxyProvision X p r = intended_provision X p (User r) (Version r) b \<and>
         reverseProxyDecomission p r = intended_removal X p (User r) b
     | WorkloadTypeSubDomain \<Rightarrow> subDomainProvision X p r = intended_provision X p (User r) (Version r) b \<and>
         subDomainDecomission X p r = intended_removal X p (User r) b
     | WorkloadTypeDomainDelegate \<Rightarrow> domainDeleateProvision X p r = intended_provision X p (User r) (Version r) b \<and>
         domainDeleateDecomission X p r = intended_removal X p (User r) b
     | WorkloadTypeGateway4To6 \<Rightarrow> prov_wg p \<noteq> None \<longrightarrow>
         gateway4To6Provision X p r = intended_provision X p (User r) (Version r) b \<and>
         gateway4To6Decomission X p r = intended_removal X p (User r) b
     | WorkloadTypeOther k \<Rightarrow> False)"
  using assms
proof (cases "(t, b)" rule: wf_body.cases)
  case (3 d ips node)
  have "wf_Subdomain \<lparr>sub_Domain = d, sub_IPs = map ParseIP ips\<rparr>"
    using assms(1) 3 by (simp add: wf_Subdomain_def list_all_iff)
  from marshal_Subdomain_ok [OF this] obtain data where
    "marshal_Subdomain \<lparr>sub_Domain = d, sub_IPs = map ParseIP ips\<rparr> = Inr data"
    "json_unmarshal dec_Subdomain data = Inr \<lparr>sub_Domain = d, sub_IPs = map ParseIP ips\<rparr>" by blast
  with 3 assms show ?thesis
    by (auto simp: WorkloadToProvisionType_def subDomainProvision_def subDomainDecomission_def)
qed (auto simp: WorkloadToProvisionType_def proxyProvision_def proxyDecomission_def proxy.unmarshal_marshal
    reverseProxyProvision_def reverseProxyDecomission_def reverse.unmarshal_marshal
    domainDeleateProvision_def domainDeleateDecomission_def delegate.unmarshal_marshal
    gateway4To6Provision_def gateway4To6ProvisionImpl_def gateway4To6Decomission_def tunnel.unmarshal_marshal
    go_defs fun_eq_iff split: prod.splits sum.splits option.splits)

section \<open>Dispatch\<close>

lemma NewProvisioner_simps [simp]:
  "prov_kp (NewProvisioner X px dns wg kp expl) = kp"
  "prov_proxy (NewProvisioner X px dns wg kp expl) = px"
  "prov_dns (NewProvisioner X px dns wg kp expl) = dns"
  "prov_wg (NewProvisioner X px dns wg kp expl) = wg"
  "prov_explorer (NewProvisioner X px dns wg kp expl) = expl"
  by (simp_all add: NewProvisioner_def Let_def)

text \<open>The fields the handlers read.\<close>

definition same_managers :: "('s, 'r) Provisioner \<Rightarrow> ('s, 'r) Provisioner \<Rightarrow> bool" where
  "same_managers p q \<longleftrightarrow> prov_kp p = prov_kp q \<and> prov_proxy p = prov_proxy q \<and> prov_dns p = prov_dns q \<and>
     prov_wg p = prov_wg q \<and> prov_explorer p = prov_explorer q"

lemma intended_cong:
  assumes "same_managers p q"
  shows "intended_provision X p user v b = intended_provision X q user v b"
    and "intended_removal X p user b = intended_removal X q user b"
proof -
  have same: "prov_proxy p = prov_proxy q" "prov_dns p = prov_dns q" "prov_wg p = prov_wg q"
    using assms by (simp_all add: same_managers_def)
  have d: "decrypt X p = decrypt X q"
    using assms by (intro decrypt_cong) (simp_all add: same_managers_def)
  show "intended_provision X p user v b = intended_provision X q user v b"
    by (cases b) (simp_all only: intended_provision.simps same d)
  show "intended_removal X p user b = intended_removal X q user b"
    by (cases b) (simp_all only: intended_removal.simps same)
qed

text \<open>The two tables as functions of the reservation's type.\<close>

definition handler_table ::
    "'s externals \<Rightarrow> ('s, 'r) Provisioner \<Rightarrow> ReservationType \<Rightarrow> (reservation \<Rightarrow> ('s, provision_result) go) option" where
  "handler_table X p t =
     (if t = Gateway4To6Reservation (ext_enums X) \<and> prov_wg p \<noteq> None then Some (gateway4To6Provision X p)
      else if t = DomainDeleateReservation (ext_enums X) then Some (domainDeleateProvision X p)
      else if t = SubDomainReservation (ext_enums X) then Some (subDomainProvision X p)
      else if t = ReverseProxyReservation (ext_enums X) then Some (reverseProxyProvision X p)
      else if t = ProxyReservation (ext_enums X) then Some (proxyProvision p)
      else None)"

definition removal_table ::
    "'s externals \<Rightarrow> ('s, 'r) Provisioner \<Rightarrow> ReservationType \<Rightarrow> (reservation \<Rightarrow> ('s, unit) go) option" where
  "removal_table X p t =
     (if t = Gateway4To6Reservation (ext_enums X) \<and> prov_wg p \<noteq> None then Some (gateway4To6Decomission X p)
      else if t = DomainDeleateReservation (ext_enums X) then Some (domainDeleateDecomission X p)
      else if t = SubDomainReservation (ext_enums X) then Some (subDomainDecomission X p)
      else if t = ReverseProxyReservation (ext_enums X) then Some (reverseProxyDecomission p)
      else if t = ProxyReservation (ext_enums X) then Some (proxyDecomission p)
      else None)"

lemma dispatch:
  "\<exists>p. same_managers p (NewProvisioner X px dns wg kp expl) \<and>
    Provisioners (NewProvisioner X px dns wg kp expl) = handler_table X p \<and>
    Decommissioners (NewProvisioner X px dns wg kp expl) = removal_table X p"
proof (intro exI conjI)
  let ?p = "\<lparr>prov_kp = kp, prov_proxy = px, prov_dns = dns, prov_wg = wg, prov_explorer = expl,
        Provisioners = Map.empty, Decommissioners = Map.empty\<rparr>"
  show "same_managers ?p (NewProvisioner X px dns wg kp expl)"
    by (simp add: same_managers_def)
  show "Provisioners (NewProvisioner X px dns wg kp expl) = handler_table X ?p"
    by (rule ext) (cases wg; simp add: NewProvisioner_def Let_def handler_table_def)
  show "Decommissioners (NewProvisioner X px dns wg kp expl) = removal_table X ?p"
    by (rule ext) (cases wg; simp add: NewProvisioner_def Let_def removal_table_def)
qed

text \<open>The handlers that the tables have for a workload do what is intended.\<close>

lemma provisioned:
  assumes types: "distinct_types (ext_enums X)" and body: "wf_body (GetWorkloadType w) (Body w)"
    and wg: "GetWorkloadType w = WorkloadTypeGateway4To6 \<longrightarrow> wg \<noteq> None"
    and q: "q = NewProvisioner X px dns wg kp expl"
  shows "\<exists>r h u. WorkloadToProvisionType (ext_enums X) w = Inr r \<and>
    Provisioners q (Type r) = Some h \<and> h r = intended_provision X q (itoa (GetCustomerTid w)) (GetVersion w) (Body w) \<and>
    Decommissioners q (Type r) = Some u \<and> u r = intended_removal X q (itoa (GetCustomerTid w)) (Body w)"
proof -
  let ?E = "ext_enums X"
  obtain p where p: "same_managers p q"
    and tables: "Provisioners q = handler_table X p" "Decommissioners q = removal_table X p"
    using dispatch [of X px dns wg kp expl] unfolding q by blast
  have wgp: "GetWorkloadType w = WorkloadTypeGateway4To6 \<longrightarrow> prov_wg p \<noteq> None"
    using wg p by (simp add: same_managers_def q)
  obtain r where r: "WorkloadToProvisionType ?E w = Inr r"
    using handle_workload [OF body refl refl refl] by blast
  note facts = handle_workload [OF body r refl refl, of p X]
  have "wt_String ?E a \<noteq> wt_String ?E b" if "a \<noteq> b"
    "a \<in> {WorkloadTypeProxy, WorkloadTypeReverseProxy, WorkloadTypeSubDomain, WorkloadTypeDomainDelegate, WorkloadTypeGateway4To6}"
    "b \<in> {WorkloadTypeProxy, WorkloadTypeReverseProxy, WorkloadTypeSubDomain, WorkloadTypeDomainDelegate, WorkloadTypeGateway4To6}"
    for a b
    using types that unfolding distinct_types_def by auto
  note differ = this
  show ?thesis
    using facts wgp
    by (cases "GetWorkloadType w")
      (auto simp: r tables handler_table_def removal_table_def reservation_types differ intended_cong [OF p])
qed

end
