(* ===== verification/World.thy ===== *)
theory World
  imports ProvisionSpec RedisMem WgMem
begin

text \<open>
  A world to run the whole program on: the in-memory redis server and the in-memory kernel side by
  side. A call on one part leaves the other alone. The contracts of both hold for the parts.
\<close>

type_synonym world = "mem \<times> mem_kernel"

definition on_fst :: "('a, 'x) go \<Rightarrow> ('a \<times> 'b, 'x) go" where
  "on_fst m s = (case m (fst s) of (r, a) \<Rightarrow> (r, (a, snd s)))"

definition on_snd :: "('b, 'x) go \<Rightarrow> ('a \<times> 'b, 'x) go" where
  "on_snd m s = (case m (snd s) of (r, b) \<Rightarrow> (r, (fst s, b)))"

definition redis_on_fst :: "'a redis \<Rightarrow> ('a \<times> 'b) redis" where
  "redis_on_fst rd = \<lparr>
     do_HGET = (\<lambda>k f. on_fst (do_HGET rd k f)),
     do_HSET = (\<lambda>k f x. on_fst (do_HSET rd k f x)),
     do_HDEL = (\<lambda>k f. on_fst (do_HDEL rd k f)),
     do_HEXISTS = (\<lambda>k f. on_fst (do_HEXISTS rd k f)),
     do_HKEYS = (\<lambda>k. on_fst (do_HKEYS rd k)),
     do_GET = (\<lambda>k. on_fst (do_GET rd k)),
     do_SET = (\<lambda>k x. on_fst (do_SET rd k x)),
     do_DEL = (\<lambda>k. on_fst (do_DEL rd k)),
     do_KEYS = (\<lambda>pat. on_fst (do_KEYS rd pat)),
     do_TYPE = (\<lambda>k. on_fst (do_TYPE rd k)) \<rparr>"

definition world_redis :: "world redis" where
  "world_redis = redis_on_fst mem_redis"

definition redis_view :: "world \<Rightarrow> keyspace" where
  "redis_view s = mem_view (fst s)"

lemma answers_on_fst: "answers mem_view m c \<Longrightarrow> answers redis_view (on_fst m) c"
  by (auto simp: answers_def on_fst_def redis_view_def split: prod.splits)

lemma redis_on_fst_simps [simp]:
  "do_HGET (redis_on_fst rd) k f = on_fst (do_HGET rd k f)"
  "do_HSET (redis_on_fst rd) k f x = on_fst (do_HSET rd k f x)"
  "do_HDEL (redis_on_fst rd) k f = on_fst (do_HDEL rd k f)"
  "do_HEXISTS (redis_on_fst rd) k f = on_fst (do_HEXISTS rd k f)"
  "do_HKEYS (redis_on_fst rd) k = on_fst (do_HKEYS rd k)"
  "do_GET (redis_on_fst rd) k = on_fst (do_GET rd k)"
  "do_SET (redis_on_fst rd) k x = on_fst (do_SET rd k x)"
  "do_DEL (redis_on_fst rd) k = on_fst (do_DEL rd k)"
  "do_KEYS (redis_on_fst rd) pat = on_fst (do_KEYS rd pat)"
  "do_TYPE (redis_on_fst rd) k = on_fst (do_TYPE rd k)"
  by (simp_all add: redis_on_fst_def)

interpretation world: redis_reliable world_redis redis_view
  by unfold_locales (simp_all add: world_redis_def answers_on_fst mem_answers answers_serves)

definition wg_on_snd :: "'b wg_api \<Rightarrow> ('a \<times> 'b) wg_api" where
  "wg_on_snd W = \<lparr>
     api_NewKey = api_NewKey W, api_ParseKey = api_ParseKey W, api_PublicKey = api_PublicKey W,
     api_KeyString = api_KeyString W,
     api_NewLink = (\<lambda>i. on_snd (api_NewLink W i)),
     api_GetByName = (\<lambda>i. on_snd (api_GetByName W i)),
     api_Sysctl = (\<lambda>k v. on_snd (api_Sysctl W k v)),
     api_LinkByName = (\<lambda>i. on_snd (api_LinkByName W i)),
     api_LinkSetUp = (\<lambda>i. on_snd (api_LinkSetUp W i)),
     api_LinkDel = (\<lambda>i. on_snd (api_LinkDel W i)),
     api_SetAddr = (\<lambda>i a. on_snd (api_SetAddr W i a)),
     api_Ctl = on_snd (api_Ctl W),
     api_CtlClose = (\<lambda>cl. on_snd (api_CtlClose W cl)),
     api_Configure = (\<lambda>cl i cfg. on_snd (api_Configure W cl i cfg)) \<rparr>"

definition world_wg :: "world wg_api" where
  "world_wg = wg_on_snd mem_wg"

definition device_of :: "world \<Rightarrow> string \<rightharpoonup> wg_device" where
  "device_of s = kernel_view (snd s)"

interpretation worldwg: wg_kernel_up world_wg device_of
proof unfold_locales
  fix s s' :: world and i cl cfg u
  assume "api_Configure world_wg cl i cfg s = (u, s')"
  then have "api_Configure mem_wg cl i cfg (snd s) = (u, snd s')"
    by (auto simp: world_wg_def wg_on_snd_def on_snd_def split: prod.splits)
  from wgmem.configure [OF this] show "case u of Inl e \<Rightarrow> device_of s' = device_of s \<or>
       (\<exists>d cs. device_of s i = Some d \<and> set cs \<subseteq> set (config_changes cfg) \<and> device_of s' = (device_of s)(i \<mapsto> make_changes cs d))
     | Inr _ \<Rightarrow> \<exists>d. device_of s i = Some d \<and> device_of s' = (device_of s)(i \<mapsto> apply_config cfg d)"
    unfolding device_of_def .
next
  fix s :: world and i cl cfg
  assume "device_of s i \<noteq> None"
  then obtain k where "api_Configure mem_wg cl i cfg (snd s) = (Inr (), k)"
    using wgmem.configure_up [of "snd s" i cl cfg] by (auto simp: device_of_def)
  then show "\<exists>s'. api_Configure world_wg cl i cfg s = (Inr (), s')"
    by (simp add: world_wg_def wg_on_snd_def on_snd_def)
next
  fix x t
  show "api_ParseKey world_wg x \<noteq> Inl (Panic t)"
    using wgmem.key_no_panic by (simp add: world_wg_def wg_on_snd_def)
qed (auto simp: world_wg_def wg_on_snd_def on_snd_def mem_wg_def returnM_def device_of_def split: prod.splits)

text \<open>An explorer that knows no user, and ciphers that leave the text as it is.\<close>

definition no_explorer :: "('s, 'r) explorer" where
  "no_explorer = \<lparr>PhonebookGet = (\<lambda>i. raiseM (Extern ''404 Not Found'')),
     NodeWorkloadPutResult = (\<lambda>n i r. returnM ()), NodeWorkloadPutDeleted = (\<lambda>n i. returnM ()),
     GatewayUpdateReservedResources = (\<lambda>n u w. returnM ()), GatewayRegister = (\<lambda>g. returnM ()),
     GatewayUpdateUptime = (\<lambda>n u. returnM ())\<rparr>"

text \<open>The texts of the explorer's workload types.\<close>

definition demo_enums :: enums where
  "demo_enums = \<lparr>wt_String = (\<lambda>t. case t of
       WorkloadTypeProxy \<Rightarrow> ''proxy'' | WorkloadTypeReverseProxy \<Rightarrow> ''reverse_proxy''
     | WorkloadTypeSubDomain \<Rightarrow> ''subdomain'' | WorkloadTypeDomainDelegate \<Rightarrow> ''domain_delegate''
     | WorkloadTypeGateway4To6 \<Rightarrow> ''gateway4to6'' | WorkloadTypeOther k \<Rightarrow> ''unknown''),
     state_to_schema = (\<lambda>i. i), state_from_schema = (\<lambda>i. i)\<rparr>"

lemma demo_distinct [simp]: "distinct_types demo_enums"
  by (simp add: distinct_types_def demo_enums_def)

definition demo_externals :: "'s wg_api \<Rightarrow> 's externals" where
  "demo_externals W = \<lparr>ext_isDNSName = (\<lambda>d. CHR ''/'' \<notin> set d), ext_Decrypt = (\<lambda>b k. Inr b),
     ext_DecryptECDH = (\<lambda>b k u. Inr b), ext_wg = W, ext_enums = demo_enums\<rparr>"

lemma demo_externals_simps [simp]:
  "ext_isDNSName (demo_externals W) d = (CHR ''/'' \<notin> set d)" "ext_wg (demo_externals W) = W"
  "ext_enums (demo_externals W) = demo_enums" "ext_Decrypt (demo_externals W) b k = Inr b"
  "ext_DecryptECDH (demo_externals W) b k u = Inr b"
  by (simp_all add: demo_externals_def)

text \<open>The same kernel beside a connection to redis that fails.\<close>

type_synonym flaky_world = "flaky \<times> mem_kernel"

definition flaky_world_view :: "flaky_world \<Rightarrow> keyspace" where
  "flaky_world_view s = flaky_view (fst s)"

lemma serves_on_fst: "serves flaky_view m c \<Longrightarrow> serves flaky_world_view (on_fst m) c"
  by (auto simp: serves_def on_fst_def flaky_world_view_def split: prod.splits)

interpretation flaky_world: redis_service "redis_on_fst flaky_redis" flaky_world_view
  by unfold_locales
    (simp_all add: serves_on_fst flaky.serves_hget flaky.serves_hset flaky.serves_hdel flaky.serves_hexists
      flaky.serves_hkeys flaky.serves_get flaky.serves_set flaky.serves_del flaky.serves_keys flaky.serves_type)

end
