(* ===== verification/GatewaySteps.thy ===== *)
theory GatewaySteps
  imports World DnsIsolation ProxyProps Cache
begin

text \<open>
  The components together. The DNS manager, the proxy manager and the cache keep their data in one
  redis; the engine calls the handlers of the provisioner, the clean-up and the cache in any order.
  The steps are a relation on the state of the world, and the facts of this theory say which keys a
  step may write. The locale \<open>gateway_world\<close> is what the handlers rely on: the service redis, and
  calls to the explorer, the kernel and the ciphers that leave redis alone and do not panic.
\<close>

section \<open>Calls outside redis\<close>

definition outside :: "('s \<Rightarrow> keyspace) \<Rightarrow> ('s, 'a) go \<Rightarrow> bool" where
  "outside view m \<longleftrightarrow> (\<forall>s r s'. m s = (r, s') \<longrightarrow> view s' = view s \<and> (\<forall>t. r \<noteq> Inl (Panic t)))"

lemma panic_iff: "is_panic e \<longleftrightarrow> (\<exists>t. e = Panic t)"
  by (auto simp: is_panic_def split: go_error.splits)

lemma safe_outside: "outside view m \<Longrightarrow> safe_call view P m"
  unfolding safe_call_def outside_def by (auto simp: panic_iff intro!: wpM_I)

lemma safe_defer: "safe_call view P body \<Longrightarrow> safe_call view P clean \<Longrightarrow> safe_call view P (deferM clean body)"
  unfolding safe_call_def wpM_deferM
proof (intro allI impI)
  fix s
  assume body: "\<forall>s. P (view s) \<longrightarrow> wpM body (\<lambda>r s'. P (view s') \<and> (\<forall>e. r = Inl e \<longrightarrow> \<not> is_panic e)) s"
    and clean: "\<forall>s. P (view s) \<longrightarrow> wpM clean (\<lambda>r s'. P (view s') \<and> (\<forall>e. r = Inl e \<longrightarrow> \<not> is_panic e)) s"
    and "P (view s)"
  then have "wpM body (\<lambda>r s'. P (view s') \<and> (\<forall>e. r = Inl e \<longrightarrow> \<not> is_panic e)) s" by blast
  then show "wpM body (\<lambda>r. wpM clean (\<lambda>_ s'. P (view s') \<and> (\<forall>e. r = Inl e \<longrightarrow> \<not> is_panic e))) s"
  proof (rule wpM_mono)
    fix r s' assume "P (view s') \<and> (\<forall>e. r = Inl e \<longrightarrow> \<not> is_panic e)"
    with clean show "wpM clean (\<lambda>_ s'. P (view s') \<and> (\<forall>e. r = Inl e \<longrightarrow> \<not> is_panic e)) s'"
      by (auto elim: wpM_mono)
  qed
qed

lemma safe_unit: "safe_call view P m \<Longrightarrow> safe_call view P (bindM m (\<lambda>_. returnM x))"
  by (intro safe_bind safe_return)

text \<open>A call that keeps a property of the keyspace, and may panic.\<close>

definition maintains :: "('s \<Rightarrow> keyspace) \<Rightarrow> (keyspace \<Rightarrow> bool) \<Rightarrow> ('s, 'a) go \<Rightarrow> bool" where
  "maintains view P m \<longleftrightarrow> (\<forall>s. P (view s) \<longrightarrow> wpM m (\<lambda>r s'. P (view s')) s)"

lemma maintainsD: "maintains view P m \<Longrightarrow> P (view s) \<Longrightarrow> m s = (r, s') \<Longrightarrow> P (view s')"
  unfolding maintains_def wpM_def by (erule allE [of _ s]) simp

lemma safe_maintains: "safe_call view P m \<Longrightarrow> maintains view P m"
  unfolding maintains_def safe_call_def by (auto elim: wpM_mono)

lemma maintains_bind: "maintains view P m \<Longrightarrow> (\<And>x. maintains view P (f x)) \<Longrightarrow> maintains view P (bindM m f)"
  unfolding maintains_def wpM_bindM
proof (intro allI impI)
  fix s
  assume m: "\<forall>s. P (view s) \<longrightarrow> wpM m (\<lambda>r s'. P (view s')) s"
    and f: "\<And>x. \<forall>s. P (view s) \<longrightarrow> wpM (f x) (\<lambda>r s'. P (view s')) s" and "P (view s)"
  then have "wpM m (\<lambda>r s'. P (view s')) s" by blast
  then show "wpM m (\<lambda>r s'. case r of Inl e \<Rightarrow> P (view s') | Inr x \<Rightarrow> wpM (f x) (\<lambda>r s'. P (view s')) s') s"
    by (rule wpM_mono) (use f in \<open>simp split: sum.split\<close>)
qed

lemma maintains_pure: "maintains view P (liftM r)" "maintains view P (returnM x)"
  by (simp_all add: maintains_def)

section \<open>Steps\<close>

text \<open>
  The engine calls the handlers, its timer the clean-up, and both the engine and its source of
  expired reservations the cache. The value of a reading step goes to the engine, which decides on
  the next step; as any sequence of steps is covered, the value is dropped here.
\<close>

datatype gateway_op =
    Provision reservation
  | Decommission reservation
  | CleanZones
  | Remember reservation
  | Forget string
  | Recall string
  | Known string
  | Expired

fun run_gateway ::
    "store_codec \<Rightarrow> 's RedisCache \<Rightarrow> ('s, 'r) Provisioner \<Rightarrow> gateway_op \<Rightarrow> ('s, unit) go" where
  "run_gateway sc c q (Provision r) =
     (case Provisioners q (Type r) of None \<Rightarrow> returnM () | Some h \<Rightarrow> bindM (h r) (\<lambda>_. returnM ()))"
| "run_gateway sc c q (Decommission r) =
     (case Decommissioners q (Type r) of None \<Rightarrow> returnM () | Some h \<Rightarrow> h r)"
| "run_gateway sc c q CleanZones = Cleanup (prov_dns q)"
| "run_gateway sc c q (Remember r) = Cache_Add sc c r"
| "run_gateway sc c q (Forget i) = Cache_Remove c i"
| "run_gateway sc c q (Recall i) = bindM (Cache_Get sc c i) (\<lambda>_. returnM ())"
| "run_gateway sc c q (Known i) = bindM (Cache_Exists c i) (\<lambda>_. returnM ())"
| "run_gateway sc c q Expired = bindM (GetExpired sc c) (\<lambda>_. returnM ())"

text \<open>The steps that read the cache.\<close>

fun reads_cache :: "gateway_op \<Rightarrow> bool" where
  "reads_cache (Recall i) = True"
| "reads_cache (Known i) = True"
| "reads_cache Expired = True"
| "reads_cache _ = False"

text \<open>The user on whose behalf a step runs, and the entry of the cache it changes.\<close>

fun step_user :: "gateway_op \<Rightarrow> string option" where
  "step_user (Provision r) = Some (User r)"
| "step_user (Decommission r) = Some (User r)"
| "step_user _ = None"

fun step_entry :: "gateway_op \<Rightarrow> string option" where
  "step_entry (Remember r) = Some (ID r)"
| "step_entry (Forget i) = Some i"
| "step_entry _ = None"

inductive gateway_reach ::
    "store_codec \<Rightarrow> 's RedisCache \<Rightarrow> ('s, 'r) Provisioner \<Rightarrow> (gateway_op \<Rightarrow> bool) \<Rightarrow> 's \<Rightarrow> 's \<Rightarrow> bool"
  for sc c q allowed s where
  start: "gateway_reach sc c q allowed s s"
| step: "gateway_reach sc c q allowed s s' \<Longrightarrow> allowed op1 \<Longrightarrow> run_gateway sc c q op1 s' = (r, s'') \<Longrightarrow>
    gateway_reach sc c q allowed s s''"

lemma gateway_reach_invariant:
  assumes "gateway_reach sc c q allowed s s'" and "P (view s)"
    and "\<And>op1. allowed op1 \<Longrightarrow> maintains view P (run_gateway sc c q op1)"
  shows "P (view s')"
  using assms by induction (blast dest: maintainsD)+

section \<open>What the handlers do to redis\<close>

locale gateway_world = redis_service rd view
  for rd :: "'s redis" and view :: "'s \<Rightarrow> keyspace" +
  fixes X :: "'s externals" and expl :: "('s, 'r) explorer"
  assumes outside_phonebook: "outside view (PhonebookGet expl i)"
    and outside_ctl: "outside view (api_Ctl (ext_wg X))"
    and outside_close: "outside view (api_CtlClose (ext_wg X) cl)"
    and outside_configure: "outside view (api_Configure (ext_wg X) cl iface cfg)"
    and key_no_panic: "api_ParseKey (ext_wg X) k \<noteq> Inl (Panic t)"
    and decrypt_no_panic: "ext_Decrypt X b k \<noteq> Inl (Panic t)"
    and ecdh_no_panic: "ext_DecryptECDH X b k u \<noteq> Inl (Panic t)"
begin

lemma pure_no_panic:
  "api_ParseKey (ext_wg X) k = Inl e \<Longrightarrow> \<not> is_panic e"
  "ext_Decrypt X b k = Inl e \<Longrightarrow> \<not> is_panic e"
  "ext_DecryptECDH X b k u = Inl e \<Longrightarrow> \<not> is_panic e"
  "hex_DecodeString t = Inl e \<Longrightarrow> \<not> is_panic e"
  "map_sum_list parse_net ts = Inl e \<Longrightarrow> \<not> is_panic e"
proof -
  show "map_sum_list parse_net ts = Inl e \<Longrightarrow> \<not> is_panic e"
    by (induction ts) (auto simp: parse_net_def ParseCIDR_def cidr_error_def Let_def
        split: sum.splits option.splits if_splits prod.splits)
qed (use key_no_panic decrypt_no_panic ecdh_no_panic in
    \<open>auto simp: panic_iff hex_DecodeString_def hex_error_def split: option.splits\<close>)

lemmas safe_outsides = safe_outside [OF outside_phonebook] safe_outside [OF outside_ctl]
  safe_outside [OF outside_close] safe_outside [OF outside_configure]

lemma safe_decrypt:
  assumes "prov_explorer p = expl"
  shows "safe_call view P (decrypt X p msg u ver)"
  unfolding decrypt_def fetchUserPublicKey_def assms
  by (intro safe_rules safe_lift safe_outsides is_panic_simps) (auto dest: pure_no_panic split: option.splits)

lemma safe_AddPeer: "safe_call view P (AddPeer (ext_wg X) m u k)"
  unfolding AddPeer_def appendPeer_def pool_Get_eq
  by (intro safe_rules safe_defer safe_lift safe_outsides) (erule pure_no_panic | simp)+

lemma safe_RemovePeer: "safe_call view P (RemovePeer (ext_wg X) m k)"
  unfolding RemovePeer_def removePeer_def
  by (intro safe_rules safe_defer safe_lift safe_outsides) (erule pure_no_panic | simp)+

text \<open>A handler is safe when the operations of its managers are, on behalf of the reservation's user.\<close>

lemma safe_handlers:
  assumes p: "prov_explorer p = expl"
    and dns: "\<And>op1. op_user op1 = Some (User r) \<Longrightarrow> safe_call view P (run_dns (ext_isDNSName X) (prov_dns p) op1)"
    and px: "\<And>op1. proxy_user op1 = User r \<Longrightarrow> safe_call view P (run_proxy (prov_proxy p) op1)"
  shows "handler_table X p t = Some h \<Longrightarrow> safe_call view P (h r)"
    and "removal_table X p t = Some h' \<Longrightarrow> safe_call view P (h' r)"
proof -
  have dns_ops: "safe_call view P (AddSubdomain (ext_isDNSName X) (prov_dns p) (User r) d IPs)"
    "safe_call view P (RemoveSubdomain (ext_isDNSName X) (prov_dns p) (User r) d IPs)"
    "safe_call view P (AddDomainDelagate (ext_isDNSName X) (prov_dns p) i (User r) d)"
    "safe_call view P (RemoveDomainDelagate (ext_isDNSName X) (prov_dns p) (User r) d)" for d IPs i
    using dns [of "OpAddSubdomain (User r) d IPs"] dns [of "OpRemoveSubdomain (User r) d IPs"]
      dns [of "OpAddDelegate i (User r) d"] dns [of "OpRemoveDelegate (User r) d"] by simp_all
  have px_ops: "safe_call view P (AddProxy (prov_proxy p) (User r) d a n m)"
    "safe_call view P (RemoveProxy (prov_proxy p) (User r) d)"
    "safe_call view P (AddReverseProxy (prov_proxy p) (User r) d sec)"
    "safe_call view P (RemoveReverseProxy (prov_proxy p) (User r) d)" for d a n m sec
    using px [of "OpAddProxy (User r) d a n m"] px [of "OpRemoveProxy (User r) d"]
      px [of "OpAddReverseProxy (User r) d sec"] px [of "OpRemoveReverseProxy (User r) d"] by simp_all
  have checked: "safe_call view P (case validate x u of None \<Rightarrow> m | Some e \<Rightarrow> raiseM e)"
    if "safe_call view P m" for x u and m :: "('s, provision_result) go"
    using that by (auto simp: validate_def intro: safe_raise)
  have reads: "safe_call view P (liftM (json_unmarshal f b))" for f :: "json \<Rightarrow> 'x option" and b
    by (intro safe_lift) (rule json_unmarshal_no_panic)
  note rules = safe_rules safe_lift dns_ops px_ops checked safe_decrypt [OF p] safe_AddPeer safe_RemovePeer
    is_panic_simps
  show "safe_call view P (h r)" if "handler_table X p t = Some h"
    using that
    by (auto simp: handler_table_def domainDeleateProvision_def subDomainProvision_def proxyProvision_def
        reverseProxyProvision_def gateway4To6Provision_def gateway4To6ProvisionImpl_def Let_def
        dest: json_unmarshal_no_panic intro!: rules split: if_splits option.split)
  show "safe_call view P (h' r)" if "removal_table X p t = Some h'"
    using that
    by (auto simp: removal_table_def domainDeleateDecomission_def subDomainDecomission_def proxyDecomission_def
        reverseProxyDecomission_def gateway4To6Decomission_def
        dest: json_unmarshal_no_panic intro!: rules split: if_splits option.split)
qed

end

end
