(* ===== verification/GatewayIsolation.thy ===== *)
theory GatewayIsolation
  imports GatewaySteps
begin

text \<open>
  Which keys of redis each component writes, and what follows for the tenants of the whole gateway:
  the invariants of the DNS and of the proxy component hold along the steps of all components, since
  no component writes into another's keys. The check of DNS names accepts no slash, which keeps the
  zones apart from the services of the router.
\<close>

section \<open>Keys\<close>

text \<open>A key the DNS component does not write, when its domains have no slash.\<close>

definition dns_free :: "string \<Rightarrow> bool" where
  "dns_free k \<longleftrightarrow> k \<noteq> ''zone'' \<and> k \<noteq> ''managed_domains'' \<and> (CHR ''/'' \<in> set k \<or> CHR ''.'' \<notin> set k)"

lemma dns_free_keys [simp]: "dns_free (proxy_key d)" "dns_free reservationsKey"
  by (simp_all add: dns_free_def proxy_key_def reservationsKey_def)

lemma dns_free_domain:
  assumes "dns_free k" "validateDomain isDNSName d = None" "\<And>d. isDNSName d \<Longrightarrow> CHR ''/'' \<notin> set d"
    and "splitDomain d = (n, z)"
  shows "d \<noteq> k" "d @ ''.'' \<noteq> k" "z @ ''.'' \<noteq> k"
proof -
  note d = validateDomain_None [OF assms(2)]
  have no_slash: "CHR ''/'' \<notin> set d" using assms(3) d(1) by blast
  moreover have "CHR ''/'' \<notin> set z"
    by (rule splitDomain_cases [of d]) (use assms(4) no_slash in auto)
  ultimately show "d \<noteq> k" "d @ ''.'' \<noteq> k" "z @ ''.'' \<noteq> k"
    using assms(1) d(4) by (auto simp: dns_free_def)
qed

lemma other_key [simp]:
  "k' \<noteq> k \<Longrightarrow> ks_hset v k' f x k = v k" "k' \<noteq> k \<Longrightarrow> ks_hdel v k' f k = v k"
  by (simp_all add: ks_hset_def ks_hdel_def put_hash_def)

text \<open>Entries of the cache that are decoded, or refused without a panic.\<close>

definition entries_decode :: "store_codec \<Rightarrow> (string \<rightharpoonup> string) \<Rightarrow> bool" where
  "entries_decode sc h \<longleftrightarrow> (\<forall>i b t. h i = Some b \<longrightarrow> decode_reservation sc b \<noteq> Inl (Panic t))"

context redis_service
begin

lemma safe_invalid:
  assumes "validateDomain isDNSName d = Some e"
  shows "safe_call view P (AddSubdomain isDNSName c u d IPs)"
    and "safe_call view P (RemoveSubdomain isDNSName c u d IPs)"
    and "safe_call view P (AddDomainDelagate isDNSName c i u d)"
    and "safe_call view P (RemoveDomainDelagate isDNSName c u d)"
  unfolding AddSubdomain_def RemoveSubdomain_def AddDomainDelagate_def RemoveDomainDelagate_def
  by (rule safe_check_domain, simp add: assms)+

text \<open>A property of the value at a key the DNS component does not write.\<close>

lemma dns_keeps_key:
  assumes c: "dns_redis c = rd" and k: "dns_free k" and names: "\<And>d. isDNSName d \<Longrightarrow> CHR ''/'' \<notin> set d"
    and R: "\<And>y. zone_key k \<Longrightarrow> R y \<Longrightarrow> \<exists>x. y = Some (RString x)"
  shows "safe_call view (\<lambda>v. R (v k)) (run_dns isDNSName c op1)"
proof -
  have keys: "''zone'' \<noteq> k" "''managed_domains'' \<noteq> k" using k by (auto simp: dns_free_def)
  show ?thesis
  proof (cases op1)
    case (OpAddSubdomain u d IPs)
    obtain n z where nz: "splitDomain d = (n, z)" by force
    show ?thesis unfolding OpAddSubdomain run_dns.simps
    proof (cases "validateDomain isDNSName d")
      case None
      show "safe_call view (\<lambda>v. R (v k)) (AddSubdomain isDNSName c u d IPs)"
        using dns_free_domain [OF k None names nz] keys
        by (intro safe_AddSubdomain [OF c nz]) simp_all
    qed (rule safe_invalid)
  next
    case (OpRemoveSubdomain u d IPs)
    obtain n z where nz: "splitDomain d = (n, z)" by force
    show ?thesis unfolding OpRemoveSubdomain run_dns.simps
    proof (cases "validateDomain isDNSName d")
      case None
      show "safe_call view (\<lambda>v. R (v k)) (RemoveSubdomain isDNSName c u d IPs)"
        using dns_free_domain [OF k None names nz] keys
        by (intro safe_RemoveSubdomain [OF c nz]) simp_all
    qed (rule safe_invalid)
  next
    case (OpAddDelegate i u d)
    obtain n z where nz: "splitDomain d = (n, z)" by force
    show ?thesis unfolding OpAddDelegate run_dns.simps
    proof (cases "validateDomain isDNSName d")
      case None
      show "safe_call view (\<lambda>v. R (v k)) (AddDomainDelagate isDNSName c i u d)"
        using dns_free_domain [OF k None names nz] keys
        by (intro safe_AddDomainDelagate [OF c]) simp_all
    qed (rule safe_invalid)
  next
    case (OpRemoveDelegate u d)
    obtain n z where nz: "splitDomain d = (n, z)" by force
    show ?thesis unfolding OpRemoveDelegate run_dns.simps
    proof (cases "validateDomain isDNSName d")
      case None
      show "safe_call view (\<lambda>v. R (v k)) (RemoveDomainDelagate isDNSName c u d)"
        using dns_free_domain [OF k None names nz] keys
        by (intro safe_RemoveDomainDelagate [OF c]) simp_all
    qed (rule safe_invalid)
  next
    case OpCleanup
    have "v' k = v k" if "R (v k)" "only_junk_gone v v'" for v v'
    proof -
      have "\<not> zone_key k \<or> \<not> hash_key v k"
        using R [of "v k"] that(1) by (cases "zone_key k") (auto simp: hash_key_def)
      with that(2) show ?thesis unfolding only_junk_gone_def by blast
    qed
    then show ?thesis unfolding OpCleanup run_dns.simps
      by (intro safe_Cleanup [OF c]) metis
  qed
qed

text \<open>Services of the router and entries of the cache stand apart from the DNS keys.\<close>

lemma dns_keeps_service:
  assumes "dns_redis c = rd" and "\<And>d. isDNSName d \<Longrightarrow> CHR ''/'' \<notin> set d"
  shows "safe_call view (has_service u d b) (run_dns isDNSName c op1)"
proof -
  let ?R = "\<lambda>y. y = Some (RString b) \<and> (\<exists>x. valkyrieDecode b = Inr x \<and> UserID x = u)"
  have "has_service u d b = (\<lambda>v. ?R (v (proxy_key d)))"
    by (auto simp: has_service_def plain_def fun_eq_iff split: option.splits rvalue.splits)
  then show ?thesis
    using dns_keeps_key [OF assms(1) dns_free_keys(1) [of d] assms(2), where R = ?R and ?op1.0 = op1] by simp
qed

lemma dns_keeps_entries:
  assumes "dns_redis c = rd" and "\<And>d. isDNSName d \<Longrightarrow> CHR ''/'' \<notin> set d"
  shows "safe_call view (\<lambda>v. Q (hfield v reservationsKey)) (run_dns isDNSName c op1)"
proof -
  let ?R = "\<lambda>y. Q (case y of Some (RHash h) \<Rightarrow> h | _ \<Rightarrow> Map.empty)"
  have "\<not> zone_key reservationsKey" by (simp add: zone_key_def reservationsKey_def)
  then have "safe_call view (\<lambda>v. ?R (v reservationsKey)) (run_dns isDNSName c op1)"
    using dns_keeps_key [OF assms(1) dns_free_keys(2) assms(2), where R = ?R and ?op1.0 = op1] by simp
  moreover have "hfield v reservationsKey = (case v reservationsKey of Some (RHash h) \<Rightarrow> h | _ \<Rightarrow> Map.empty)" for v
    by (simp add: hfield_def fun_eq_iff)
  ultimately show ?thesis by simp
qed

text \<open>The router writes the keys of its services only.\<close>

lemma proxy_keeps_subdomain:
  assumes c: "proxy_redis c = rd" and d: "splitDomain d = (n, z)" "CHR ''/'' \<notin> set d"
  shows "safe_call view (holds_subdomain identity u d x) (run_proxy c op1)"
proof -
  have "CHR ''/'' \<notin> set z"
    by (rule splitDomain_cases [of d]) (use d in auto)
  then have keys: "proxy_key d' \<noteq> ''zone''" "proxy_key d' \<noteq> ''managed_domains''" "z @ ''.'' \<noteq> proxy_key d'" for d'
    by (cases z; auto simp: proxy_key_def)+
  then have "holds_subdomain identity u d x (v(proxy_key d' := y)) = holds_subdomain identity u d x v" for v d' y
    using keys by (simp add: holds_subdomain_def d owner_of_def keys(1,2) [symmetric])
  then show ?thesis
    by (intro safe_run_proxy [OF c]) simp_all
qed

lemma proxy_keeps_owner:
  assumes c: "proxy_redis c = rd"
  shows "safe_call view (\<lambda>v. owner_of v z = u) (run_proxy c op1)"
  by (intro safe_run_proxy [OF c]) (simp_all add: proxy_key_def)

lemma proxy_keeps_entries:
  assumes c: "proxy_redis c = rd"
  shows "safe_call view (\<lambda>v. Q (hfield v reservationsKey)) (run_proxy c op1)"
proof -
  have "hfield (v(proxy_key d := y)) reservationsKey = hfield v reservationsKey" for v d y
    by (rule ext) (simp add: hfield_def proxy_key_def reservationsKey_def)
  then show ?thesis by (intro safe_run_proxy [OF c]) simp_all
qed

text \<open>The cache writes one key: an entry is what the codec makes of a reservation.\<close>

lemma safe_cache:
  assumes c: "cache_pool c = rd" and sc: "\<And>r t. encode_reservation sc r \<noteq> Inl (Panic t)"
  shows "(\<And>v b. encode_reservation sc r = Inr b \<Longrightarrow> P v \<Longrightarrow> P (ks_hset v reservationsKey (ID r) b)) \<Longrightarrow>
      safe_call view P (Cache_Add sc c r)"
    and "(\<And>v. P v \<Longrightarrow> P (ks_hdel v reservationsKey i)) \<Longrightarrow> safe_call view P (Cache_Remove c i)"
proof -
  assume P: "\<And>v b. encode_reservation sc r = Inr b \<Longrightarrow> P v \<Longrightarrow> P (ks_hset v reservationsKey (ID r) b)"
  show "safe_call view P (Cache_Add sc c r)"
  proof (cases "encode_reservation sc r")
    case (Inl e)
    moreover have "\<not> is_panic e" using sc [of r] Inl by (auto simp: panic_iff)
    ultimately show ?thesis by (simp add: Cache_Add_def bindM_liftM safe_raise)
  next
    case (Inr b)
    then show ?thesis using P by (simp add: Cache_Add_def c bindM_liftM safe_calls)
  qed
qed (simp add: Cache_Remove_def c safe_calls)

text \<open>Reading the cache changes nothing; it panics only on an entry whose decoding panics.\<close>

lemma safe_cache_get:
  assumes c: "cache_pool c = rd"
  shows "safe_call view (\<lambda>v. entries_decode sc (hfield v reservationsKey)) (cache_get sc c i)"
  unfolding safe_call_def cache_get_def
  by (auto simp: wp c entries_decode_def panic_iff intro!: wp_HGET split: sum.split)

lemma safe_cache_reads:
  assumes c: "cache_pool c = rd"
  shows "safe_call view (\<lambda>v. entries_decode sc (hfield v reservationsKey)) (Cache_Get sc c i)"
    and "safe_call view P (Cache_Exists c i)"
    and "safe_call view (\<lambda>v. entries_decode sc (hfield v reservationsKey)) (GetExpired sc c)"
proof -
  have "safe_call view (\<lambda>v. entries_decode sc (hfield v reservationsKey)) (expired_ids sc c ids)" for ids
    by (induction ids) (auto intro!: safe_bind safe_return safe_cache_get [OF c])
  then show "safe_call view (\<lambda>v. entries_decode sc (hfield v reservationsKey)) (GetExpired sc c)"
    unfolding GetExpired_def c by (intro safe_bind safe_calls)
qed (simp_all add: Cache_Get_def Cache_Exists_def c safe_calls safe_cache_get)

lemma cache_reads_keep:
  assumes c: "cache_pool c = rd"
  shows "maintains view P (Cache_Get sc c i)" "maintains view P (Cache_Exists c i)" "maintains view P (GetExpired sc c)"
proof -
  have get: "maintains view P (cache_get sc c i)" for i
    unfolding cache_get_def c by (intro maintains_bind maintains_pure safe_maintains safe_calls)
  then show "maintains view P (Cache_Get sc c i)" by (simp add: Cache_Get_def)
  show "maintains view P (Cache_Exists c i)" unfolding Cache_Exists_def c by (intro safe_maintains safe_calls)
  have "maintains view P (expired_ids sc c ids)" for ids
    by (induction ids) (auto intro!: maintains_bind maintains_pure get)
  then show "maintains view P (GetExpired sc c)"
    unfolding GetExpired_def c by (intro maintains_bind) (simp_all add: safe_maintains safe_calls)
qed

end

lemma cache_keeps:
  "holds_subdomain identity u d x (ks_hset v reservationsKey i b) = holds_subdomain identity u d x v"
  "holds_subdomain identity u d x (ks_hdel v reservationsKey i) = holds_subdomain identity u d x v"
  "has_service u d y (ks_hset v reservationsKey i b) = has_service u d y v"
  "has_service u d y (ks_hdel v reservationsKey i) = has_service u d y v"
  by (auto simp: holds_subdomain_def owner_of_def has_service_def reservationsKey_def proxy_key_def
      hfield_def plain_def ks_hset_def ks_hdel_def put_hash_def split: prod.split)

end
