(* ===== verification/GatewayProps.thy ===== *)
theory GatewayProps
  imports GatewayIsolation DnsProps CacheProps
begin

text \<open>
  The properties of the whole gateway: what a tenant holds in one component survives the steps of all
  components on behalf of other tenants, and no step panics as long as the entries of the cache can be
  decoded or are refused, which holds of all that the gateway writes.
\<close>

section \<open>One step\<close>

context gateway_world
begin

lemma gateway_write:
  assumes q: "q = NewProvisioner X (proxy_New rd) (dns_New rd identity) wg kp expl" and c: "c = NewRedis rd"
    and sc: "\<And>r t. encode_reservation sc r \<noteq> Inl (Panic t)"
    and dns: "\<And>op1. op_user op1 = step_user st \<Longrightarrow>
      safe_call view P (run_dns (ext_isDNSName X) (dns_New rd identity) op1)"
    and px: "\<And>op1. Some (proxy_user op1) = step_user st \<Longrightarrow> safe_call view P (run_proxy (proxy_New rd) op1)"
    and add: "\<And>r v b. st = Remember r \<Longrightarrow> encode_reservation sc r = Inr b \<Longrightarrow> P v \<Longrightarrow> P (ks_hset v reservationsKey (ID r) b)"
    and remove: "\<And>i v. st = Forget i \<Longrightarrow> P v \<Longrightarrow> P (ks_hdel v reservationsKey i)"
    and writes: "\<not> reads_cache st"
  shows "safe_call view P (run_gateway sc c q st)"
proof -
  obtain p where p: "same_managers p q"
    and tables: "Provisioners q = handler_table X p" "Decommissioners q = removal_table X p"
    using dispatch [of X "proxy_New rd" "dns_New rd identity" wg kp expl] unfolding q by blast
  have parts: "prov_explorer p = expl" "prov_dns p = dns_New rd identity" "prov_proxy p = proxy_New rd"
    "prov_dns q = dns_New rd identity"
    using p by (simp_all add: same_managers_def q)
  have pool: "cache_pool c = rd" by (simp add: c NewRedis_def)
  show ?thesis
  proof (cases st)
    case (Provision r)
    have "safe_call view P (h r)" if "handler_table X p (Type r) = Some h" for h
      using dns px Provision by - (rule safe_handlers(1) [OF parts(1) _ _ that], simp_all add: parts)
    then show ?thesis
      by (cases "handler_table X p (Type r)") (simp_all add: Provision tables safe_return safe_unit)
  next
    case (Decommission r)
    have "safe_call view P (h r)" if "removal_table X p (Type r) = Some h" for h
      using dns px Decommission by - (rule safe_handlers(2) [OF parts(1) _ _ that], simp_all add: parts)
    then show ?thesis
      by (cases "removal_table X p (Type r)") (simp_all add: Decommission tables safe_return)
  next
    case CleanZones
    then show ?thesis using dns [of OpCleanup] by (simp add: parts)
  next
    case (Remember r)
    then show ?thesis using add by (auto intro!: safe_cache(1) [OF pool sc])
  next
    case (Forget i)
    then show ?thesis using remove by (auto intro!: safe_cache(2) [OF pool sc])
  qed (use writes in simp_all)
qed

lemma gateway_step:
  assumes "q = NewProvisioner X (proxy_New rd) (dns_New rd identity) wg kp expl" and c: "c = NewRedis rd"
    and "\<And>r t. encode_reservation sc r \<noteq> Inl (Panic t)"
    and "\<And>op1. op_user op1 = step_user st \<Longrightarrow>
      safe_call view P (run_dns (ext_isDNSName X) (dns_New rd identity) op1)"
    and "\<And>op1. Some (proxy_user op1) = step_user st \<Longrightarrow> safe_call view P (run_proxy (proxy_New rd) op1)"
    and "\<And>i v b. step_entry st = Some i \<Longrightarrow> P v \<Longrightarrow>
      P (ks_hset v reservationsKey i b) \<and> P (ks_hdel v reservationsKey i)"
  shows "maintains view P (run_gateway sc c q st)"
proof (cases "reads_cache st")
  case True
  have pool: "cache_pool c = rd" by (simp add: c NewRedis_def)
  show ?thesis
    using True by (cases st) (auto intro!: maintains_bind maintains_pure cache_reads_keep [OF pool])
next
  case False
  then show ?thesis
    using assms by (intro safe_maintains gateway_write) (auto 0 3)
qed

text \<open>As long as every entry of the cache can be decoded or is refused, all steps are safe.\<close>

lemma step_no_panic:
  assumes q: "q = NewProvisioner X (proxy_New rd) (dns_New rd identity) wg kp expl" and c: "c = NewRedis rd"
    and sc: "versioned_store sc" and names: "\<And>d. ext_isDNSName X d \<Longrightarrow> CHR ''/'' \<notin> set d"
  shows "safe_call view (\<lambda>v. entries_decode sc (hfield v reservationsKey)) (run_gateway sc c q st)"
proof (cases "reads_cache st")
  case True
  have pool: "cache_pool c = rd" by (simp add: c NewRedis_def)
  show ?thesis
    using True by (cases st) (auto intro!: safe_unit safe_cache_reads [OF pool])
next
  case False
  have mgrs: "dns_redis (dns_New rd identity) = rd" "proxy_redis (proxy_New rd) = rd"
    by (simp_all add: dns_New_def proxy_New_def)
  have "\<exists>r'. decode_reservation sc b = Inr r'" if "encode_reservation sc r = Inr b" for r b
    using versioned_store.decode_encode [OF sc that] by blast
  then show ?thesis
    using False
    by (intro gateway_write [OF q c versioned_store.json_no_panic [OF sc]] dns_keeps_entries [OF mgrs(1) names]
        proxy_keeps_entries [OF mgrs(2)]) (force simp: entries_decode_def)+
qed

end

section \<open>A gateway to run\<close>

interpretation flaky_gateway: gateway_world "redis_on_fst flaky_redis" flaky_world_view
    "demo_externals (wg_on_snd mem_wg)" no_explorer
  by unfold_locales
    (auto simp: outside_def wg_on_snd_def on_snd_def mem_wg_def flaky_world_view_def returnM_def raiseM_def
      no_explorer_def mem_ParseKey_def no_device_def split: prod.splits option.splits if_splits)

definition demo_kp :: KeyPair where
  "demo_kp = \<lparr>kp_PrivateKey = replicate 64 (CHR ''k''), kp_PublicKey = [], kp_Identity = ''gw''\<rparr>"

definition demo_gateway :: "(flaky_world, unit) Provisioner" where
  "demo_gateway = NewProvisioner (demo_externals (wg_on_snd mem_wg)) (proxy_New (redis_on_fst flaky_redis))
     (dns_New (redis_on_fst flaky_redis) ''gw'') None demo_kp no_explorer"

text \<open>User 8 asks for the removal of \<open>a.b.c\<close>.\<close>

definition foreign_removal :: reservation where
  "foreign_removal = plain_reservation ''1-1'' ''8'' ''subdomain''
     (print_json (JObj [(''domain'', JStr ''a.b.c''), (''destination'', JArr [])]))"

lemma foreign_removal_user [simp]: "User foreign_removal = ''8''"
  by (simp add: foreign_removal_def plain_reservation_def)

text \<open>The connection loses the reply to the second call.\<close>

definition demo_world :: "mem \<Rightarrow> flaky_world" where
  "demo_world m = (([Fine, LoseReply], m), [])"

lemma demo_world_view [simp]: "flaky_world_view (demo_world m) = mem_view m"
  by (simp add: flaky_world_view_def demo_world_def flaky_view_def)

lemma one_step:
  "allowed st \<Longrightarrow> gateway_reach sc c q allowed s (snd (run_gateway sc c q st s))"
  by (rule gateway_reach.step [OF gateway_reach.start, of allowed st _ _ _ _ "fst (run_gateway sc c q st s)"]) simp_all

section \<open>Isolation\<close>

text \<open>
  C1: a user who holds a sub-domain keeps it, with its records, along any sequence of provisionings and
  decommissionings of every kind of workload on behalf of other users, clean-ups and changes of the
  cache, whatever calls fail, when no DNS name has a slash.
\<close>

theorem gateway_subdomain_isolated:
  assumes "gateway_world rd view X expl" and "q = NewProvisioner X (proxy_New rd) (dns_New rd identity) wg kp expl"
    and "\<And>r t. encode_reservation sc r \<noteq> Inl (Panic t)" and "\<And>d. ext_isDNSName X d \<Longrightarrow> CHR ''/'' \<notin> set d"
    and "splitDomain d = (n, z)" "n \<noteq> []" "u \<noteq> []" "CHR ''/'' \<notin> set d"
    and "holds_subdomain identity u d x (view s)" "\<forall>y. x = Some y \<longrightarrow> \<not> junk y"
    and "gateway_reach sc (NewRedis rd) q (\<lambda>st. step_user st \<notin> {Some u, Some identity}) s s'"
  shows "holds_subdomain identity u d x (view s')"
  using assms(11,9)
proof (rule gateway_reach_invariant)
  fix st assume st: "step_user st \<notin> {Some u, Some identity}"
  have serv: "redis_service rd view" using assms(1) by (simp add: gateway_world_def)
  have dns: "dns_redis (dns_New rd identity) = rd" "dns_identity (dns_New rd identity) = identity"
    "proxy_redis (proxy_New rd) = rd" by (simp_all add: dns_New_def proxy_New_def)
  show "maintains view (holds_subdomain identity u d x) (run_gateway sc (NewRedis rd) q st)"
  proof (rule gateway_world.gateway_step [OF assms(1,2) refl assms(3)])
    fix op1 assume "op_user op1 = step_user st"
    with st show "safe_call view (holds_subdomain identity u d x) (run_dns (ext_isDNSName X) (dns_New rd identity) op1)"
      using redis_service.foreign_subdomain [OF serv dns(1) assms(5-7,10), of op1 "ext_isDNSName X"] by (simp add: dns)
  next
    fix op1 show "safe_call view (holds_subdomain identity u d x) (run_proxy (proxy_New rd) op1)"
      by (rule redis_service.proxy_keeps_subdomain [OF serv dns(3) assms(5,8)])
  qed (simp add: cache_keeps)
qed

lemma gateway_subdomain_isolated_witness:
  "holds_subdomain ''gw'' ''7'' ''a.b.c'' None
     (flaky_world_view (snd (run_gateway demo_codec (NewRedis (redis_on_fst flaky_redis)) demo_gateway
       (Decommission foreign_removal) (demo_world held_store))))"
proof (rule gateway_subdomain_isolated [OF flaky_gateway.gateway_world_axioms demo_gateway_def demo.json_no_panic])
  show "splitDomain ''a.b.c'' = (''a'', ''b.c'')" by (simp add: splitDomain_def)
  show "holds_subdomain ''gw'' ''7'' ''a.b.c'' None (flaky_world_view (demo_world held_store))"
    using held_holds by simp
  show "gateway_reach demo_codec (NewRedis (redis_on_fst flaky_redis)) demo_gateway
      (\<lambda>st. step_user st \<notin> {Some ''7'', Some ''gw''}) (demo_world held_store)
      (snd (run_gateway demo_codec (NewRedis (redis_on_fst flaky_redis)) demo_gateway
        (Decommission foreign_removal) (demo_world held_store)))"
    by (rule one_step) simp
qed simp_all

text \<open>
  C2: likewise a user's service of the TCP router, stored bytes included.
\<close>

theorem gateway_service_isolated:
  assumes "gateway_world rd view X expl" and "q = NewProvisioner X (proxy_New rd) (dns_New rd identity) wg kp expl"
    and "\<And>r t. encode_reservation sc r \<noteq> Inl (Panic t)" and "\<And>d. ext_isDNSName X d \<Longrightarrow> CHR ''/'' \<notin> set d"
    and "has_service u d b (view s)"
    and "gateway_reach sc (NewRedis rd) q (\<lambda>st. step_user st \<noteq> Some u) s s'"
  shows "has_service u d b (view s')"
  using assms(6,5)
proof (rule gateway_reach_invariant)
  fix st assume st: "step_user st \<noteq> Some u"
  have serv: "redis_service rd view" using assms(1) by (simp add: gateway_world_def)
  have dns: "dns_redis (dns_New rd identity) = rd" "proxy_redis (proxy_New rd) = rd"
    by (simp_all add: dns_New_def proxy_New_def)
  show "maintains view (has_service u d b) (run_gateway sc (NewRedis rd) q st)"
  proof (rule gateway_world.gateway_step [OF assms(1,2) refl assms(3)])
    fix op1 show "safe_call view (has_service u d b) (run_dns (ext_isDNSName X) (dns_New rd identity) op1)"
      by (rule redis_service.dns_keeps_service [OF serv dns(1) assms(4)])
  next
    fix op1 assume "Some (proxy_user op1) = step_user st"
    with st show "safe_call view (has_service u d b) (run_proxy (proxy_New rd) op1)"
      by (intro redis_service.foreign_proxy [OF serv dns(2)]) auto
  qed (simp add: cache_keeps)
qed

lemma gateway_service_isolated_witness:
  "has_service ''7'' ''a.b.c'' (valkyrieEncode (proxy_key ''a.b.c'') demo_service)
     (flaky_world_view (snd (run_gateway demo_codec (NewRedis (redis_on_fst flaky_redis)) demo_gateway
       (Decommission foreign_removal) (demo_world demo_services))))"
proof (rule gateway_service_isolated [OF flaky_gateway.gateway_world_axioms demo_gateway_def demo.json_no_panic])
  show "has_service ''7'' ''a.b.c'' (valkyrieEncode (proxy_key ''a.b.c'') demo_service)
      (flaky_world_view (demo_world demo_services))"
    by (simp add: has_service_def) (simp add: demo_service_def)
  show "gateway_reach demo_codec (NewRedis (redis_on_fst flaky_redis)) demo_gateway
      (\<lambda>st. step_user st \<noteq> Some ''7'') (demo_world demo_services)
      (snd (run_gateway demo_codec (NewRedis (redis_on_fst flaky_redis)) demo_gateway
        (Decommission foreign_removal) (demo_world demo_services)))"
    by (rule one_step) simp
qed simp

text \<open>
  C12: an entry of the cache, or its absence, lasts along all steps but those that add or remove that
  identifier.
\<close>

theorem gateway_entry_stays:
  assumes "gateway_world rd view X expl" and "q = NewProvisioner X (proxy_New rd) (dns_New rd identity) wg kp expl"
    and "\<And>r t. encode_reservation sc r \<noteq> Inl (Panic t)" and "\<And>d. ext_isDNSName X d \<Longrightarrow> CHR ''/'' \<notin> set d"
    and "gateway_reach sc (NewRedis rd) q (\<lambda>st. step_entry st \<noteq> Some i) s s'"
  shows "hfield (view s') reservationsKey i = hfield (view s) reservationsKey i"
  using assms(5) refl
proof (rule gateway_reach_invariant [where P = "\<lambda>v. hfield v reservationsKey i = hfield (view s) reservationsKey i"])
  fix st assume st: "step_entry st \<noteq> Some i"
  let ?P = "\<lambda>v. hfield v reservationsKey i = hfield (view s) reservationsKey i"
  have serv: "redis_service rd view" using assms(1) by (simp add: gateway_world_def)
  have dns: "dns_redis (dns_New rd identity) = rd" "proxy_redis (proxy_New rd) = rd"
    by (simp_all add: dns_New_def proxy_New_def)
  show "maintains view ?P (run_gateway sc (NewRedis rd) q st)"
  proof (rule gateway_world.gateway_step [OF assms(1,2) refl assms(3)])
    fix op1 show "safe_call view ?P (run_dns (ext_isDNSName X) (dns_New rd identity) op1)"
      by (rule redis_service.dns_keeps_entries [OF serv dns(1) assms(4)])
  next
    fix op1 show "safe_call view ?P (run_proxy (proxy_New rd) op1)"
      by (rule redis_service.proxy_keeps_entries [OF serv dns(2)])
  qed (use st in auto)
qed

lemma gateway_entry_stays_witness:
  "hfield (flaky_world_view (snd (run_gateway demo_codec (NewRedis (redis_on_fst flaky_redis)) demo_gateway
     CleanZones (demo_world cache_store)))) reservationsKey ''1-1'' =
   hfield (mem_view cache_store) reservationsKey ''1-1''"
proof -
  have "gateway_reach demo_codec (NewRedis (redis_on_fst flaky_redis)) demo_gateway
      (\<lambda>st. step_entry st \<noteq> Some ''1-1'') (demo_world cache_store)
      (snd (run_gateway demo_codec (NewRedis (redis_on_fst flaky_redis)) demo_gateway CleanZones (demo_world cache_store)))"
    by (rule one_step) simp
  from gateway_entry_stays [OF flaky_gateway.gateway_world_axioms demo_gateway_def demo.json_no_panic _ this]
  show ?thesis by simp
qed



end
