(* ===== verification/ProvisionProps.thy ===== *)
theory ProvisionProps
  imports GatewayProps
begin

text \<open>
  The properties of the provisioning path: conversion of the explorer's workloads, dispatch to the
  handlers, results, what a reverse proxy may store, and which ports a proxy may have.
\<close>

section \<open>A provisioner to run\<close>

definition demo_provisioner :: "(world, unit) Provisioner" where
  "demo_provisioner = NewProvisioner (demo_externals (wg_on_snd mem_wg)) (proxy_New (redis_on_fst mem_redis))
     (dns_New (redis_on_fst mem_redis) ''gw'') None demo_kp no_explorer"

interpretation world_gateway: gateway_world "redis_on_fst mem_redis" redis_view
    "demo_externals (wg_on_snd mem_wg)" no_explorer
  by unfold_locales
    (auto simp: outside_def wg_on_snd_def on_snd_def mem_wg_def redis_view_def returnM_def raiseM_def
      no_explorer_def mem_ParseKey_def no_device_def answers_on_fst mem_answers answers_serves
      split: prod.splits option.splits if_splits)

definition empty_result :: schema_result where
  "empty_result = \<lparr>sr_Category = WorkloadTypeOther 0, sr_WorkloadId = [], sr_DataJson = [], sr_Signature = [],
     sr_State = 0, sr_Message = [], sr_Epoch = 0\<rparr>"

definition demo_workload :: "WorkloadType \<Rightarrow> workload_body \<Rightarrow> workload" where
  "demo_workload t b = \<lparr>GetID = 12, WorkloadID = 1, GetCustomerTid = 7, GetWorkloadType = t, GetEpoch = 0,
     GetCustomerSignature = [], NextActionDelete = False, GetReference = [], GetResult = empty_result,
     GetVersion = 0, Body = b\<rparr>"

lemma demo_workload_simps [simp]:
  "GetWorkloadType (demo_workload t b) = t" "Body (demo_workload t b) = b"
  "GetCustomerTid (demo_workload t b) = 7" "GetVersion (demo_workload t b) = 0"
  by (simp_all add: demo_workload_def)

lemma decimal_7 [simp]: "itoa 7 = ''7''"
  by code_simp

section \<open>From the workload to the manager\<close>

text \<open>
  C10: a workload of the explorer whose concrete type is the one it announces is converted to a
  reservation; the tables have a handler and a remover for it, and these are the call of the manager
  that the workload stands for, on behalf of its customer.
\<close>

theorem workload_reaches_manager:
  assumes "distinct_types (ext_enums X)" and "wf_body (GetWorkloadType w) (Body w)"
    and "GetWorkloadType w = WorkloadTypeGateway4To6 \<longrightarrow> wg \<noteq> None"
    and "q = NewProvisioner X px dns wg kp expl"
  shows "\<exists>r h u. WorkloadToProvisionType (ext_enums X) w = Inr r \<and>
    Provisioners q (Type r) = Some h \<and> h r = intended_provision X q (itoa (GetCustomerTid w)) (GetVersion w) (Body w) \<and>
    Decommissioners q (Type r) = Some u \<and> u r = intended_removal X q (itoa (GetCustomerTid w)) (Body w)"
  using provisioned [OF assms] .

lemma workload_reaches_manager_witness:
  "\<exists>r h. WorkloadToProvisionType demo_enums (demo_workload WorkloadTypeSubDomain (GatewaySubdomain ''a.b.c'' [''10.0.0.1''] ''gw'')) = Inr r \<and>
     Provisioners demo_provisioner (Type r) = Some h \<and>
     h r = bindM (AddSubdomain (\<lambda>d. CHR ''/'' \<notin> set d) (dns_New (redis_on_fst mem_redis) ''gw'') ''7'' ''a.b.c'' [ParseIP ''10.0.0.1''])
       (\<lambda>_. returnM NilResult)"
proof -
  let ?X = "demo_externals (wg_on_snd mem_wg) :: world externals"
  have types: "distinct_types (ext_enums ?X)" by simp
  have body: "wf_body WorkloadTypeSubDomain (GatewaySubdomain ''a.b.c'' [''10.0.0.1''] ''gw'')"
    by (simp add: ascii_def)
  have names: "ext_isDNSName ?X = (\<lambda>d. CHR ''/'' \<notin> set d)" by (simp add: fun_eq_iff)
  show ?thesis
    using workload_reaches_manager [OF types _ _ demo_provisioner_def,
        of "demo_workload WorkloadTypeSubDomain (GatewaySubdomain ''a.b.c'' [''10.0.0.1''] ''gw'')"] body
    by (simp add: demo_provisioner_def names) blast
qed

text \<open>The types a workload may announce and the concrete types that go with them.\<close>

fun same_kind :: "WorkloadType \<Rightarrow> workload_body \<Rightarrow> bool" where
  "same_kind WorkloadTypeProxy (GatewayProxy d a p t node) = True"
| "same_kind WorkloadTypeReverseProxy (GatewayReverseProxy d s node) = True"
| "same_kind WorkloadTypeSubDomain (GatewaySubdomain d ips node) = True"
| "same_kind WorkloadTypeDomainDelegate (GatewayDelegate d node) = True"
| "same_kind WorkloadTypeGateway4To6 (GatewayTunnel k node) = True"
| "same_kind (WorkloadTypeOther k) b = True"
| "same_kind _ _ = False"

lemma marshal_parsed: "\<exists>b. marshal_Subdomain \<lparr>sub_Domain = d, sub_IPs = map ParseIP ips\<rparr> = Inr b"
proof -
  have "list_all ip_readable (map ParseIP ips)" by (simp add: list_all_iff)
  from encode_IPs [OF this] obtain js where "those (map enc_IP (map ParseIP ips)) = Some js" by blast
  then show ?thesis by (simp add: marshal_Subdomain_def enc_Subdomain_def)
qed

text \<open>
  The conversion fails for exactly the workloads whose concrete type is not the one they announce;
  a workload of an unknown type passes with no data.
\<close>

theorem conversion_fails_iff:
  "(\<exists>e. WorkloadToProvisionType E w = Inl e) = (\<not> same_kind (GetWorkloadType w) (Body w)) \<and>
   (\<forall>k. GetWorkloadType w = WorkloadTypeOther k \<longrightarrow> WorkloadToProvisionType E w = Inr (base_reservation E w))"
proof (intro conjI allI impI)
  show "(\<exists>e. WorkloadToProvisionType E w = Inl e) = (\<not> same_kind (GetWorkloadType w) (Body w))"
  proof (cases "GetWorkloadType w"; cases "Body w")
    fix d ips node assume "GetWorkloadType w = WorkloadTypeSubDomain" "Body w = GatewaySubdomain d ips node"
    then show ?thesis
      using marshal_parsed [of d ips] by (auto simp: WorkloadToProvisionType_def)
  qed (simp_all add: WorkloadToProvisionType_def with_data_def proxyConverter_def reserveproxyConverter_def
      subdomainConverter_def delegateConverter_def gateway4To6Converter_def)
qed (simp add: WorkloadToProvisionType_def)

lemma conversion_fails_iff_witness:
  "\<exists>e. WorkloadToProvisionType demo_enums (demo_workload WorkloadTypeProxy OtherWorkload) = Inl e"
  using conversion_fails_iff [of demo_enums "demo_workload WorkloadTypeProxy OtherWorkload"] by simp

text \<open>
  C40: the two tables of a provisioner have the same types, all of which the engine can order, no two at
  the same place; tunnels are among them exactly when there is a wireguard manager.
\<close>

theorem dispatch_tables:
  "dom (Provisioners (NewProvisioner X px dns wg kp expl)) =
     {ProxyReservation (ext_enums X), ReverseProxyReservation (ext_enums X), SubDomainReservation (ext_enums X),
      DomainDeleateReservation (ext_enums X)} \<union> (if wg = None then {} else {Gateway4To6Reservation (ext_enums X)}) \<and>
   dom (Decommissioners (NewProvisioner X px dns wg kp expl)) = dom (Provisioners (NewProvisioner X px dns wg kp expl)) \<and>
   dom (Provisioners (NewProvisioner X px dns wg kp expl)) \<subseteq> dom (ProvisionOrder (ext_enums X)) \<and>
   inj_on (ProvisionOrder (ext_enums X)) (dom (ProvisionOrder (ext_enums X)))"
proof (intro conjI)
  let ?E = "ext_enums X"
  have order: "t = (if n = 0 then DomainDeleateReservation ?E else if n = 1 then SubDomainReservation ?E
      else if n = 2 then ProxyReservation ?E else if n = 3 then ReverseProxyReservation ?E else Gateway4To6Reservation ?E)"
    if "ProvisionOrder ?E t = Some n" for t n
    using that by (simp add: ProvisionOrder_def split: if_splits)
  show "inj_on (ProvisionOrder ?E) (dom (ProvisionOrder ?E))"
  proof (rule inj_onI)
    fix x y assume "x \<in> dom (ProvisionOrder ?E)" "ProvisionOrder ?E x = ProvisionOrder ?E y"
    then obtain n where "ProvisionOrder ?E x = Some n" "ProvisionOrder ?E y = Some n" by (metis domD)
    with order [of x n] order [of y n] show "x = y" by (simp only:)
  qed
  show dom: "dom (Provisioners (NewProvisioner X px dns wg kp expl)) =
     {ProxyReservation ?E, ReverseProxyReservation ?E, SubDomainReservation ?E,
      DomainDeleateReservation ?E} \<union> (if wg = None then {} else {Gateway4To6Reservation ?E})"
    by (cases wg) (simp_all add: NewProvisioner_def Let_def insert_commute)
  show "dom (Decommissioners (NewProvisioner X px dns wg kp expl)) = dom (Provisioners (NewProvisioner X px dns wg kp expl))"
    by (cases wg) (simp_all add: NewProvisioner_def Let_def insert_commute)
  show "dom (Provisioners (NewProvisioner X px dns wg kp expl)) \<subseteq> dom (ProvisionOrder ?E)"
    unfolding dom by (simp add: ProvisionOrder_def)
qed

section \<open>Reservations and results\<close>

lemma itoa_minus: "0 \<le> i \<Longrightarrow> CHR ''-'' \<notin> set (itoa i)"
  using dec_digits by (fastforce simp: itoa_def is_digit_def)

lemma minus_separates:
  "a @ CHR ''-'' # b = c @ CHR ''-'' # d \<Longrightarrow> CHR ''-'' \<notin> set a \<Longrightarrow> CHR ''-'' \<notin> set c \<Longrightarrow> a = c \<and> b = d"
proof (induction a arbitrary: c)
  case Nil
  then show ?case by (cases c) auto
next
  case (Cons x a)
  then show ?case by (cases c) auto
qed

text \<open>
  The identifier of a reservation is the reference of the workload when it has one; otherwise two
  workloads with numbers that are not negative have the same identifier only when both numbers agree.
\<close>

theorem reservation_ids:
  assumes "0 \<le> GetID w" "0 \<le> GetID w'" "0 \<le> WorkloadID w" "0 \<le> WorkloadID w'"
  shows "(if GetReference w \<noteq> [] then ID (base_reservation E w) = GetReference w
    else GetReference w' = [] \<longrightarrow>
      (ID (base_reservation E w) = ID (base_reservation E w') \<longleftrightarrow> GetID w = GetID w' \<and> WorkloadID w = WorkloadID w'))"
proof -
  have "itoa (GetID w) @ ''-'' @ itoa (WorkloadID w) = itoa (GetID w') @ ''-'' @ itoa (WorkloadID w') \<longleftrightarrow>
      GetID w = GetID w' \<and> WorkloadID w = WorkloadID w'"
    using minus_separates [OF _ itoa_minus [OF assms(1)] itoa_minus [OF assms(2)]] itoa_inject by fastforce
  then show ?thesis by (simp del: append_Cons append_Nil)
qed

lemma reservation_ids_witness:
  "ID (base_reservation demo_enums (demo_workload WorkloadTypeProxy OtherWorkload)) \<noteq>
   ID (base_reservation demo_enums ((demo_workload WorkloadTypeProxy OtherWorkload)\<lparr>GetID := 121, WorkloadID := 0\<rparr>))"
  using reservation_ids [of "demo_workload WorkloadTypeProxy OtherWorkload" "(demo_workload WorkloadTypeProxy OtherWorkload)\<lparr>GetID := 121, WorkloadID := 0\<rparr>"
      demo_enums] by (simp add: demo_workload_def)

text \<open>
  A result of the engine that is converted for the explorer is read back as it was, when the two
  enumerations of result states correspond; a type the gateway does not have is refused.
\<close>

theorem result_round_trip:
  assumes "distinct_types E" and "state_from_schema E (state_to_schema E (res_State r)) = res_State r"
  shows "(case ResultToSchemaType E r of
      Inr x \<Rightarrow> resultFromSchemaType E x = r
    | Inl e \<Rightarrow> e = NewErr (''unknown reservation type: '' @ res_Type r) \<and>
        res_Type r \<notin> {ProxyReservation E, ReverseProxyReservation E, SubDomainReservation E,
          DomainDeleateReservation E, Gateway4To6Reservation E})"
  using assms
  by (cases r) (auto simp: ResultToSchemaType_def resultFromSchemaType_def Let_def reservation_types)

lemma result_round_trip_witness:
  "ResultToSchemaType demo_enums (resultFromSchemaType demo_enums empty_result) =
     Inl (NewErr ''unknown reservation type: unknown'')"
proof -
  let ?r = "resultFromSchemaType demo_enums empty_result"
  have "state_from_schema demo_enums (state_to_schema demo_enums (res_State ?r)) = res_State ?r"
    by (simp add: demo_enums_def)
  moreover have "res_Type ?r = ''unknown''"
    by (simp add: resultFromSchemaType_def empty_result_def demo_enums_def)
  ultimately show ?thesis
    using result_round_trip [OF demo_distinct, of ?r]
    by (cases "ResultToSchemaType demo_enums ?r")
      (auto simp: ResultToSchemaType_def reservation_types demo_enums_def Let_def)
qed

section \<open>What a proxy may store\<close>

text \<open>The service of a reverse proxy that user \<open>u\<close> may store: its secret starts with the user's
  number and a colon.\<close>

definition reverse_service :: "string \<Rightarrow> service \<Rightarrow> bool" where
  "reverse_service u x \<longleftrightarrow> UserID x = u \<and> HasPrefix (ClientSecret x) (u @ '':'') \<and> Addr x = []"

text \<open>The second keyspace is the first but for services of the given kind.\<close>

definition only_services :: "(service \<Rightarrow> bool) \<Rightarrow> keyspace \<Rightarrow> keyspace \<Rightarrow> bool" where
  "only_services good v0 v \<longleftrightarrow> (\<forall>k. v k = v0 k \<or>
     (\<exists>d x. k = proxy_key d \<and> v k = Some (RString (valkyrieEncode k x)) \<and> good x))"

lemma only_services_refl: "only_services good v v"
  by (simp add: only_services_def)

lemma only_services_set:
  "only_services good v0 v \<Longrightarrow> good x \<Longrightarrow>
   only_services good v0 (v(proxy_key d \<mapsto> RString (valkyrieEncode (proxy_key d) x)))"
  unfolding only_services_def by (metis fun_upd_apply)

context gateway_world
begin

lemma safe_reverse:
  assumes p: "prov_explorer p = expl" "proxy_redis (prov_proxy p) = rd"
  shows "safe_call view (only_services (reverse_service (User r)) v0) (reverseProxyProvision X p r)"
proof -
  have add: "safe_call view (only_services (reverse_service (User r)) v0) (AddReverseProxy (prov_proxy p) (User r) d sec)"
    if "HasPrefix sec (User r @ '':'')" for d sec
  proof -
    have "reverse_service (User r) (empty_service\<lparr>ClientSecret := sec, UserID := User r\<rparr>)"
      using that by (simp add: reverse_service_def empty_service_def)
    then show ?thesis
      unfolding AddReverseProxy_def Let_def p
      by (intro safe_rules safe_canUseDomain p proxy_denied_no_panic safe_calls only_services_set)
  qed
  show ?thesis
    unfolding reverseProxyProvision_def Let_def
    by (rule safe_bind, rule safe_lift, erule json_unmarshal_no_panic, rule safe_bind)
      (auto intro!: safe_wrap safe_decrypt [OF p(1)] safe_raise safe_unit add simp: validate_def
        split: option.split if_splits)
qed

end

text \<open>
  C21: whatever a reverse-proxy reservation holds, however its secret decrypts and whichever calls fail,
  provisioning it changes nothing in redis but services of the reservation's user whose secret starts
  with the user's number and a colon.
\<close>

theorem reverse_proxy_secrets:
  assumes "gateway_world rd view X expl" and "p = NewProvisioner X (proxy_New rd) dns wg kp expl"
    and "reverseProxyProvision X p r s = (res, s')"
  shows "only_services (reverse_service (User r)) (view s) (view s')"
proof -
  have "prov_explorer p = expl" "proxy_redis (prov_proxy p) = rd"
    using assms(2) by (simp_all add: proxy_New_def)
  from safe_callD [OF gateway_world.safe_reverse [OF assms(1) this] only_services_refl assms(3)]
  show ?thesis by simp
qed

lemma reverse_proxy_secrets_witness:
  "only_services (reverse_service ''8'') (redis_view (demo_services, []))
     (redis_view (snd (reverseProxyProvision (demo_externals (wg_on_snd mem_wg)) demo_provisioner
       (plain_reservation ''1-1'' ''8'' ''reverse_proxy'' (json_marshal enc_ReverseProxy
         \<lparr>rp_Domain = ''x.y'', rp_Secret = hex_encode ''8:s''\<rparr>)) (demo_services, []))))"
  using reverse_proxy_secrets [OF world_gateway.gateway_world_axioms demo_provisioner_def surjective_pairing,
      of "plain_reservation ''1-1'' ''8'' ''reverse_proxy'' (json_marshal enc_ReverseProxy
         \<lparr>rp_Domain = ''x.y'', rp_Secret = hex_encode ''8:s''\<rparr>)" "(demo_services, [])"]
  by (simp add: plain_reservation_def)

section \<open>Ports\<close>

lemma dec_port_int: "dec_port (enc_int m) q = (if 0 \<le> m \<and> m < 2 ^ 32 then Some (word_of_int m) else None)"
proof (cases "0 \<le> m")
  case True
  then obtain k where m: "m = int k" using nonneg_int_cases by blast
  have "dec_port (enc_int m) q = (if k < uint32_max then Some (of_nat k) else None)"
    by (simp add: dec_port_def enc_int_def itoa_def m)
  then show ?thesis by (simp add: m uint32_max_def)
next
  case False
  have "\<not> is_digit (CHR ''-'')" by (simp add: is_digit_def)
  with False show ?thesis by (simp add: dec_port_def enc_int_def itoa_def parse_digits_def)
qed

definition port_data :: "string \<Rightarrow> string \<Rightarrow> int \<Rightarrow> int \<Rightarrow> string" where
  "port_data d a m n = print_json (JObj [(''domain'', JStr d), (''addr'', JStr a), (''port'', enc_int m), (''port_tls'', enc_int n)])"

lemma port_data_read:
  assumes "valid_utf8 d" "valid_utf8 a"
  shows "json_unmarshal dec_Proxy (port_data d a m n) =
    (if (0 \<le> m \<and> m < 2 ^ 32) \<and> 0 \<le> n \<and> n < 2 ^ 32
     then Inr \<lparr>px_Domain = d, px_Addr = a, px_Port = word_of_int m, px_PortTLS = word_of_int n\<rparr> else Inl json_error)"
  using assms
  by (simp add: port_data_def json_unmarshal_def parse_print dec_Proxy_def get_field_def to_valid_id ascii_valid ascii_def
      dec_port_int del: print_json.simps)

lemma valid_runes: "valid_utf8 s \<Longrightarrow> runes s"
proof -
  assume s: "valid_utf8 s"
  have "runes (chunk_text c)" if c: "c \<in> set (chunks s)" for c
  proof (cases c)
    case (Rune x)
    with wf_chunks [OF c] show ?thesis by (simp add: runes_rune)
  next
    case (Bad b)
    with c s show ?thesis unfolding valid_utf8_def list_all_iff by fastforce
  qed
  then have "runes (to_valid s)"
    unfolding to_valid_def by (intro runes_concat) (simp add: list_all_iff)
  with s show ?thesis by (simp add: to_valid_id)
qed

lemma valid_proxy_key: "valid_utf8 d \<Longrightarrow> valid_utf8 (proxy_key d)"
  unfolding proxy_key_def
  by (rule runes_valid [OF runes_append [OF runes_ascii valid_runes]]) (simp_all add: ascii_def)

text \<open>
  C33: a proxy reservation whose ports are numbers from 0 to 2^32 - 1 is provisioned, on a server that
  answers and for a free domain, with exactly these numbers in the stored service. With a port outside,
  negative or too large, it is refused before redis is asked for anything.
\<close>

theorem proxy_ports_exact:
  assumes "redis_reliable (proxy_redis (prov_proxy p)) view" and "wf_proxy (view s)" and "service_of (view s) d = None"
    and "valid_utf8 d" "valid_utf8 a" "valid_utf8 (User r)"
    and "Data r = port_data d a m n" and "proxyProvision p r s = (res, s')"
  shows "if 0 \<le> m \<and> m < 2 ^ 32 \<and> 0 \<le> n \<and> n < 2 ^ 32
    then res = Inr NilResult \<and> service_of (view s') = (service_of (view s))
      (d \<mapsto> \<lparr>Addr = a, ClientSecret = [], TLSPort = n, HTTPPort = m, UserID = User r\<rparr>)
    else res = Inl json_error \<and> s' = s"
proof (cases "(0 \<le> m \<and> m < 2 ^ 32) \<and> 0 \<le> n \<and> n < 2 ^ 32")
  case True
  let ?op = "OpAddProxy (User r) d a m n"
  have words: "uint (word_of_int m :: 32 word) = m" "uint (word_of_int n :: 32 word) = n"
    using True by (simp_all add: uint_word_of_int_eq take_bit_int_eq_self)
  have "proxyProvision p r = bindM (run_proxy (prov_proxy p) ?op) (\<lambda>_. returnM NilResult)"
    using port_data_read [OF assms(4,5)] True
    by (simp add: proxyProvision_def assms(7) words bindM_liftM fun_eq_iff)
  with assms(8) obtain q where run: "run_proxy (prov_proxy p) ?op s = (q, s')"
    and res: "res = (case q of Inl e \<Rightarrow> Inl e | Inr u \<Rightarrow> Inr NilResult)"
    by (cases "run_proxy (prov_proxy p) ?op s") (auto simp: bindM_def returnM_def split: sum.splits)
  have "valid_utf8 (proxy_key d)" using assms(4) by (rule valid_proxy_key)
  then have "wf_proxy_op ?op" using True assms(5,6) by (simp add: wf_proxy_op_def wf_service_def int64_range_def)
  from wpM_D [OF redis_reliable.run_proxy_implements [OF assms(1) refl assms(2) this] run]
  show ?thesis using True assms(3) res by (simp add: spec_proxy_def)
next
  case False
  then have "json_unmarshal dec_Proxy (Data r) = Inl json_error"
    unfolding assms(7) port_data_read [OF assms(4,5)] by (rule if_not_P)
  with assms(8) have "res = Inl json_error" "s' = s"
    by (simp_all add: proxyProvision_def bindM_def liftM_def raiseM_def)
  with False show ?thesis by auto
qed

definition proxy_run where
  "proxy_run (m::int) = proxyProvision demo_provisioner
     (plain_reservation ''1-1'' ''8'' ''proxy'' (port_data ''x.y'' ''10.0.0.1'' m 443)) (demo_services, [])"

lemma proxy_ports_exact_witness:
  "fst (proxy_run 4294967296) = Inl json_error \<and> fst (proxy_run (- 1)) = Inl json_error \<and>
   service_of (redis_view (snd (proxy_run 4294967295))) ''x.y'' =
     Some \<lparr>Addr = ''10.0.0.1'', ClientSecret = [], TLSPort = 443, HTTPPort = 4294967295, UserID = ''8''\<rparr>"
proof -
  have rel: "redis_reliable (proxy_redis (prov_proxy demo_provisioner)) redis_view"
    using world.redis_reliable_axioms by (simp add: world_redis_def demo_provisioner_def proxy_New_def)
  have wf: "wf_proxy (redis_view (demo_services, []))" and free: "service_of (redis_view (demo_services, [])) ''x.y'' = None"
    using demo_services_wf by (simp_all add: redis_view_def service_of_def)
  let ?r = "\<lambda>m. plain_reservation ''1-1'' ''8'' ''proxy'' (port_data ''x.y'' ''10.0.0.1'' m 443)"
  have user: "User (?r m) = ''8''" and data: "Data (?r m) = port_data ''x.y'' ''10.0.0.1'' m 443" for m
    by (simp_all add: plain_reservation_def)
  have valid: "valid_utf8 ''x.y''" "valid_utf8 ''10.0.0.1''" "valid_utf8 ''8''" by (simp_all add: ascii_valid ascii_def)
  have "if 0 \<le> m \<and> m < 2 ^ 32 \<and> 0 \<le> (443::int) \<and> (443::int) < 2 ^ 32
    then fst (proxy_run m) = Inr NilResult \<and>
      service_of (redis_view (snd (proxy_run m))) = (service_of (redis_view (demo_services, [])))
        (''x.y'' \<mapsto> \<lparr>Addr = ''10.0.0.1'', ClientSecret = [], TLSPort = 443, HTTPPort = m, UserID = ''8''\<rparr>)
    else fst (proxy_run m) = Inl json_error \<and> snd (proxy_run m) = (demo_services, [])" for m
    using proxy_ports_exact [OF rel wf free valid(1,2) _ data surjective_pairing, of m] valid(3)
    unfolding user proxy_run_def by blast
  from this [of 4294967296] this [of "- 1"] this [of 4294967295] show ?thesis by (simp add: redis_view_def)
qed

section \<open>An address that is none\<close>

lemma record_of_nil: "recordFromIP [] = RecordAAAA ''<nil>'' 3600"
  by (simp add: recordFromIP_def)

text \<open>
  C39: a sub-domain workload with a text that is no address is provisioned: on a server that answers, in
  a zone the customer owns, its handler succeeds and the name gets the AAAA record \<open><nil>\<close>.
\<close>

theorem invalid_address_recorded:
  assumes "redis_reliable rd view" and "wf_dns (view s)" and "distinct_types (ext_enums X)"
    and "q = NewProvisioner X px (dns_New rd identity) wg kp expl"
    and "GetWorkloadType w = WorkloadTypeSubDomain" and "Body w = GatewaySubdomain d [a] node"
    and "valid_utf8 d" and "CHR ''.'' \<notin> set a" and "CHR '':'' \<notin> set a"
    and "validateDomain (ext_isDNSName X) d = None" and "splitDomain d = (n, z)"
    and "owner_of (view s) z = itoa (GetCustomerTid w)" and "itoa (GetCustomerTid w) \<noteq> identity"
    and "WorkloadToProvisionType (ext_enums X) w = Inr r" and "Provisioners q (Type r) = Some h"
    and "h r s = (res, s')"
  shows "res = Inr NilResult \<and>
    Some (RecordAAAA ''<nil>'' 3600) \<in> set (zone_get (stored_zone (view s') z n) RecordTypeAAAA)"
proof -
  let ?u = "itoa (GetCustomerTid w)" and ?c = "dns_New rd identity"
  have c: "dns_redis ?c = rd" "dns_identity ?c = identity" by (simp_all add: dns_New_def)
  have ip: "map ParseIP [a] = [[]]" using assms(8,9) by (simp add: ParseIP_plain)
  have "h r = bindM (AddSubdomain (ext_isDNSName X) ?c ?u d [[]]) (\<lambda>_. returnM NilResult)"
    using provisioned [OF assms(3) _ _ assms(4), of w] assms(5-7,14,15) ip
    by (auto simp: assms(4))
  then obtain r1 where run: "AddSubdomain (ext_isDNSName X) ?c ?u d [[]] s = (r1, s')"
    and res: "res = (case r1 of Inl e \<Rightarrow> Inl e | Inr u \<Rightarrow> Inr NilResult)"
    using assms(16) by (cases "AddSubdomain (ext_isDNSName X) ?c ?u d [[]] s")
      (auto simp: bindM_def returnM_def split: sum.splits)
  have "spec_add identity ?u d [[]] (abs_dns (view s)) = (outcome r1, abs_dns (view s'))"
    using wpM_D [OF redis_reliable.AddSubdomain_implements [OF assms(1) c(1) assms(2)] run] assms(10)
    by (simp add: implements_def spec_checked_def c)
  moreover have "?u \<noteq> []" by (simp add: itoa_def)
  ultimately have "outcome r1 = Done" and
    eq: "abs_dns (view s') = set_rrs z n (\<lambda>t. rrs (abs_dns (view s)) z n t @ of_type t [RecordAAAA ''<nil>'' 3600])
      (set_holder d ?u (abs_dns (view s)))"
    using assms(11-13) by (simp_all add: spec_add_def abs_dns_simps ip_records_def record_of_nil)
  have "last z \<noteq> CHR ''.''" using splitDomain_zone [OF assms(10,11)] by simp
  then have "zone_get (stored_zone (view s') z n) = rrs (abs_dns (view s')) z n"
    by (simp add: abs_dns_simps)
  with \<open>outcome r1 = Done\<close> res show ?thesis
    by (simp add: outcome_Done eq set_rrs_def set_holder_def of_type_def RecordTypeAAAA_def)
qed

lemma invalid_address_recorded_witness:
  "\<exists>r h. WorkloadToProvisionType demo_enums (demo_workload WorkloadTypeSubDomain (GatewaySubdomain ''a.b.c'' [''x''] ''gw'')) = Inr r \<and>
     Provisioners demo_provisioner (Type r) = Some h \<and> fst (h r (demo_store, [])) = Inr NilResult"
proof -
  let ?w = "demo_workload WorkloadTypeSubDomain (GatewaySubdomain ''a.b.c'' [''x''] ''gw'')"
  let ?X = "demo_externals (wg_on_snd mem_wg) :: world externals"
  have rel: "redis_reliable (redis_on_fst mem_redis) redis_view"
    using world.redis_reliable_axioms by (simp add: world_redis_def)
  have types: "distinct_types (ext_enums ?X)" by simp
  have body: "wf_body (GetWorkloadType ?w) (Body ?w)" by (simp add: ascii_def)
  obtain r h where rh: "WorkloadToProvisionType (ext_enums ?X) ?w = Inr r" "Provisioners demo_provisioner (Type r) = Some h"
    using provisioned [OF types body _ demo_provisioner_def] by auto
  obtain res s' where run: "h r (demo_store, []) = (res, s')" by (cases "h r (demo_store, [])")
  have val: "validateDomain (ext_isDNSName ?X) ''a.b.c'' = None"
    by (simp add: validateDomain_def) code_simp
  have wf: "wf_dns (redis_view (demo_store, []))" "owner_of (redis_view (demo_store, [])) ''b.c'' = itoa (GetCustomerTid ?w)"
    by (simp_all add: redis_view_def owner_of_def)
  have "res = Inr NilResult"
    using invalid_address_recorded [OF rel wf(1) types demo_provisioner_def _ _ _ _ _ val _ wf(2) _ rh run]
    by (simp add: ascii_def splitDomain_def)
  with rh run show ?thesis by auto
qed

end
