(* ===== verification/NetURL.thy ===== *)
theory NetURL
  imports Base64
begin

text \<open>
  What the program uses of the package net/url: \<open>url.Parse\<close> as of Go 1.14, with the parts of a URL the
  program reads. Any failure is the one error of \<open>url.Parse\<close>.
\<close>

record URL =
  url_Scheme :: string
  url_Opaque :: string
  url_User :: "(string \<times> string option) option"
  url_Host :: string
  url_Path :: string

datatype url_mode = EncodeHost | EncodeZone | EncodeOther

section \<open>Cutting texts\<close>

text \<open>\<open>split\<close> at the first separator, which is cut; \<open>strings.LastIndex\<close> of a byte as what stands before
  and after it; \<open>strings.Index\<close> of a text.\<close>

definition cut_first :: "char \<Rightarrow> string \<Rightarrow> string \<times> string" where
  "cut_first c s = (takeWhile (\<lambda>x. x \<noteq> c) s, tl (dropWhile (\<lambda>x. x \<noteq> c) s))"

definition split_last :: "char \<Rightarrow> string \<Rightarrow> (string \<times> string) option" where
  "split_last c s = (if c \<in> set s then Some (rev (tl (dropWhile (\<lambda>x. x \<noteq> c) (rev s))), rev (takeWhile (\<lambda>x. x \<noteq> c) (rev s)))
     else None)"

fun index_of :: "string \<Rightarrow> string \<Rightarrow> nat option" where
  "index_of sub [] = (if sub = [] then Some 0 else None)"
| "index_of sub (c # cs) = (if HasPrefix (c # cs) sub then Some 0 else map_option Suc (index_of sub cs))"

definition byte_val :: "char \<Rightarrow> nat" where
  "byte_val c = of_char c"

definition is_letter :: "char \<Rightarrow> bool" where
  "is_letter c \<longleftrightarrow> (97 \<le> byte_val c \<and> byte_val c \<le> 122) \<or> (65 \<le> byte_val c \<and> byte_val c \<le> 90)"

definition to_lower :: "char \<Rightarrow> char" where
  "to_lower c = (if 65 \<le> byte_val c \<and> byte_val c \<le> 90 then char_of (byte_val c + 32) else c)"

section \<open>Escapes\<close>

text \<open>\<open>shouldEscape\<close> in the modes for hosts and zones.\<close>

definition host_chars :: string where
  "host_chars = ''!$&()*+,;=:[]<>-_.~'' @ [CHR 0x22, CHR 0x27]"

definition should_escape :: "char \<Rightarrow> bool" where
  "should_escape c \<longleftrightarrow> \<not> (is_letter c \<or> is_digit c \<or> c \<in> set host_chars)"

fun unescape :: "url_mode \<Rightarrow> string \<Rightarrow> string option" where
  "unescape m [] = Some []"
| "unescape m (c # cs) =
     (if c = CHR ''%'' then
        (case cs of
           a # b # rest \<Rightarrow>
             (case (hex_val a, hex_val b) of
                (Some x, Some y) \<Rightarrow>
                  if m = EncodeHost \<and> x < 8 \<and> [a, b] \<noteq> ''25'' then None
                  else if m = EncodeZone \<and> [a, b] \<noteq> ''25'' \<and> 16 * x + y \<noteq> 32 \<and> should_escape (char_of (16 * x + y)) then None
                  else map_option ((#) (char_of (16 * x + y))) (unescape m rest)
              | _ \<Rightarrow> None)
         | _ \<Rightarrow> None)
      else if m \<noteq> EncodeOther \<and> byte_val c < 128 \<and> should_escape c then None
      else map_option ((#) c) (unescape m cs))"

section \<open>Parsing\<close>

definition valid_userinfo :: "string \<Rightarrow> bool" where
  "valid_userinfo s \<longleftrightarrow> list_all (\<lambda>c. is_letter c \<or> is_digit c \<or> c \<in> set ''-._:~!$&()*+,;=%@'' \<or> c = CHR 0x27) s"

definition valid_optional_port :: "string \<Rightarrow> bool" where
  "valid_optional_port p \<longleftrightarrow> p = [] \<or> (hd p = CHR '':'' \<and> list_all is_digit (tl p))"

fun getscheme :: "string \<Rightarrow> string \<Rightarrow> string \<Rightarrow> (string \<times> string) option" where
  "getscheme raw acc [] = Some ([], raw)"
| "getscheme raw acc (c # cs) =
     (if is_letter c then getscheme raw (c # acc) cs
      else if is_digit c \<or> c \<in> set ''+-.'' then if acc = [] then Some ([], raw) else getscheme raw (c # acc) cs
      else if c = CHR '':'' then if acc = [] then None else Some (rev acc, cs)
      else Some ([], raw))"

definition parseHost :: "string \<Rightarrow> string option" where
  "parseHost host =
     (if HasPrefix host ''['' then
        (case split_last (CHR '']'') host of
           None \<Rightarrow> None
         | Some (before, colonPort) \<Rightarrow>
             if \<not> valid_optional_port colonPort then None
             else (case index_of ''%25'' before of
                 Some z \<Rightarrow>
                   (case (unescape EncodeHost (take z host), unescape EncodeZone (drop z before),
                          unescape EncodeHost (drop (length before) host)) of
                      (Some h1, Some h2, Some h3) \<Rightarrow> Some (h1 @ h2 @ h3)
                    | _ \<Rightarrow> None)
               | None \<Rightarrow> unescape EncodeHost host))
      else
        (case split_last (CHR '':'') host of
           Some (before, port) \<Rightarrow> if valid_optional_port (CHR '':'' # port) then unescape EncodeHost host else None
         | None \<Rightarrow> unescape EncodeHost host))"

definition parse_user :: "string \<Rightarrow> (string \<times> string option) option" where
  "parse_user info =
     (if \<not> valid_userinfo info then None
      else if CHR '':'' \<notin> set info then map_option (\<lambda>u. (u, None)) (unescape EncodeOther info)
      else case cut_first (CHR '':'') info of (u, p) \<Rightarrow>
        (case (unescape EncodeOther u, unescape EncodeOther p) of
           (Some u', Some p') \<Rightarrow> Some (u', Some p')
         | _ \<Rightarrow> None))"

definition parseAuthority :: "string \<Rightarrow> ((string \<times> string option) option \<times> string) option" where
  "parseAuthority a =
     (case split_last (CHR ''@'') a of
        None \<Rightarrow> map_option (\<lambda>h. (None, h)) (parseHost a)
      | Some (info, host) \<Rightarrow>
          (case (parseHost host, parse_user info) of
             (Some h, Some u) \<Rightarrow> Some (Some u, h)
           | _ \<Rightarrow> None))"

text \<open>The part behind the scheme, without query and fragment.\<close>

definition parse_rest :: "string \<Rightarrow> string \<Rightarrow> URL option" where
  "parse_rest scheme rest =
     (if \<not> HasPrefix rest ''/'' \<and> scheme \<noteq> [] then
        Some \<lparr>url_Scheme = scheme, url_Opaque = rest, url_User = None, url_Host = [], url_Path = []\<rparr>
      else if \<not> HasPrefix rest ''/'' \<and> CHR '':'' \<in> set (takeWhile (\<lambda>c. c \<noteq> CHR ''/'') rest) then None
      else if (scheme \<noteq> [] \<or> \<not> HasPrefix rest ''///'') \<and> HasPrefix rest ''//'' then
        (let authority = takeWhile (\<lambda>c. c \<noteq> CHR ''/'') (drop 2 rest);
             path = dropWhile (\<lambda>c. c \<noteq> CHR ''/'') (drop 2 rest)
         in case (parseAuthority authority, unescape EncodeOther path) of
              (Some (u, h), Some p) \<Rightarrow> Some \<lparr>url_Scheme = scheme, url_Opaque = [], url_User = u, url_Host = h, url_Path = p\<rparr>
            | _ \<Rightarrow> None)
      else map_option (\<lambda>p. \<lparr>url_Scheme = scheme, url_Opaque = [], url_User = None, url_Host = [], url_Path = p\<rparr>)
        (unescape EncodeOther rest))"

definition parse_url :: "string \<Rightarrow> URL option" where
  "parse_url u =
     (if \<exists>c \<in> set u. byte_val c < 32 \<or> byte_val c = 127 then None
      else if u = ''*'' then Some \<lparr>url_Scheme = [], url_Opaque = [], url_User = None, url_Host = [], url_Path = ''*''\<rparr>
      else case getscheme u [] u of
        None \<Rightarrow> None
      | Some (scheme, rest) \<Rightarrow> parse_rest (map to_lower scheme) (fst (cut_first (CHR ''?'') rest)))"

definition url_error :: go_error where
  "url_error = StdErr ''url.Parse''"

definition url_Parse :: "string \<Rightarrow> go_error + URL" where
  "url_Parse raw =
     (case cut_first (CHR ''#'') raw of (u, frag) \<Rightarrow>
      (case (parse_url u, unescape EncodeOther frag) of
         (Some x, Some f) \<Rightarrow> Inr x
       | _ \<Rightarrow> Inl url_error))"

end
