(* ===== verification/RedisPool.thy ===== *)
theory RedisPool
  imports NetURL Redis
begin

text \<open>
  File redis/pool.go: from the address of the redis server to the options of the connection pool of
  redigo, which is not part of the repository. Times are in seconds. \<open>test_on_borrow\<close> is the check of
  a connection that has been idle for a time, given the connection's PING.
\<close>

record pool_config =
  dial_network :: string
  dial_address :: string
  dial_password :: "string option"
  max_active :: int
  max_idle :: int
  idle_timeout :: int
  pool_wait :: bool

definition test_on_borrow :: "('s, unit) go \<Rightarrow> int \<Rightarrow> ('s, unit) go" where
  "test_on_borrow ping idle = (if idle > 10 then ping else returnM ())"

definition NewPool :: "string \<Rightarrow> go_error + pool_config" where
  "NewPool address =
     (case url_Parse address of
        Inl e \<Rightarrow> Inl e
      | Inr u \<Rightarrow>
          (let pool = (\<lambda>host. Inr \<lparr>dial_network = url_Scheme u, dial_address = host,
                 dial_password = map_option fst (url_User u),
                 max_active = 3, max_idle = 3, idle_timeout = 60, pool_wait = True\<rparr>)
           in if url_Scheme u = ''tcp'' then pool (url_Host u)
              else if url_Scheme u = ''unix'' then pool (url_Path u)
              else Inl (NewErr (''unknown scheme '' @ quoted (url_Scheme u) @ '' expecting tcp or unix''))))"

section \<open>The addresses the program documents\<close>

lemma unescape_plain:
  "\<forall>c \<in> set s. c \<noteq> CHR ''%'' \<and> (m = EncodeOther \<or> \<not> should_escape c) \<Longrightarrow> unescape m s = Some s"
  by (induction s) simp_all

lemma takeWhile_all: "c \<notin> set s \<Longrightarrow> takeWhile (\<lambda>x. x \<noteq> c) s = s" "c \<notin> set s \<Longrightarrow> dropWhile (\<lambda>x. x \<noteq> c) s = []"
  by (auto intro: takeWhile_eq_all_conv [THEN iffD2])

definition host_char :: "char \<Rightarrow> bool" where
  "host_char c \<longleftrightarrow> is_letter c \<or> is_digit c \<or> c = CHR ''-'' \<or> c = CHR ''.''"

lemma host_char_facts:
  assumes "host_char c"
  shows "c \<notin> {CHR ''/'', CHR '':'', CHR ''@'', CHR ''%'', CHR ''['', CHR ''?'', CHR ''#''}"
    and "\<not> should_escape c" "\<not> (byte_val c < 32 \<or> byte_val c = 127)"
proof -
  have special: "x \<in> {CHR ''/'', CHR '':'', CHR ''@'', CHR ''%'', CHR ''['', CHR ''?'', CHR ''#''} \<Longrightarrow> \<not> host_char x" for x
    by (elim insertE emptyE) (simp_all add: host_char_def is_letter_def is_digit_def byte_val_def)
  with assms show "c \<notin> {CHR ''/'', CHR '':'', CHR ''@'', CHR ''%'', CHR ''['', CHR ''?'', CHR ''#''}" by blast
  have "CHR ''-'' \<in> set host_chars" "CHR ''.'' \<in> set host_chars" by (simp_all add: host_chars_def)
  with assms show "\<not> should_escape c" unfolding host_char_def should_escape_def by blast
  have "byte_val CHR ''-'' = 45" "byte_val CHR ''.'' = 46" by (simp_all add: byte_val_def)
  with assms show "\<not> (byte_val c < 32 \<or> byte_val c = 127)"
    unfolding host_char_def is_letter_def is_digit_def byte_val_def by auto
qed

lemma digit_host_char: "is_digit c \<Longrightarrow> host_char c"
  by (simp add: host_char_def)

lemma split_last_snoc: "c \<notin> set b \<Longrightarrow> split_last c (a @ c # b) = Some (a, b)"
  by (simp add: split_last_def takeWhile_tail dropWhile_append3 takeWhile_all)

lemma parseHost_plain:
  assumes "list_all host_char h" and "list_all is_digit p"
  shows "parseHost (h @ '':'' @ p) = Some (h @ '':'' @ p)"
proof -
  have p: "CHR '':'' \<notin> set p" using assms(2) host_char_facts(1) [OF digit_host_char] by (auto simp: list_all_iff)
  have "\<not> should_escape c" "c \<noteq> CHR ''%''" if "c \<in> set (h @ '':'' @ p)" for c
    proof -
    have "c = CHR '':'' \<or> host_char c" using that assms digit_host_char by (auto simp: list_all_iff)
    moreover have "\<not> should_escape CHR '':''" by (simp add: should_escape_def host_chars_def)
    ultimately show "\<not> should_escape c" "c \<noteq> CHR ''%''" using host_char_facts(1,2) [of c] by auto
  qed
  then have "unescape EncodeHost (h @ '':'' @ p) = Some (h @ '':'' @ p)" by (intro unescape_plain) simp
  moreover have "\<not> HasPrefix (h @ '':'' @ p) ''[''"
    using assms(1) host_char_facts(1) by (cases h) (auto simp: HasPrefix_def)
  moreover have "split_last (CHR '':'') (h @ CHR '':'' # p) = Some (h, p)" using p by (rule split_last_snoc)
  moreover have "valid_optional_port (CHR '':'' # p)" using assms(2) by (simp add: valid_optional_port_def)
  ultimately show ?thesis by (simp add: parseHost_def)
qed

text \<open>An address of the form scheme, two slashes and the rest, with no byte that ends or breaks it.\<close>

definition unbroken :: "string \<Rightarrow> bool" where
  "unbroken s \<longleftrightarrow> list_all (\<lambda>c. c \<notin> {CHR ''#'', CHR ''?''} \<and> \<not> (byte_val c < 32 \<or> byte_val c = 127)) s"

lemma unbroken_simps [simp]:
  "unbroken []" "unbroken (a @ b) \<longleftrightarrow> unbroken a \<and> unbroken b"
  "unbroken (CHR '':'' # s) = unbroken s" "unbroken (CHR ''@'' # s) = unbroken s" "unbroken (CHR ''/'' # s) = unbroken s"
  by (simp_all add: unbroken_def byte_val_def)

lemma host_text:
  assumes "list_all host_char s"
  shows "unbroken s" "CHR ''/'' \<notin> set s" "CHR '':'' \<notin> set s" "CHR ''@'' \<notin> set s" "unescape EncodeOther s = Some s"
  using assms host_char_facts(1,3) by (auto simp: list_all_iff unbroken_def intro!: unescape_plain)

lemma digits_text: "list_all host_char (decimal p)"
  using dec_digits digit_host_char by (simp add: list_all_iff)

lemma letter_facts:
  assumes "is_letter c"
  shows "c \<notin> {CHR ''#'', CHR ''?'', CHR '':''}" "\<not> (byte_val c < 32 \<or> byte_val c = 127)"
proof -
  have "x \<in> {CHR ''#'', CHR ''?'', CHR '':''} \<Longrightarrow> \<not> is_letter x" for x
    by (elim insertE emptyE) (simp_all add: is_letter_def byte_val_def)
  with assms show "c \<notin> {CHR ''#'', CHR ''?'', CHR '':''}" by blast
  show "\<not> (byte_val c < 32 \<or> byte_val c = 127)" using assms unfolding is_letter_def by auto
qed

lemma getscheme_letters:
  "list_all is_letter sc \<Longrightarrow> acc \<noteq> [] \<or> sc \<noteq> [] \<Longrightarrow>
   getscheme raw acc (sc @ CHR '':'' # rest) = Some (rev acc @ sc, rest)"
proof (induction sc arbitrary: acc)
  case Nil
  have "\<not> is_letter CHR '':''" "\<not> is_digit CHR '':''" by (simp_all add: is_letter_def is_digit_def byte_val_def)
  with Nil show ?case by simp
qed simp

lemma url_Parse_authority:
  assumes "list_all is_letter sc" "sc \<noteq> []" "unbroken rest"
  shows "url_Parse (sc @ ''://'' @ rest) =
    (case parse_rest (map to_lower sc) (''//'' @ rest) of Some u \<Rightarrow> Inr u | None \<Rightarrow> Inl url_error)"
proof -
  let ?u = "sc @ ''://'' @ rest"
  define ok where "ok c \<longleftrightarrow> c \<notin> {CHR ''#'', CHR ''?''} \<and> \<not> (byte_val c < 32 \<or> byte_val c = 127)" for c
  have "list_all ok sc" "list_all ok rest"
    using assms letter_facts by (auto simp: unbroken_def list_all_iff ok_def)
  moreover have "ok CHR '':''" "ok CHR ''/''" by (simp_all add: ok_def byte_val_def)
  ultimately have "list_all ok ?u" "list_all ok (''//'' @ rest)" by simp_all
  then have all: "\<forall>c \<in> set ?u. ok c" "\<forall>c \<in> set (''//'' @ rest). ok c" unfolding list_all_iff by blast+
  have "\<not> ok CHR ''#''" "\<not> ok CHR ''?''" by (simp_all add: ok_def)
  with all have plain: "CHR ''#'' \<notin> set ?u" "CHR ''?'' \<notin> set (''//'' @ rest)" by metis+
  have printable: "\<not> (\<exists>c \<in> set ?u. byte_val c < 32 \<or> byte_val c = 127)" using all(1) unfolding ok_def by metis
  have "?u \<noteq> ''*''" using assms(2) by (cases sc) auto
  moreover have "getscheme ?u [] ?u = Some (sc, ''//'' @ rest)"
    using getscheme_letters [of sc "[]" ?u "''//'' @ rest"] assms(1,2) by simp
  ultimately have "parse_url ?u = parse_rest (map to_lower sc) (''//'' @ rest)"
    using printable plain(2) by (simp add: takeWhile_all parse_url_def cut_first_def del: set_append)
  moreover have "cut_first (CHR ''#'') ?u = (?u, [])"
    unfolding cut_first_def takeWhile_all [OF plain(1)] by simp
  ultimately show ?thesis unfolding url_Parse_def by (simp split: option.split)
qed

lemma scheme_letters:
  "list_all is_letter ''tcp''" "list_all is_letter ''unix''" "map to_lower ''tcp'' = ''tcp''" "map to_lower ''unix'' = ''unix''"
  by (simp_all add: is_letter_def byte_val_def to_lower_def)

lemma parse_server:
  assumes "list_all is_letter sc" "sc \<noteq> []" "unbroken a" "CHR ''/'' \<notin> set a" "parseAuthority a = Some (u, h)"
  shows "url_Parse (sc @ ''://'' @ a) =
    Inr \<lparr>url_Scheme = map to_lower sc, url_Opaque = [], url_User = u, url_Host = h, url_Path = []\<rparr>"
proof -
  have "parse_rest (map to_lower sc) (''//'' @ a) =
      Some \<lparr>url_Scheme = map to_lower sc, url_Opaque = [], url_User = u, url_Host = h, url_Path = []\<rparr>"
    using assms(2,4,5) by (simp add: parse_rest_def HasPrefix_def takeWhile_all Let_def)
  with url_Parse_authority [OF assms(1-3)] show ?thesis by simp
qed

text \<open>The path of a socket: any bytes but those that end a path, escapes and control bytes.\<close>

definition path_text :: "string \<Rightarrow> bool" where
  "path_text s \<longleftrightarrow> unbroken s \<and> CHR ''%'' \<notin> set s"

lemma parse_unix:
  assumes "path_text path"
  shows "url_Parse (''unix:///'' @ path) =
    Inr \<lparr>url_Scheme = ''unix'', url_Opaque = [], url_User = None, url_Host = [], url_Path = ''/'' @ path\<rparr>"
proof -
  have "unescape EncodeOther (''/'' @ path) = Some (''/'' @ path)"
    using assms by (intro unescape_plain) (auto simp: path_text_def)
  then have "parse_rest ''unix'' (''//'' @ ''/'' @ path) =
      Some \<lparr>url_Scheme = ''unix'', url_Opaque = [], url_User = None, url_Host = [], url_Path = ''/'' @ path\<rparr>"
    by (simp add: parse_rest_def HasPrefix_def Let_def parseAuthority_def split_last_def parseHost_def)
  with url_Parse_authority [OF scheme_letters(2), of "''/'' @ path"] assms scheme_letters(4) show ?thesis
    by (simp add: path_text_def)
qed

lemma parse_user_plain:
  assumes "list_all host_char w" "list_all host_char w'"
  shows "parse_user (w @ '':'' @ w') = Some (w, Some w')"
proof -
  have "valid_userinfo (w @ '':'' @ w')"
    using assms by (auto simp: valid_userinfo_def list_all_iff host_char_def)
  then show ?thesis
    using host_text(3,5) [OF assms(1)] host_text(5) [OF assms(2)]
    by (simp add: parse_user_def cut_first_def takeWhile_tail dropWhile_append3 takeWhile_append dropWhile_append takeWhile_all)
qed

text \<open>
  C37: the two forms of address that the program documents give a pool that dials what is written, with
  no password: a host name and a port behind tcp, and any absolute path of a socket, with its
  slashes, behind unix, as long as it has no question mark, hash, percent sign or control byte, which
  mean something else in an address. Any other scheme before a host and a port is refused by its name. A user name
  and a password before the host are not documented: the user name becomes the password.
\<close>

theorem pool_address:
  assumes "list_all host_char h" "path_text path" "list_all host_char w" "list_all host_char w'"
    and "list_all is_letter sc" "sc \<noteq> []" "map to_lower sc \<notin> {''tcp'', ''unix''}"
  shows "NewPool (''tcp://'' @ h @ '':'' @ decimal p) = Inr \<lparr>dial_network = ''tcp'', dial_address = h @ '':'' @ decimal p,
      dial_password = None, max_active = 3, max_idle = 3, idle_timeout = 60, pool_wait = True\<rparr> \<and>
    NewPool (''unix:///'' @ path) = Inr \<lparr>dial_network = ''unix'', dial_address = ''/'' @ path,
      dial_password = None, max_active = 3, max_idle = 3, idle_timeout = 60, pool_wait = True\<rparr> \<and>
    NewPool (sc @ ''://'' @ h @ '':'' @ decimal p) =
      Inl (NewErr (''unknown scheme '' @ quoted (map to_lower sc) @ '' expecting tcp or unix'')) \<and>
    (\<exists>cfg. NewPool (''tcp://'' @ w @ '':'' @ w' @ ''@'' @ h @ '':'' @ decimal p) = Inr cfg \<and>
      dial_address cfg = h @ '':'' @ decimal p \<and> dial_password cfg = Some w)"
proof (intro conjI)
  let ?hp = "h @ '':'' @ decimal p" and ?w = "w @ '':'' @ w'"
  have host: "parseHost ?hp = Some ?hp"
    by (rule parseHost_plain [OF assms(1)]) (use dec_digits in \<open>simp add: list_all_iff\<close>)
  note texts = host_text [OF assms(1)] host_text [OF assms(3)] host_text [OF assms(4)] host_text [OF digits_text [of p]]
  have hp: "unbroken ?hp" "CHR ''/'' \<notin> set ?hp" and no_at: "CHR ''@'' \<notin> set ?hp" using texts by simp_all
  then have plain: "parseAuthority ?hp = Some (None, ?hp)"
    using host by (simp add: parseAuthority_def split_last_def)
  have tcp: "url_Parse (''tcp://'' @ a) = Inr \<lparr>url_Scheme = ''tcp'', url_Opaque = [], url_User = u, url_Host = x, url_Path = []\<rparr>"
    if "unbroken a" "CHR ''/'' \<notin> set a" "parseAuthority a = Some (u, x)" for a u x
    using parse_server [OF scheme_letters(1) _ that] scheme_letters(3) by simp
  show "NewPool (''tcp://'' @ ?hp) = Inr \<lparr>dial_network = ''tcp'', dial_address = ?hp,
      dial_password = None, max_active = 3, max_idle = 3, idle_timeout = 60, pool_wait = True\<rparr>"
    using tcp [OF hp plain] by (simp add: NewPool_def Let_def)
  show "NewPool (''unix:///'' @ path) = Inr \<lparr>dial_network = ''unix'', dial_address = ''/'' @ path,
      dial_password = None, max_active = 3, max_idle = 3, idle_timeout = 60, pool_wait = True\<rparr>"
    using parse_unix [OF assms(2)] by (simp add: NewPool_def Let_def)
  show "NewPool (sc @ ''://'' @ ?hp) =
      Inl (NewErr (''unknown scheme '' @ quoted (map to_lower sc) @ '' expecting tcp or unix''))"
    using parse_server [OF assms(5,6) hp plain] assms(7) by (simp add: NewPool_def Let_def)
  have "split_last (CHR ''@'') (?w @ ''@'' @ ?hp) = Some (?w, ?hp)"
    using split_last_snoc [OF no_at, of ?w] by simp
  then have "parseAuthority (?w @ ''@'' @ ?hp) = Some (Some (w, Some w'), ?hp)"
    using host parse_user_plain [OF assms(3,4)] by (simp add: parseAuthority_def)
  with tcp [of "?w @ ''@'' @ ?hp"] texts
  show "\<exists>cfg. NewPool (''tcp://'' @ w @ '':'' @ w' @ ''@'' @ ?hp) = Inr cfg \<and> dial_address cfg = ?hp \<and> dial_password cfg = Some w"
    by (simp add: NewPool_def Let_def)
qed

lemma pool_address_witness:
  "NewPool ''unix:///var/run/redis.sock'' = Inr \<lparr>dial_network = ''unix'', dial_address = ''/var/run/redis.sock'',
     dial_password = None, max_active = 3, max_idle = 3, idle_timeout = 60, pool_wait = True\<rparr> \<and>
   (\<exists>t. NewPool (''http://localhost:'' @ decimal 6379) = Inl (NewErr t))"
proof -
  have names: "list_all host_char ''localhost''" "list_all host_char ''user''"
    by (simp_all add: host_char_def is_letter_def byte_val_def)
  have path: "path_text ''var/run/redis.sock''" by (simp add: path_text_def unbroken_def byte_val_def)
  have http: "list_all is_letter ''http''" "''http'' \<noteq> []" "map to_lower ''http'' \<notin> {''tcp'', ''unix''}"
    by (simp_all add: is_letter_def byte_val_def to_lower_def)
  show ?thesis using pool_address [OF names(1) path names(2,2) http, of 6379] by simp
qed

end
