(* ===== verification/GatewayMain.thy ===== *)
theory GatewayMain
  imports Provision RedisPool FileSystem Cache
begin

text \<open>
  File cmd/tfgateway/main.go: the start of the gateway, from the flags of the command line to the run
  of the provisioning engine. What belongs to other packages is the parameter \<open>platform\<close>: key files,
  the explorer's client, the location service, the backoff package that retries calls, the engine. A call of
  \<open>log.Fatal\<close> ends the process, as \<open>main\<close> does on any error of \<open>run\<close>: it is an error of the run.
  The state has two parts, the world and the counters.
\<close>

section \<open>The command line\<close>

record cli =
  cli_seed :: string
  cli_explorer :: string
  cli_redis :: string
  cli_debug :: bool
  cli_farm :: int
  cli_nameservers :: "string list"
  cli_domains :: "string list"
  cli_tcp_client_port :: int
  cli_endpoint :: string
  cli_wg_iface :: string
  cli_free :: bool

text \<open>The values of the flags that are not given.\<close>

definition cli_defaults :: cli where
  "cli_defaults = \<lparr>cli_seed = ''identity.seed'', cli_explorer = ''https://explorer.grid.tf/api/v1'',
     cli_redis = ''tcp://localhost:6379'', cli_debug = False, cli_farm = 0, cli_nameservers = [], cli_domains = [],
     cli_tcp_client_port = 18000, cli_endpoint = [], cli_wg_iface = ''wg-tfgateway'', cli_free = False\<rparr>"

definition validDomain :: "'s externals \<Rightarrow> string \<Rightarrow> bool" where
  "validDomain X d = ext_isDNSName X d"

fun validDomains :: "'s externals \<Rightarrow> string list \<Rightarrow> bool" where
  "validDomains X [] = True"
| "validDomains X (d # ds) = (if \<not> validDomain X d then False else validDomains X ds)"

definition is4To6Enabled :: "cli \<Rightarrow> bool" where
  "is4To6Enabled c = list_all (\<lambda>s. s \<noteq> []) [cli_endpoint c, cli_wg_iface c]"

section \<open>What the platform offers\<close>

record gwIdentity =
  gwi_kp :: KeyPair

definition gwi_PrivateKey :: "gwIdentity \<Rightarrow> string" where
  "gwi_PrivateKey n = kp_PrivateKey (gwi_kp n)"

definition gwi_Identity :: "gwIdentity \<Rightarrow> string" where
  "gwi_Identity n = kp_Identity (gwi_kp n)"

text \<open>The location as the service gives it; the coordinates are handed on as they are.\<close>

record geo_location =
  geo_Continent :: string
  geo_Country :: string
  geo_City :: string
  geo_Longitute :: string
  geo_Latitude :: string

text \<open>
  What the engine is made of. Its source combines a poller, which converts the explorer's workloads,
  orders them and signs its requests with the key pair, with the expired reservations of the cache.
  Its statser is the counters, which it updates and asks.
\<close>

record ('s, 'r) engine_source =
  es_Poller :: "('s, 'r) explorer \<times> (workload \<Rightarrow> go_error + reservation) \<times> (ReservationType \<rightharpoonup> int)"
  es_KeyPair :: KeyPair
  es_Expired :: "'s RedisCache"

record 'c statser =
  ss_Increment :: "reservation \<Rightarrow> 'c Counters \<Rightarrow> 'c Counters"
  ss_Decrement :: "reservation \<Rightarrow> 'c Counters \<Rightarrow> 'c Counters"
  ss_CheckMemoryRequirements :: "'c Counters \<Rightarrow> reservation \<Rightarrow> 64 word \<Rightarrow> go_error option"
  ss_CurrentWorkloads :: "'c Counters \<Rightarrow> WorkloadAmount"

record ('s, 'r, 'c) engine_ops =
  eo_NodeID :: string
  eo_Cache :: "'s RedisCache"
  eo_Source :: "('s, 'r) engine_source"
  eo_Provisioners :: "ReservationType \<rightharpoonup> (reservation \<Rightarrow> ('s, provision_result) go)"
  eo_Decomissioners :: "ReservationType \<rightharpoonup> (reservation \<Rightarrow> ('s, unit) go)"
  eo_Feedback :: "('s, 'r) Feedback"
  eo_Signer :: gwIdentity
  eo_Statser :: "'c statser"

text \<open>The limits of an exponential backoff that the program sets, in nanoseconds; the defaults of the
  package otherwise.\<close>

record backoff_policy =
  bo_MaxElapsedTime :: "int option"
  bo_MaxInterval :: "int option"

definition NewExponentialBackOff :: backoff_policy where
  "NewExponentialBackOff = \<lparr>bo_MaxElapsedTime = None, bo_MaxInterval = None\<rparr>"

record ('s, 'r, 'c) platform =
  pf_Open :: "pool_config \<Rightarrow> 's redis"
  pf_LoadKeyPair :: "string \<Rightarrow> ('s, KeyPair) go"
  pf_GenerateKeyPair :: "('s, KeyPair) go"
  pf_Save :: "KeyPair \<Rightarrow> string \<Rightarrow> ('s, unit) go"
  pf_Sign :: "string \<Rightarrow> string \<Rightarrow> go_error + string"
  pf_NewClient :: "string \<Rightarrow> gwIdentity \<Rightarrow> ('s, ('s, 'r) explorer) go"
  pf_Geoip :: "('s, geo_location) go"
  pf_Version :: string
  pf_Store :: store_codec
  pf_Counter :: "'c counter_ops"
  pf_Counters :: "'c Counters"
  pf_Retry :: "backoff_policy \<Rightarrow> ('s, unit) go \<Rightarrow> ('s, unit) go"
  pf_HostUptime :: "('s, 64 word) go"
  pf_NewEngine :: "('s, 'r, 'c) engine_ops \<Rightarrow> go_error option"
  pf_RunEngine :: "('s, 'r, 'c) engine_ops \<Rightarrow> ('s \<times> 'c Counters, unit) go"

definition gwi_Sign :: "('s, 'r, 'c) platform \<Rightarrow> gwIdentity \<Rightarrow> string \<Rightarrow> go_error + string" where
  "gwi_Sign P n b = pf_Sign P (kp_PrivateKey (gwi_kp n)) b"

section \<open>The identity\<close>

definition ensureID :: "('s, 'r, 'c) platform \<Rightarrow> string \<Rightarrow> ('s, KeyPair) go" where
  "ensureID P seed =
     handleM (pf_LoadKeyPair P seed) (\<lambda>r. case r of
       Inr kp \<Rightarrow> returnM kp
     | Inl e \<Rightarrow>
         if \<not> IsNotExist e then raiseM (wrap_err e ''failed to read identity seed'')
         else
           bindM (wrapM (\<lambda>e. wrap_err e ''failed to generate new key pair from seed'') (pf_GenerateKeyPair P)) (\<lambda>kp.
           bindM (wrapM (\<lambda>e. wrap_err e (''failed to save new key pair into file '' @ seed)) (pf_Save P kp seed)) (\<lambda>_.
           returnM kp)))"

section \<open>The heart-beat\<close>

definition uptime :: "('s, 'r, 'c) platform \<Rightarrow> ('s, 64 word) go" where
  "uptime P = pf_HostUptime P"

definition sendUptime :: "('s, 'r, 'c) platform \<Rightarrow> string \<Rightarrow> ('s, 'r) explorer \<Rightarrow> ('s, unit) go" where
  "sendUptime P node e = bindM (uptime P) (\<lambda>u. GatewayUpdateUptime e node u)"

text \<open>What the loop of the ticker waits for: the next tick or the end of the context.\<close>

datatype ticker_event = Tick | CtxDone

fun uptime_loop :: "('s, 'r, 'c) platform \<Rightarrow> string \<Rightarrow> ('s, 'r) explorer \<Rightarrow> ticker_event list \<Rightarrow> ('s, unit) go" where
  "uptime_loop P node e [] = returnM ()"
| "uptime_loop P node e (Tick # evs) =
     bindM (ignoreM (pf_Retry P NewExponentialBackOff (sendUptime P node e))) (\<lambda>_. uptime_loop P node e evs)"
| "uptime_loop P node e (CtxDone # evs) = returnM ()"

text \<open>\<open>Start\<close> sends once and leaves the loop to a goroutine, which runs beside the engine.\<close>

definition uptime_Start :: "('s, 'r, 'c) platform \<Rightarrow> string \<Rightarrow> ('s, 'r) explorer \<Rightarrow> ('s, unit) go" where
  "uptime_Start P node e = ignoreM (pf_Retry P NewExponentialBackOff (sendUptime P node e))"

section \<open>The run\<close>

text \<open>The text of a list of strings with \<open>%v\<close>.\<close>

definition fmt_list :: "string list \<Rightarrow> string" where
  "fmt_list ds = ''['' @ Join ds '' '' @ '']''"

definition manage_domains :: "'s externals \<Rightarrow> 's dns_Mgr \<Rightarrow> KeyPair \<Rightarrow> string list \<Rightarrow> ('s, unit) go" where
  "manage_domains X dnsMgr kp domains =
     forM domains (\<lambda>domain.
       wrapM (\<lambda>e. wrap_err e (''fail to manage domain '' @ domain))
         (AddDomainDelagate (ext_isDNSName X) dnsMgr (kp_Identity kp) (kp_Identity kp) domain))"

definition gateway_record :: "('s, 'r, 'c) platform \<Rightarrow> cli \<Rightarrow> KeyPair \<Rightarrow> geo_location \<Rightarrow> Gateway" where
  "gateway_record P c kp loc = \<lparr>gw_NodeId = kp_Identity kp, gw_FarmId = cli_farm c,
     gw_PublicKeyHex = hex_encode (kp_PublicKey kp), gw_OsVersion = pf_Version P,
     gw_Location = \<lparr>loc_Continent = geo_Continent loc, loc_Country = geo_Country loc, loc_City = geo_City loc,
       loc_Longitude = geo_Longitute loc, loc_Latitude = geo_Latitude loc\<rparr>,
     gw_ManagedDomains = cli_domains c, gw_DnsNameserver = cli_nameservers c,
     gw_TcpRouterPort = cli_tcp_client_port c, gw_FreeToUse = cli_free c\<rparr>"

definition registerID :: "Gateway \<Rightarrow> ('s, 'r) explorer \<Rightarrow> ('s, unit) go" where
  "registerID gw expl = GatewayRegister expl gw"

definition register_backoff :: backoff_policy where
  "register_backoff = NewExponentialBackOff\<lparr>bo_MaxElapsedTime := Some 60000000000, bo_MaxInterval := Some 2000000000\<rparr>"

definition register :: "('s, 'r, 'c) platform \<Rightarrow> Gateway \<Rightarrow> ('s, 'r) explorer \<Rightarrow> ('s, unit) go" where
  "register P gw e =
     wrapM (\<lambda>e. wrap_err e ''failed to register gateway in the explorer'')
       (pf_Retry P register_backoff (registerID gw e))"

definition enable_tunnels ::
    "('s, 'r, 'c) platform \<Rightarrow> 's externals \<Rightarrow> cli \<Rightarrow> KeyPair \<Rightarrow> 's RedisCache \<Rightarrow> ('s, wg_Mgr option) go" where
  "enable_tunnels P X c kp localStore =
     (if is4To6Enabled c then
        bindM (ClearByType (pf_Store P) localStore [Gateway4To6Reservation (ext_enums X)]) (\<lambda>_.
        bindM (wg_New (ext_wg X) kp (NewIPPool kp) (cli_endpoint c) (cli_wg_iface c)) (\<lambda>m.
        returnM (Some m)))
      else returnM None)"

text \<open>The deferred \<open>Close\<close> of the wireguard manager.\<close>

definition close_tunnels :: "'s externals \<Rightarrow> wg_Mgr option \<Rightarrow> ('s, unit) go" where
  "close_tunnels X wg = (case wg of None \<Rightarrow> returnM () | Some m \<Rightarrow> ignoreM (wg_Close (ext_wg X) m))"

definition statser_for :: "('s, 'r, 'c) platform \<Rightarrow> 's externals \<Rightarrow> 'c statser" where
  "statser_for P X = \<lparr>ss_Increment = Counters_Increment (pf_Counter P) (ext_enums X),
     ss_Decrement = Counters_Decrement (pf_Counter P) (ext_enums X),
     ss_CheckMemoryRequirements = CheckMemoryRequirements, ss_CurrentWorkloads = CurrentWorkloads (pf_Counter P)\<rparr>"

definition engine_for ::
    "('s, 'r, 'c) platform \<Rightarrow> 's externals \<Rightarrow> KeyPair \<Rightarrow> 's RedisCache \<Rightarrow> ('s, 'r) explorer \<Rightarrow> ('s, 'r) Provisioner \<Rightarrow>
     ('s, 'r, 'c) engine_ops" where
  "engine_for P X kp localStore e provisioner = \<lparr>
     eo_NodeID = kp_Identity kp, eo_Cache = localStore,
     eo_Source = \<lparr>es_Poller = (e, WorkloadToProvisionType (ext_enums X), ProvisionOrder (ext_enums X)),
       es_KeyPair = kp, es_Expired = localStore\<rparr>,
     eo_Provisioners = Provisioners provisioner, eo_Decomissioners = Decommissioners provisioner,
     eo_Feedback = NewFeedback e (ResultToSchemaType (ext_enums X)),
     eo_Signer = \<lparr>gwi_kp = kp\<rparr>, eo_Statser = statser_for P X\<rparr>"

text \<open>\<open>run\<close> up to the creation of the wireguard manager; the rest needs the values it returns.\<close>

record ('s, 'r) started =
  st_pool :: "'s redis"
  st_kp :: KeyPair
  st_store :: "'s RedisCache"
  st_client :: "('s, 'r) explorer"
  st_dns :: "'s dns_Mgr"
  st_wg :: "wg_Mgr option"

definition run_start :: "('s, 'r, 'c) platform \<Rightarrow> 's externals \<Rightarrow> cli \<Rightarrow> ('s \<times> 'c Counters, ('s, 'r) started) go" where
  "run_start P X c =
     bindM (wrapM (\<lambda>e. wrap_err e ''failed to connect to redis configuration server'') (liftM (NewPool (cli_redis c)))) (\<lambda>cfg.
     let pool = pf_Open P cfg in
     bindM (on_cache (ensureID P (cli_seed c))) (\<lambda>kp.
     bindM (on_statser (\<lambda>_. pf_Counters P)) (\<lambda>_.
     let localStore = NewRedis pool in
     bindM (wrapM (\<lambda>e. wrap_err e ''failed to sync statser with reservation from cache'')
       (Sync (pf_Store P) (Counters_Increment (pf_Counter P) (ext_enums X)) localStore)) (\<lambda>_.
     bindM (wrapM (\<lambda>e. wrap_err e ''failed to instantiate explorer client'')
       (on_cache (pf_NewClient P (cli_explorer c) \<lparr>gwi_kp = kp\<rparr>))) (\<lambda>e.
     bindM (wrapM (\<lambda>e. wrap_err e ''failed to fetch location'') (on_cache (pf_Geoip P))) (\<lambda>loc.
     if \<not> validDomains X (cli_domains c) then raiseM (NewErr (''invalid domains: '' @ fmt_list (cli_domains c)))
     else if \<not> validDomains X (cli_nameservers c) then
       raiseM (NewErr (''invalid nameservers: '' @ fmt_list (cli_nameservers c)))
     else
       let dnsMgr = dns_New pool (kp_Identity kp) in
       bindM (wrapM (\<lambda>e. wrap_err e ''failed to clean up coredns config'') (on_cache (Cleanup dnsMgr))) (\<lambda>_.
       bindM (on_cache (manage_domains X dnsMgr kp (cli_domains c))) (\<lambda>_.
       let gw = gateway_record P c kp loc in
       bindM (on_cache (register P gw e)) (\<lambda>_.
       bindM (on_cache (enable_tunnels P X c kp localStore)) (\<lambda>wgMgr.
       returnM \<lparr>st_pool = pool, st_kp = kp, st_store = localStore, st_client = e, st_dns = dnsMgr,
         st_wg = wgMgr\<rparr>))))))))))"

definition run_gateway_main :: "('s, 'r, 'c) platform \<Rightarrow> 's externals \<Rightarrow> cli \<Rightarrow> ('s \<times> 'c Counters, unit) go" where
  "run_gateway_main P X c =
     bindM (run_start P X c) (\<lambda>st.
     deferM (on_cache (close_tunnels X (st_wg st)))
       (let provisioner = NewProvisioner X (proxy_New (st_pool st)) (st_dns st) (st_wg st) (st_kp st) (st_client st);
            ops = engine_for P X (st_kp st) (st_store st) (st_client st) provisioner
        in case pf_NewEngine P ops of
             Some e \<Rightarrow> raiseM (wrap_err e ''failed to provision the engine'')
           | None \<Rightarrow>
               bindM (on_cache (uptime_Start P (kp_Identity (st_kp st)) (st_client st))) (\<lambda>_.
               ignoreM (pf_RunEngine P ops))))"

end
