(* ===== verification/GatewayStart.thy ===== *)
theory GatewayStart
  imports GatewayMain GatewayIsolation DnsCleanup
begin

text \<open>
  What the start of the gateway does to redis. The locale \<open>gateway_host\<close> is what it relies on: a server
  that answers, and calls to the rest of the platform that leave redis alone.
\<close>

section \<open>Calls that leave redis alone\<close>

definition quiet :: "('s \<Rightarrow> keyspace) \<Rightarrow> ('s, 'a) go \<Rightarrow> bool" where
  "quiet view m \<longleftrightarrow> (\<forall>s r s'. m s = (r, s') \<longrightarrow> view s' = view s)"

lemma quietD: "quiet view m \<Longrightarrow> m s = (r, s') \<Longrightarrow> view s' = view s"
  by (auto simp: quiet_def)

lemma outside_quiet: "outside view m \<Longrightarrow> quiet view m"
  by (auto simp: outside_def quiet_def)

lemma quiet_basic: "quiet view (returnM x)" "quiet view (raiseM e)" "quiet view (liftM r)"
  by (simp_all add: quiet_def returnM_def raiseM_def liftM_def)

lemma quiet_handle: "quiet view m \<Longrightarrow> (\<And>r. quiet view (f r)) \<Longrightarrow> quiet view (handleM m f)"
  unfolding quiet_def handleM_def by (fastforce split: prod.splits)

lemma quiet_bind: "quiet view m \<Longrightarrow> (\<And>x. quiet view (f x)) \<Longrightarrow> quiet view (bindM m f)"
  unfolding quiet_def bindM_def by (fastforce split: prod.splits sum.splits)

lemma quiet_wrap: "quiet view m \<Longrightarrow> quiet view (wrapM g m)"
  unfolding wrapM_def by (intro quiet_handle) (simp_all add: quiet_basic split: sum.split)

lemma quiet_defer: "quiet view m \<Longrightarrow> quiet view clean \<Longrightarrow> quiet view (deferM clean m)"
  unfolding quiet_def deferM_def by (simp split: prod.splits) (metis prod.collapse)

lemma quiet_ignore: "quiet view m \<Longrightarrow> quiet view (ignoreM m)"
  unfolding ignoreM_def by (intro quiet_handle) (simp_all add: quiet_basic)

lemma quiet_if: "quiet view a \<Longrightarrow> quiet view b \<Longrightarrow> quiet view (if c then a else b)"
  by simp

lemma quiet_sum: "(\<And>e. quiet view (f e)) \<Longrightarrow> (\<And>x. quiet view (g x)) \<Longrightarrow> quiet view (case r of Inl e \<Rightarrow> f e | Inr x \<Rightarrow> g x)"
  by (simp split: sum.split)

lemmas quiet_rules = quiet_if quiet_sum quiet_basic quiet_bind quiet_wrap quiet_defer quiet_ignore

text \<open>\<open>backoff.Retry\<close> as its documentation has it: the call is made until it succeeds, for a number of times
  that depends on the clock.\<close>

fun retry :: "nat \<Rightarrow> ('s, unit) go \<Rightarrow> ('s, unit) go" where
  "retry 0 m = m"
| "retry (Suc n) m = handleM m (\<lambda>r. case r of
     Inl e \<Rightarrow> if is_panic e then raiseM e else retry n m
   | Inr u \<Rightarrow> returnM ())"

definition retries :: "(('s, unit) go \<Rightarrow> ('s, unit) go) \<Rightarrow> bool" where
  "retries R \<longleftrightarrow> (\<forall>m s. \<exists>n. R m s = retry n m s)"

lemma quiet_retry: "quiet view m \<Longrightarrow> quiet view (retry n m)"
  by (induction n) (auto intro!: quiet_handle quiet_basic split: sum.split)

lemma quiet_retries: "retries R \<Longrightarrow> quiet view m \<Longrightarrow> quiet view (R m)"
  unfolding retries_def quiet_def using quiet_retry [unfolded quiet_def] by metis

lemma wp_quiet:
  assumes "quiet view m" and "\<And>r s'. m (fst st) = (r, s') \<Longrightarrow> view s' = view (fst st) \<Longrightarrow> Q r (s', snd st)"
  shows "wpM (on_cache m) Q st"
  using assms by (auto simp: wpM_def on_cache_def quiet_def split: prod.splits)

lemma wpM_conj: "wpM m Q s \<Longrightarrow> wpM m R s \<Longrightarrow> wpM m (\<lambda>r s'. Q r s' \<and> R r s') s"
  by (simp add: wpM_def split: prod.splits)

lemma bindM_Inr: "bindM m f s = (Inr y, s') \<longleftrightarrow> (\<exists>x s1. m s = (Inr x, s1) \<and> f x s1 = (Inr y, s'))"
  by (auto simp: bindM_def split: prod.splits sum.splits)

lemma wrapM_Inr: "wrapM g m s = (Inr x, s') \<longleftrightarrow> m s = (Inr x, s')"
  by (auto simp: wrapM_def handleM_def raiseM_def returnM_def split: prod.splits sum.splits)

section \<open>The platform\<close>

locale gateway_host = redis_reliable rd view
  for rd :: "'s redis" and view :: "'s \<Rightarrow> keyspace" +
  fixes P :: "('s, 'r, 'c) platform" and X :: "'s externals"
  assumes open_pool: "pf_Open P cfg = rd"
    and load_outside: "outside view (pf_LoadKeyPair P f)"
    and generate_outside: "outside view (pf_GenerateKeyPair P)"
    and save_outside: "outside view (pf_Save P kp f)"
    and client_outside: "outside view (pf_NewClient P u n)"
    and register_outside: "pf_NewClient P u n s = (Inr e, s') \<Longrightarrow> outside view (GatewayRegister e g)"
    and geoip_outside: "outside view (pf_Geoip P)"
    and wg_outside: "outside view (api_NewLink (ext_wg X) i)" "outside view (api_Sysctl (ext_wg X) k v)"
      "outside view (api_LinkByName (ext_wg X) i)" "outside view (api_LinkSetUp (ext_wg X) l)"
      "outside view (api_SetAddr (ext_wg X) l a)" "outside view (api_Ctl (ext_wg X))"
      "outside view (api_CtlClose (ext_wg X) cl)" "outside view (api_Configure (ext_wg X) cl i conf)"
    and loaded_identity: "pf_LoadKeyPair P f s = (Inr kp, s') \<Longrightarrow> valid_utf8 (kp_Identity kp) \<and> kp_Identity kp \<noteq> []"
    and new_identity: "pf_GenerateKeyPair P s = (Inr kp, s') \<Longrightarrow> valid_utf8 (kp_Identity kp) \<and> kp_Identity kp \<noteq> []"
    and retrying: "retries (pf_Retry P b)"
    and names_no_slash: "ext_isDNSName X d \<Longrightarrow> CHR ''/'' \<notin> set d"
begin

lemma quiet_ensureID: "quiet view (ensureID P f)"
  unfolding ensureID_def
  by (intro quiet_handle quiet_rules outside_quiet load_outside generate_outside save_outside)

lemma quiet_wg_New: "quiet view (wg_New (ext_wg X) kp pool ep i)"
  unfolding wg_New_def setupWGNamespace_def Let_def case_prod_beta
  by (intro quiet_rules outside_quiet wg_outside)

lemma ensureID_identity:
  assumes "ensureID P f s = (Inr kp, s')"
  shows "valid_utf8 (kp_Identity kp) \<and> kp_Identity kp \<noteq> []"
proof (cases "pf_LoadKeyPair P f s")
  case (Pair r s1)
  show ?thesis
  proof (cases r)
    case (Inr k)
    with Pair assms loaded_identity [of f s] show ?thesis by (simp add: ensureID_def handleM_def returnM_def)
  next
    case (Inl e)
    have "IsNotExist e" using Pair assms Inl by (simp add: ensureID_def handleM_def raiseM_def split: if_splits)
    with Pair assms Inl obtain s2 where "pf_GenerateKeyPair P s1 = (Inr kp, s2)"
      unfolding ensureID_def handleM_def by (auto simp only: prod.case sum.case bindM_Inr wrapM_Inr returnM_def prod.inject sum.inject not_True_eq_False if_False)
    with new_identity [of s1] show ?thesis by blast
  qed
qed

text \<open>A key of redis outside the zones stands through the clean-up and the delegations.\<close>

lemma wp_dns_frame:
  assumes "dns_redis m = rd" and "dns_free k" and "\<not> zone_key k"
  shows "wpM (run_dns (ext_isDNSName X) m op1) (\<lambda>r s'. view s' k = view s k) s"
proof -
  have "safe_call view (\<lambda>v. v k = view s k) (run_dns (ext_isDNSName X) m op1)"
    using dns_keeps_key [OF assms(1,2) names_no_slash, where R = "\<lambda>y. y = view s k"] assms(3) by simp
  from safe_callD [OF this refl] show ?thesis by (blast intro: wpM_I)
qed

definition managed :: "string \<Rightarrow> string list \<Rightarrow> keyspace \<Rightarrow> keyspace \<Rightarrow> bool" where
  "managed i ds v v' \<longleftrightarrow> wf_dns v' \<and> v' reservationsKey = v reservationsKey \<and> holder_of v' = holder_of v \<and>
     (\<forall>z. owner_of v z \<noteq> [] \<or> z \<notin> set ds \<longrightarrow> owner_of v' z = owner_of v z) \<and>
     (\<forall>z n. n \<noteq> ''__owner__'' \<longrightarrow> rrs (abs_dns v') z n = rrs (abs_dns v) z n)"

definition claimed :: "string \<Rightarrow> string list \<Rightarrow> keyspace \<Rightarrow> go_error + unit \<Rightarrow> keyspace \<Rightarrow> bool" where
  "claimed i ds v x v' \<longleftrightarrow> managed i ds v v' \<and> (x = Inr () \<longrightarrow> (\<forall>d \<in> set ds. owner_of v' d = i)) \<and>
     ((\<forall>d \<in> set ds. owner_of v d \<in> {[], i} \<and> validateDomain (ext_isDNSName X) d = None) \<longrightarrow> x = Inr ())"

lemma claimed_error: "claimed i [d] v (Inl e) v' \<Longrightarrow> claimed i (d # ds) v (Inl e') v'"
  by (auto simp: claimed_def managed_def)

lemma claimed_Cons:
  assumes one: "claimed i [d] v (Inr ()) v1" and more: "claimed i ds v1 x v2" and i: "i \<noteq> []"
  shows "claimed i (d # ds) v x v2"
proof -
  have d: "owner_of v1 d = i" using one by (simp add: claimed_def)
  have m: "managed i [d] v v1" "managed i ds v1 v2" using one more by (simp_all add: claimed_def)
  have "owner_of v2 d = i" using m(2) d i by (simp add: managed_def)
  moreover have "owner_of v1 z \<in> {owner_of v z, i}" for z
    using m(1) d by (cases "z = d") (auto simp: managed_def)
  moreover have "managed i (d # ds) v v2"
    unfolding managed_def
  proof (intro conjI allI impI)
    fix z assume z: "owner_of v z \<noteq> [] \<or> z \<notin> set (d # ds)"
    then have "owner_of v1 z = owner_of v z" using m(1) by (auto simp: managed_def)
    with z m(2) show "owner_of v2 z = owner_of v z" by (auto simp: managed_def)
  qed (use m in \<open>simp_all add: managed_def\<close>)
  ultimately show ?thesis using more unfolding claimed_def by (auto; metis)
qed

lemma up_delegate:
  assumes "dns_redis m = rd" and "wf_dns (view s)" and i: "valid_utf8 i" "i \<noteq> []"
  shows "wpM (AddDomainDelagate (ext_isDNSName X) m i i d) (\<lambda>x s'. claimed i [d] (view s) x (view s')) s"
proof -
  have frame: "wpM (AddDomainDelagate (ext_isDNSName X) m i i d) (\<lambda>r s'. view s' reservationsKey = view s reservationsKey) s"
    using wp_dns_frame [OF assms(1) dns_free_keys(2), of "OpAddDelegate i i d"]
    by (simp add: zone_key_def reservationsKey_def)
  show ?thesis
  proof (rule wpM_mono [OF wpM_conj [OF AddDomainDelagate_implements [OF assms(1,2) i(1)] frame]], elim conjE)
    fix x s' assume impl: "implements view (spec_checked (ext_isDNSName X) d (spec_delegate i i d)) s x s'"
      and key: "view s' reservationsKey = view s reservationsKey"
    let ?a = "abs_dns (view s)" and ?a' = "abs_dns (view s')"
    have a: "owners ?a = owner_of (view s)" "holders ?a = holder_of (view s)"
      "owners ?a' = owner_of (view s')" "holders ?a' = holder_of (view s')" by (simp_all add: abs_dns_simps)
    show "claimed i [d] (view s) x (view s')"
    proof (cases "validateDomain (ext_isDNSName X) d = None \<and> owner_of (view s) d \<in> {[], i}")
      case False
      then have "outcome x \<noteq> Done" "?a' = ?a"
        using impl by (auto simp: implements_def spec_checked_def spec_delegate_def a(1) split: if_splits)
      then have "x \<noteq> Inr ()" "owner_of (view s') = owner_of (view s)" "holder_of (view s') = holder_of (view s)"
        using a by (simp_all add: outcome_Done)
      with False impl key \<open>?a' = ?a\<close> show ?thesis by (auto simp: claimed_def managed_def implements_def)
    next
      case True
      then have x: "outcome x = Done" "?a' = set_rrs d ''__owner__'' (\<lambda>t. of_type t [owner_record i i]) (set_owner d i ?a)"
        using impl by (auto simp: implements_def spec_checked_def spec_delegate_def a(1))
      then have "owner_of (view s') = (owner_of (view s))(d := i)" "holder_of (view s') = holder_of (view s)"
        using a by (simp_all add: set_rrs_def set_owner_def)
      with x True impl key i(2) show ?thesis
        by (auto simp: claimed_def managed_def implements_def set_rrs_def set_owner_def outcome_Done)
    qed
  qed
qed

lemma up_manage:
  assumes m: "dns_redis m = rd" and i: "valid_utf8 (kp_Identity kp)" "kp_Identity kp \<noteq> []"
  shows "wf_dns (view s) \<Longrightarrow>
    wpM (manage_domains X m kp ds) (\<lambda>x s'. claimed (kp_Identity kp) ds (view s) x (view s')) s"
  unfolding manage_domains_def
proof (induction ds arbitrary: s)
  case Nil
  then show ?case by (simp add: claimed_def managed_def)
next
  case (Cons d ds)
  let ?i = "kp_Identity kp"
  have one: "wpM (wrapM g (AddDomainDelagate (ext_isDNSName X) m ?i ?i d)) (\<lambda>x s1.
      case x of Inl e \<Rightarrow> claimed ?i (d # ds) (view s) (Inl e) (view s1) | Inr u \<Rightarrow> claimed ?i [d] (view s) (Inr ()) (view s1)) s" for g
    unfolding wpM_wrapM
    by (rule wpM_mono [OF up_delegate [OF m Cons.prems i]]) (auto intro: claimed_error split: sum.splits)
  show ?case
    unfolding forM.simps wpM_bindM
  proof (rule wpM_mono [OF one], split sum.split, intro conjI allI impI, goal_cases)
    case (2 x s1 u)
    then have c: "claimed ?i [d] (view s) (Inr ()) (view s1)" by simp
    then have "wf_dns (view s1)" by (simp add: claimed_def managed_def)
    then show ?case by (rule wpM_mono [OF Cons.IH]) (rule claimed_Cons [OF c _ i(2)])
  qed simp
qed

text \<open>The rest of the start: the cache, and the whole up to the wireguard manager.\<close>

lemma cached_frame:
  assumes "v' reservationsKey = v reservationsKey"
  shows "cached sc v' = cached sc v" "wf_cache sc v' = wf_cache sc v"
proof -
  have "hfield v' reservationsKey = hfield v reservationsKey" "hash_key v' reservationsKey = hash_key v reservationsKey"
    using assms by (simp_all add: hfield_def hash_key_def)
  then show "cached sc v' = cached sc v" "wf_cache sc v' = wf_cache sc v"
    by (simp_all add: cached_def wf_cache_def fun_eq_iff)
qed

text \<open>Clearing the cache is invisible to the DNS manager.\<close>

lemma wp_clear_frame:
  assumes c: "cache_pool c = rd" and keep: "\<And>v i. I v \<Longrightarrow> I (ks_hdel v reservationsKey i)"
  shows "I (view s) \<Longrightarrow> wpM (ClearByType sc c types) (\<lambda>x s'. I (view s')) s"
proof -
  have get: "wpM (cache_get sc c i) (\<lambda>x s'. I (view s')) s" if "I (view s)" for i s
    unfolding cache_get_def c using that by (auto simp: wp intro!: wp_HGET split: sum.split)
  have del: "wpM (Cache_Remove c i) (\<lambda>x s'. I (view s')) s" if "I (view s)" for i s
    unfolding Cache_Remove_def c using that keep by (auto intro!: wp_HDEL)
  have one: "wpM (clear_id sc c types i) (\<lambda>x s'. I (view s')) s" if "I (view s)" for i s
    unfolding clear_id_def wpM_bindM
    using get [OF that, of i]
    by (rule wpM_mono) (auto split: sum.split intro!: wpM_forM [where I = "\<lambda>s. I (view s)"] simp: wp del)
  show "I (view s) \<Longrightarrow> wpM (ClearByType sc c types) (\<lambda>x s'. I (view s')) s"
    unfolding ClearByType_def c wpM_bindM
    by (intro wp_HKEYS) (auto intro!: wpM_forM [where I = "\<lambda>s. I (view s)"] one)
qed

lemma abs_dns_frame: "abs_dns (ks_hdel v reservationsKey i) = abs_dns v"
proof -
  have "''zone'' \<noteq> reservationsKey" "''managed_domains'' \<noteq> reservationsKey" "z @ ''.'' \<noteq> reservationsKey" for z
    by (auto simp: reservationsKey_def dest: arg_cong [of _ _ last])
  then show ?thesis by (simp add: abs_dns_def owner_of_def holder_of_def stored_zone_def fun_eq_iff)
qed

definition without_tunnels :: "(string \<rightharpoonup> reservation) \<Rightarrow> string \<rightharpoonup> reservation" where
  "without_tunnels m = (\<lambda>i. case m i of None \<Rightarrow> None
     | Some r \<Rightarrow> if Type r = Gateway4To6Reservation (ext_enums X) then None else Some r)"

lemma without_tunnels_Some:
  "without_tunnels m i = Some r \<longleftrightarrow> m i = Some r \<and> Type r \<noteq> Gateway4To6Reservation (ext_enums X)"
  by (auto simp: without_tunnels_def split: option.splits)

lemma up_enable_tunnels:
  assumes c: "cache_pool store = rd" and wf: "wf_cache sc (view s)" and sc: "sc = pf_Store P"
    and dns: "wf_dns (view s)"
  shows "wpM (enable_tunnels P X c kp store) (\<lambda>x s'. abs_dns (view s') = abs_dns (view s) \<and> wf_dns (view s') \<and>
    wf_cache sc (view s') \<and>
    cached sc (view s') = (if is4To6Enabled c then without_tunnels (cached sc (view s)) else cached sc (view s)) \<and>
    (case x of Inr wg \<Rightarrow> (wg \<noteq> None) = is4To6Enabled c | Inl e \<Rightarrow> is4To6Enabled c)) s"
proof (cases "is4To6Enabled c")
  case True
  let ?types = "[Gateway4To6Reservation (ext_enums X)]"
  have frame: "wpM (ClearByType sc store ?types) (\<lambda>x s'. abs_dns (view s') = abs_dns (view s) \<and> wf_dns (view s')) s"
    by (rule wp_clear_frame [OF c, where I = "\<lambda>v. abs_dns v = abs_dns (view s) \<and> wf_dns v"])
      (simp_all add: abs_dns_frame wf_dns_del_field dns)
  have same: "(\<lambda>i. case m i of None \<Rightarrow> None | Some r \<Rightarrow> if Type r \<in> set ?types then None else Some r) = without_tunnels m" for m
    by (auto simp: without_tunnels_def fun_eq_iff split: option.split)
  show ?thesis
    unfolding enable_tunnels_def if_P [OF True] wpM_bindM sc [symmetric]
    by (rule wpM_mono [OF wpM_conj [OF up_ClearByType [OF c wf, of ?types, unfolded same] frame]])
      (auto simp: True dest: quietD [OF quiet_wg_New] intro!: wpM_I split: sum.split)
next
  case False
  then show ?thesis using wf dns by (simp add: enable_tunnels_def)
qed

definition from_client :: "('s, 'r) explorer \<Rightarrow> bool" where
  "from_client e \<longleftrightarrow> (\<exists>u n s s'. pf_NewClient P u n s = (Inr e, s'))"

definition start_spec :: "cli \<Rightarrow> keyspace \<Rightarrow> (go_error + ('s, 'r) started) \<Rightarrow> keyspace \<Rightarrow> bool" where
  "start_spec c v x v' \<longleftrightarrow> wf_dns v' \<and> wf_cache (pf_Store P) v' \<and> holder_of v' = holder_of v \<and>
     (\<forall>z. owner_of v z \<noteq> [] \<or> z \<notin> set (cli_domains c) \<longrightarrow> owner_of v' z = owner_of v z) \<and>
     (\<forall>z n. n \<noteq> ''__owner__'' \<longrightarrow> rrs (abs_dns v') z n = rrs (abs_dns v) z n) \<and>
     (case x of
        Inl e \<Rightarrow> cached (pf_Store P) v' = cached (pf_Store P) v \<or>
          is4To6Enabled c \<and> cached (pf_Store P) v' = without_tunnels (cached (pf_Store P) v)
      | Inr st \<Rightarrow>
          cached (pf_Store P) v' =
            (if is4To6Enabled c then without_tunnels (cached (pf_Store P) v) else cached (pf_Store P) v) \<and>
          (\<forall>d \<in> set (cli_domains c). owner_of v' d = kp_Identity (st_kp st)) \<and>
          (st_wg st \<noteq> None) = is4To6Enabled c \<and> st_pool st = rd \<and> st_store st = NewRedis rd \<and>
          st_dns st = dns_New rd (kp_Identity (st_kp st)) \<and> kp_Identity (st_kp st) \<noteq> [] \<and> from_client (st_client st))"

lemma start_spec_error:
  "wf_dns v \<Longrightarrow> wf_cache (pf_Store P) v \<Longrightarrow> start_spec c v (Inl e) v"
  by (simp add: start_spec_def)

lemma start_quiet:
  assumes "wf_dns v" "wf_cache (pf_Store P) v" and m: "quiet view m" and st: "view (fst st) = v"
    and more: "\<And>x s'. m (fst st) = (Inr x, s') \<Longrightarrow> view s' = v \<Longrightarrow>
      wpM (f x) (\<lambda>x st'. start_spec c v x (view (fst st'))) (s', snd st)"
  shows "wpM (bindM (on_cache m) f) (\<lambda>x st'. start_spec c v x (view (fst st'))) st"
    and "wpM (bindM (wrapM g (on_cache m)) f) (\<lambda>x st'. start_spec c v x (view (fst st'))) st"
proof -
  note err = start_spec_error [OF assms(1,2)]
  have "wpM (on_cache m) (\<lambda>r st'. case r of Inl e \<Rightarrow> view (fst st') = v | Inr x \<Rightarrow>
      wpM (f x) (\<lambda>x st'. start_spec c v x (view (fst st'))) st') st"
    by (rule wp_quiet [OF m]) (auto simp: st more split: sum.split)
  then show "wpM (bindM (on_cache m) f) (\<lambda>x st'. start_spec c v x (view (fst st'))) st"
    and "wpM (bindM (wrapM g (on_cache m)) f) (\<lambda>x st'. start_spec c v x (view (fst st'))) st"
    unfolding wpM_bindM wpM_wrapM using err by (auto elim!: wpM_mono split: sum.splits)
qed

text \<open>The part of the start that writes to redis.\<close>

definition start_claims ::
    "cli \<Rightarrow> 's redis \<Rightarrow> KeyPair \<Rightarrow> ('s, 'r) explorer \<Rightarrow> geo_location \<Rightarrow> ('s \<times> 'c Counters, ('s, 'r) started) go" where
  "start_claims c pool kp e loc =
     (let dnsMgr = dns_New pool (kp_Identity kp) in
      bindM (wrapM (\<lambda>e. wrap_err e ''failed to clean up coredns config'') (on_cache (Cleanup dnsMgr))) (\<lambda>_.
      bindM (on_cache (manage_domains X dnsMgr kp (cli_domains c))) (\<lambda>_.
      let gw = gateway_record P c kp loc in
      bindM (on_cache (register P gw e)) (\<lambda>_.
      bindM (on_cache (enable_tunnels P X c kp (NewRedis pool))) (\<lambda>wgMgr.
      returnM \<lparr>st_pool = pool, st_kp = kp, st_store = NewRedis pool, st_client = e, st_dns = dnsMgr,
        st_wg = wgMgr\<rparr>)))))"

lemma abs_dns_owner: "abs_dns v' = abs_dns v \<Longrightarrow> owner_of v' = owner_of v \<and> holder_of v' = holder_of v"
  by (metis abs_dns_simps(1,2))

lemma claimed_cong:
  "abs_dns v1 = abs_dns v \<Longrightarrow> v1 reservationsKey = v reservationsKey \<Longrightarrow> claimed i ds v1 x v' = claimed i ds v x v'"
  using abs_dns_owner [of v1 v] by (simp add: claimed_def managed_def)

lemma start_spec_claimed:
  assumes "claimed i (cli_domains c) v x v'" "wf_cache (pf_Store P) v"
  shows "start_spec c v (Inl e) v'"
proof -
  have key: "v' reservationsKey = v reservationsKey" and "wf_dns v'" using assms(1) by (simp_all add: claimed_def managed_def)
  with cached_frame [of v' v "pf_Store P", OF key] assms show ?thesis
    by (simp add: start_spec_def claimed_def managed_def)
qed

lemma start_spec_enabled:
  assumes one: "claimed (kp_Identity kp) (cli_domains c) v (Inr ()) v1" "wf_cache (pf_Store P) v"
    and two: "abs_dns v2 = abs_dns v1" "wf_dns v2" "wf_cache (pf_Store P) v2"
      "cached (pf_Store P) v2 = (if is4To6Enabled c then without_tunnels (cached (pf_Store P) v1) else cached (pf_Store P) v1)"
  shows "start_spec c v (Inl e) v2"
    and "(st_wg st \<noteq> None) = is4To6Enabled c \<Longrightarrow> st_kp st = kp \<Longrightarrow> st_pool st = rd \<Longrightarrow>
      st_store st = NewRedis rd \<Longrightarrow> st_dns st = dns_New rd (kp_Identity kp) \<Longrightarrow> kp_Identity kp \<noteq> [] \<Longrightarrow>
      from_client (st_client st) \<Longrightarrow> start_spec c v (Inr st) v2"
proof -
  have key: "v1 reservationsKey = v reservationsKey" using one(1) by (simp add: claimed_def managed_def)
  show "start_spec c v (Inl e) v2"
    and "(st_wg st \<noteq> None) = is4To6Enabled c \<Longrightarrow> st_kp st = kp \<Longrightarrow> st_pool st = rd \<Longrightarrow>
      st_store st = NewRedis rd \<Longrightarrow> st_dns st = dns_New rd (kp_Identity kp) \<Longrightarrow> kp_Identity kp \<noteq> [] \<Longrightarrow>
      from_client (st_client st) \<Longrightarrow> start_spec c v (Inr st) v2"
    using cached_frame [of v1 v "pf_Store P", OF key] one two abs_dns_owner [OF two(1)]
    by (auto simp: start_spec_def claimed_def managed_def)
qed

lemma up_clean_frame:
  assumes m: "dns_redis m = rd" and wf: "wf_dns (view s)"
  shows "wpM (Cleanup m) (\<lambda>x s'. x = Inr () \<and> wf_dns (view s') \<and> abs_dns (view s') = abs_dns (view s) \<and>
    view s' reservationsKey = view s reservationsKey) s"
proof -
  have "wpM (Cleanup m) (\<lambda>r s'. view s' reservationsKey = view s reservationsKey) s"
    using wp_dns_frame [OF m dns_free_keys(2), of OpCleanup s] by (simp add: zone_key_def reservationsKey_def)
  from wpM_conj [OF up_Cleanup [OF m] this] show ?thesis
    by (auto elim!: wpM_mono intro: zones_swept_wf zones_swept_abs wf)
qed

lemma up_start_claims:
  assumes v: "wf_dns (view (fst st))" "wf_cache (pf_Store P) (view (fst st))"
    and kp: "valid_utf8 (kp_Identity kp)" "kp_Identity kp \<noteq> []" and client: "from_client e"
  shows "wpM (start_claims c rd kp e loc) (\<lambda>x st'. start_spec c (view (fst st)) x (view (fst st'))) st"
proof -
  let ?v = "view (fst st)" and ?m = "dns_New rd (kp_Identity kp)" and ?sc = "pf_Store P" and ?ds = "cli_domains c"
  let ?Q = "\<lambda>x st'. start_spec c ?v x (view (fst st'))"
  have m: "dns_redis ?m = rd" "cache_pool (NewRedis rd) = rd" by (simp_all add: dns_New_def NewRedis_def)
  note clean = up_clean_frame [OF m(1) v(1)]
  have e: "\<And>g. outside view (GatewayRegister e g)" using client register_outside by (auto simp: from_client_def)
  have manage: "wpM (manage_domains X ?m kp ?ds) (\<lambda>x s'. claimed (kp_Identity kp) ?ds (view s1) x (view s')) s1"
    if "wf_dns (view s1)" for s1 by (rule up_manage [OF m(1) kp that])
  have last: "wpM (bindM (on_cache (enable_tunnels P X c kp (NewRedis rd))) (\<lambda>wgMgr. returnM \<lparr>st_pool = rd, st_kp = kp,
      st_store = NewRedis rd, st_client = e, st_dns = ?m, st_wg = wgMgr\<rparr>)) ?Q st3"
    if cl: "claimed (kp_Identity kp) ?ds ?v (Inr ()) (view (fst st3))" for st3
  proof -
    have wf: "wf_dns (view (fst st3))" "wf_cache ?sc (view (fst st3))"
      using cl cached_frame(2) [of "view (fst st3)" ?v ?sc] v(2) by (simp_all add: claimed_def managed_def)
    note enabled = start_spec_enabled [OF cl v(2)]
    show ?thesis
      unfolding wpM_bindM
      by (rule up_on_cache, rule wpM_mono [OF up_enable_tunnels [OF m(2) wf(2) refl wf(1), of c kp]])
        (auto intro: enabled simp: kp client split: sum.split)
  qed
  have reg: "quiet view (register P g e)" for g
    unfolding register_def registerID_def by (rule quiet_wrap [OF quiet_retries [OF retrying outside_quiet [OF e]]])
  have rest: "wpM (bindM (on_cache (register P g e)) (\<lambda>_.
      bindM (on_cache (enable_tunnels P X c kp (NewRedis rd))) (\<lambda>wgMgr. returnM \<lparr>st_pool = rd, st_kp = kp,
      st_store = NewRedis rd, st_client = e, st_dns = ?m, st_wg = wgMgr\<rparr>))) ?Q st2"
    if "claimed (kp_Identity kp) ?ds ?v (Inr ()) (view (fst st2))" for g st2
    unfolding wpM_bindM [where m = "on_cache (register P g e)"]
    by (rule wp_quiet [OF reg]) (use that in \<open>auto intro!: last start_spec_claimed [OF _ v(2)] split: sum.split\<close>)
  show ?thesis
    unfolding start_claims_def Let_def wpM_bindM [where m = "wrapM f (on_cache (Cleanup ?m))" for f]
      wpM_bindM [where m = "on_cache (manage_domains X ?m kp ?ds)"] wpM_wrapM
  proof (rule up_on_cache, rule wpM_mono [OF clean], elim conjE, simp only: sum.case, rule up_on_cache, goal_cases)
    case (1 x s1)
    then have cong: "claimed (kp_Identity kp) ?ds (view s1) y w = claimed (kp_Identity kp) ?ds ?v y w" for y w
      by (intro claimed_cong)
    show ?case
      by (simp, rule wpM_mono [OF manage [OF 1(2)]])
        (auto simp: cong intro!: rest start_spec_claimed [OF _ v(2)] split: sum.split)
  qed
qed

lemma run_start_claims:
  "run_start P X c =
     bindM (wrapM (\<lambda>e. wrap_err e ''failed to connect to redis configuration server'') (liftM (NewPool (cli_redis c)))) (\<lambda>cfg.
     bindM (on_cache (ensureID P (cli_seed c))) (\<lambda>kp.
     bindM (on_statser (\<lambda>_. pf_Counters P)) (\<lambda>_.
     bindM (wrapM (\<lambda>e. wrap_err e ''failed to sync statser with reservation from cache'')
       (Sync (pf_Store P) (Counters_Increment (pf_Counter P) (ext_enums X)) (NewRedis rd))) (\<lambda>_.
     bindM (wrapM (\<lambda>e. wrap_err e ''failed to instantiate explorer client'')
       (on_cache (pf_NewClient P (cli_explorer c) \<lparr>gwi_kp = kp\<rparr>))) (\<lambda>e.
     bindM (wrapM (\<lambda>e. wrap_err e ''failed to fetch location'') (on_cache (pf_Geoip P))) (\<lambda>loc.
     if \<not> validDomains X (cli_domains c) then raiseM (NewErr (''invalid domains: '' @ fmt_list (cli_domains c)))
     else if \<not> validDomains X (cli_nameservers c) then
       raiseM (NewErr (''invalid nameservers: '' @ fmt_list (cli_nameservers c)))
     else start_claims c rd kp e loc))))))"
  by (simp only: run_start_def start_claims_def open_pool Let_def)

lemma wp_statser_bind:
  "wpM (bindM (on_statser f) k) Q st = wpM (k ()) Q (fst st, f (snd st))"
  by (simp add: wpM_bindM up_on_statser)

lemma up_run_start:
  assumes dns: "wf_dns (view s)" and cache: "wf_cache (pf_Store P) (view s)"
  shows "wpM (run_start P X c) (\<lambda>x st'. start_spec c (view s) x (view (fst st'))) (s, c0)"
proof -
  let ?Q = "\<lambda>x st'. start_spec c (view s) x (view (fst st'))"
  note err = start_spec_error [OF dns cache] and quiet_step = start_quiet [OF dns cache]
  have pool: "cache_pool (NewRedis rd) = rd" by (simp add: NewRedis_def)
  have checks: "wpM (if b1 then raiseM e1 else if b2 then raiseM e2 else start_claims c rd kp e loc) ?Q st"
    if "view (fst st) = view s" "valid_utf8 (kp_Identity kp)" "kp_Identity kp \<noteq> []" "from_client e"
    for b1 b2 e1 e2 kp e loc st
    using up_start_claims [of st kp e c loc] that dns cache err by simp
  have client: "wpM (bindM (wrapM f1 (on_cache (pf_NewClient P u \<lparr>gwi_kp = kp\<rparr>))) (\<lambda>e.
      bindM (wrapM f2 (on_cache (pf_Geoip P))) (\<lambda>loc.
      if b1 then raiseM e1 else if b2 then raiseM e2 else start_claims c rd kp e loc))) ?Q st"
    if "view (fst st) = view s" "valid_utf8 (kp_Identity kp)" "kp_Identity kp \<noteq> []" for f1 f2 u kp b1 b2 e1 e2 st
    by (rule quiet_step(2) [OF outside_quiet [OF client_outside] that(1)],
        rule quiet_step(2) [OF outside_quiet [OF geoip_outside]], simp, rule checks)
      (use that in \<open>auto simp: from_client_def\<close>)
  have sync: "wpM (bindM (wrapM f0 (Sync (pf_Store P) inc (NewRedis rd))) k) ?Q st"
    if "view (fst st) = view s" "\<And>st. view (fst st) = view s \<Longrightarrow> wpM (k ()) ?Q st" for f0 inc k and st :: "'s \<times> 'c Counters"
    unfolding wpM_bindM wpM_wrapM
    by (rule wpM_mono [OF up_Sync [OF pool]]) (use that cache in auto)
  have rest: "wpM (bindM (on_cache (ensureID P (cli_seed c))) (\<lambda>kp.
      bindM (on_statser (\<lambda>_. pf_Counters P)) (\<lambda>_.
      bindM (wrapM f0 (Sync (pf_Store P) (Counters_Increment (pf_Counter P) (ext_enums X)) (NewRedis rd))) (\<lambda>_.
      bindM (wrapM f1 (on_cache (pf_NewClient P (cli_explorer c) \<lparr>gwi_kp = kp\<rparr>))) (\<lambda>e.
      bindM (wrapM f2 (on_cache (pf_Geoip P))) (\<lambda>loc.
      if b1 then raiseM e1 else if b2 then raiseM e2 else start_claims c rd kp e loc)))))) ?Q (s, c0)"
    for f0 f1 f2 b1 b2 e1 e2
    by (rule quiet_step(1) [OF quiet_ensureID], simp, unfold wp_statser_bind, rule sync, simp, rule client)
      (use ensureID_identity in auto)
  show ?thesis
    unfolding run_start_claims wpM_bindM [where m = "wrapM f (liftM r)" for f r]
    using rest err by (simp add: wpM_wrapM split: sum.split)
qed

end

section \<open>A start that succeeds\<close>

locale gateway_host_up = gateway_host rd view P X
  for rd :: "'s redis" and view and P :: "('s, 'r, 'c) platform" and X +
  fixes kp0 :: KeyPair
  assumes load_up: "\<exists>s'. pf_LoadKeyPair P f s = (Inr kp0, s')"
    and client_up: "\<exists>e s'. pf_NewClient P u n s = (Inr e, s')"
    and register_up: "pf_NewClient P u n s = (Inr e, s') \<Longrightarrow> \<exists>s2. GatewayRegister e g s1 = (Inr (), s2)"
    and geoip_up: "\<exists>loc s'. pf_Geoip P s = (Inr loc, s')"
begin

lemma retry_up:
  assumes "\<And>s. \<exists>s'. m s = (Inr (), s')"
  shows "\<exists>s'. retry n m s = (Inr (), s')"
  using assms [of s] by (cases n) (auto simp: handleM_def returnM_def)

lemma ensureID_up: "\<exists>s'. ensureID P f s = (Inr kp0, s')"
  using load_up [of f s] by (auto simp: ensureID_def handleM_def returnM_def)

lemma wp_quiet_up:
  assumes "quiet view m" "\<exists>x s'. m (fst st) = (Inr x, s')"
    and "\<And>x s'. m (fst st) = (Inr x, s') \<Longrightarrow> view s' = view (fst st) \<Longrightarrow> wpM (f x) Q (s', snd st)"
  shows "wpM (bindM (on_cache m) f) Q st" "wpM (bindM (wrapM g (on_cache m)) f) Q st"
proof -
  obtain x s' where "m (fst st) = (Inr x, s')" using assms(2) by blast
  with assms(1,3) show "wpM (bindM (on_cache m) f) Q st" "wpM (bindM (wrapM g (on_cache m)) f) Q st"
    unfolding wpM_bindM wpM_wrapM by (auto intro!: wp_quiet [OF assms(1)])
qed

lemma up_claims_succeed:
  assumes v: "wf_dns (view (fst st))" "wf_cache (pf_Store P) (view (fst st))"
    and free: "\<forall>d \<in> set (cli_domains c). owner_of (view (fst st)) d \<in> {[], kp_Identity kp0} \<and>
      validateDomain (ext_isDNSName X) d = None"
    and e: "\<And>g. outside view (GatewayRegister e g)" "\<And>g s. \<exists>s'. GatewayRegister e g s = (Inr (), s')"
    and wg: "is4To6Enabled c \<Longrightarrow> \<forall>s. \<exists>m s'. wg_New (ext_wg X) kp0 (NewIPPool kp0) (cli_endpoint c) (cli_wg_iface c) s = (Inr m, s')"
  shows "wpM (start_claims c rd kp0 e loc) (\<lambda>x st'. \<exists>y. x = Inr y) st"
proof -
  let ?v = "view (fst st)" and ?m = "dns_New rd (kp_Identity kp0)" and ?sc = "pf_Store P" and ?ds = "cli_domains c"
  let ?Q = "\<lambda>x st'. \<exists>y. x = Inr y"
  have m: "dns_redis ?m = rd" "cache_pool (NewRedis rd) = rd" by (simp_all add: dns_New_def NewRedis_def)
  have "\<exists>s s'. pf_LoadKeyPair P [] s = (Inr kp0, s')" using load_up by blast
  then have kp: "valid_utf8 (kp_Identity kp0)" "kp_Identity kp0 \<noteq> []" using loaded_identity by blast+
  have last: "wpM (bindM (on_cache (enable_tunnels P X c kp0 (NewRedis rd))) (\<lambda>w. returnM (f w))) ?Q st3"
    if "wf_cache ?sc (view (fst st3))" for f and st3 :: "'s \<times> 'c Counters"
  proof -
    have "wpM (enable_tunnels P X c kp0 (NewRedis rd)) (\<lambda>x s'. \<exists>y. x = Inr y) (fst st3)"
    proof (cases "is4To6Enabled c")
      case True
      have new: "wpM (wg_New (ext_wg X) kp0 (NewIPPool kp0) (cli_endpoint c) (cli_wg_iface c)) (\<lambda>x s'. \<exists>y. x = Inr y) s1" for s1
        using wg [OF True] by (auto simp: wpM_def split: prod.splits) (metis prod.inject)
      show ?thesis
        unfolding enable_tunnels_def if_P [OF True] wpM_bindM
        by (rule wpM_mono [OF up_ClearByType [OF m(2) that]]) (auto intro!: wpM_mono [OF new])
    qed (simp add: enable_tunnels_def)
    then show ?thesis unfolding wpM_bindM by (intro up_on_cache) (auto elim: wpM_mono)
  qed
  have retried: "\<exists>s'. pf_Retry P b (registerID g e) s1 = (Inr (), s')" for b g s1
  proof -
    obtain n where "pf_Retry P b (registerID g e) s1 = retry n (registerID g e) s1"
      using retrying [of b] unfolding retries_def by blast
    with retry_up [of "registerID g e" n s1] e(2) show ?thesis by (simp add: registerID_def)
  qed
  have reg: "quiet view (register P g e)" "\<exists>x s'. register P g e s1 = (Inr x, s')" for g s1
    using quiet_wrap [OF quiet_retries [OF retrying outside_quiet [OF e(1)]]] retried
    unfolding register_def registerID_def wrapM_Inr by blast+
  have rest: "wpM (bindM (on_cache (register P g e)) (\<lambda>_.
      bindM (on_cache (enable_tunnels P X c kp0 (NewRedis rd))) (\<lambda>w. returnM (k w)))) ?Q st2"
    if "wf_cache ?sc (view (fst st2))" for g k and st2 :: "'s \<times> 'c Counters"
    by (rule wp_quiet_up(1) [OF reg]) (use that in \<open>auto intro: last\<close>)
  show ?thesis
    unfolding start_claims_def Let_def wpM_bindM [where m = "wrapM f (on_cache (Cleanup ?m))" for f]
      wpM_bindM [where m = "on_cache (manage_domains X ?m kp0 ?ds)"] wpM_wrapM
  proof (rule up_on_cache, rule wpM_mono [OF up_clean_frame [OF m(1) v(1)]], elim conjE, simp only: sum.case, rule up_on_cache, goal_cases)
    case (1 x s1)
    then have "wpM (manage_domains X ?m kp0 ?ds) (\<lambda>x s'. claimed (kp_Identity kp0) ?ds ?v x (view s')) s1"
      using up_manage [OF m(1) kp 1(2), of ?ds] claimed_cong [OF 1(3,4)] by simp
    then have claims: "wpM (manage_domains X ?m kp0 ?ds) (\<lambda>x s'. x = Inr () \<and> wf_cache ?sc (view s')) s1"
    proof (rule wpM_mono)
      fix x s2 assume "claimed (kp_Identity kp0) ?ds ?v x (view s2)"
      with free v(2) cached_frame(2) [of "view s2" ?v ?sc] show "x = Inr () \<and> wf_cache ?sc (view s2)"
        by (simp add: claimed_def managed_def)
    qed
    show ?case by (simp, rule wpM_mono [OF claims]) (auto intro: rest)
  qed
qed

lemma run_start_up:
  assumes dns: "wf_dns (view s)" and cache: "wf_cache (pf_Store P) (view s)"
    and pool: "NewPool (cli_redis c) = Inr cfg"
    and names: "validDomains X (cli_domains c)" "validDomains X (cli_nameservers c)"
    and free: "\<forall>d \<in> set (cli_domains c). owner_of (view s) d \<in> {[], kp_Identity kp0} \<and>
      validateDomain (ext_isDNSName X) d = None"
    and wg: "is4To6Enabled c \<Longrightarrow> \<forall>s. \<exists>m s'. wg_New (ext_wg X) kp0 (NewIPPool kp0) (cli_endpoint c) (cli_wg_iface c) s = (Inr m, s')"
  shows "wpM (run_start P X c) (\<lambda>x st'. \<exists>y. x = Inr y) (s, c0)"
proof -
  let ?Q = "\<lambda>x st'. \<exists>y. x = Inr y"
  have store: "cache_pool (NewRedis rd) = rd" by (simp add: NewRedis_def)
  have client: "wpM (bindM (wrapM f1 (on_cache (pf_NewClient P u n))) (\<lambda>e.
      bindM (wrapM f2 (on_cache (pf_Geoip P))) (start_claims c rd kp0 e))) ?Q st"
    if "view (fst st) = view s" for f1 f2 u n and st :: "'s \<times> 'c Counters"
  proof (rule wp_quiet_up(2) [OF outside_quiet [OF client_outside] client_up], goal_cases)
    case (1 e s1)
    show ?case
    proof (rule wp_quiet_up(2) [OF outside_quiet [OF geoip_outside]], goal_cases)
      case (2 loc s2)
      with 1 that show ?case
        by (intro up_claims_succeed) (use dns cache free wg register_outside register_up in auto)
    qed (use geoip_up in simp)
  qed
  have sync: "wpM (bindM (wrapM f0 (Sync (pf_Store P) inc (NewRedis rd))) k) ?Q st"
    if "view (fst st) = view s" "\<And>st. view (fst st) = view s \<Longrightarrow> wpM (k ()) ?Q st" for f0 inc k and st :: "'s \<times> 'c Counters"
    unfolding wpM_bindM wpM_wrapM
    by (rule wpM_mono [OF up_Sync [OF store]]) (use that cache in auto)
  have rest: "wpM (bindM (on_cache (ensureID P (cli_seed c))) (\<lambda>kp.
      bindM (on_statser (\<lambda>_. pf_Counters P)) (\<lambda>_.
      bindM (wrapM f0 (Sync (pf_Store P) (Counters_Increment (pf_Counter P) (ext_enums X)) (NewRedis rd))) (\<lambda>_.
      bindM (wrapM f1 (on_cache (pf_NewClient P (cli_explorer c) \<lparr>gwi_kp = kp\<rparr>))) (\<lambda>e.
      bindM (wrapM f2 (on_cache (pf_Geoip P))) (start_claims c rd kp e)))))) ?Q (s, c0)" for f0 f1 f2
  proof (rule wp_quiet_up(1) [OF quiet_ensureID], goal_cases)
    case (2 kp s1)
    then have "kp = kp0" using ensureID_up [of "cli_seed c" s] by simp
    with 2(2) show ?case unfolding wp_statser_bind \<open>kp = kp0\<close> by (intro sync client) simp_all
  qed (use ensureID_up in blast)
  show ?thesis
    unfolding run_start_claims wpM_bindM [where m = "wrapM f (liftM r)" for f r] pool
    using rest names by (simp add: wpM_wrapM)
qed

end

end
