(* ===== verification/GatewayStartProps.thy ===== *)
theory GatewayStartProps
  imports GatewayStart ProvisionProps CountersProps
begin

text \<open>
  The properties of the start of the gateway, and of the gateway once it runs: which domains it owns,
  which reservations it forgets, when it starts at all, and its identity.
\<close>

section \<open>A platform to start on\<close>

text \<open>The key file is there, the explorer takes every call, and no retry is needed.\<close>

definition demo_platform :: "(world, unit, 64 word) platform" where
  "demo_platform = \<lparr>pf_Open = (\<lambda>cfg. redis_on_fst mem_redis), pf_LoadKeyPair = (\<lambda>f. returnM demo_kp),
     pf_GenerateKeyPair = returnM demo_kp, pf_Save = (\<lambda>kp f. returnM ()), pf_Sign = (\<lambda>k b. Inr b),
     pf_NewClient = (\<lambda>u n. returnM no_explorer),
     pf_Geoip = returnM \<lparr>geo_Continent = [], geo_Country = [], geo_City = [], geo_Longitute = [], geo_Latitude = []\<rparr>,
     pf_Version = [], pf_Store = demo_codec, pf_Counter = word_counter, pf_Counters = zero_counters,
     pf_Retry = (\<lambda>b. retry 2), pf_HostUptime = returnM 0,
     pf_NewEngine = (\<lambda>ops. None), pf_RunEngine = (\<lambda>ops. returnM ())\<rparr>"

abbreviation demo_X :: "world externals" where
  "demo_X \<equiv> demo_externals (wg_on_snd mem_wg)"

interpretation demo_host: gateway_host_up "redis_on_fst mem_redis" redis_view demo_platform demo_X demo_kp
  by unfold_locales
    (auto simp: outside_def wg_on_snd_def on_snd_def mem_wg_def redis_view_def returnM_def raiseM_def demo_platform_def
      no_explorer_def mem_ParseKey_def no_device_def answers_on_fst mem_answers answers_serves demo_kp_def ascii_def ascii_valid
      retries_def split: prod.splits option.splits if_splits)

section \<open>What the start does\<close>

text \<open>
  C4: whichever step of the start fails, no sub-domain changes hands, no domain that has an owner or is
  not to be managed changes owner, no record but the owner records changes, and only tunnels may
  leave the cache; a start that succeeds leaves every managed domain to the gateway, so that it
  fails when one of them belongs to somebody else, and it empties the cache of tunnels exactly when
  the endpoint and the interface of the tunnels are given.
\<close>

theorem start_claims_domains:
  assumes "gateway_host rd view P X" and "wf_dns (view s)" and "wf_cache (pf_Store P) (view s)"
    and "run_start P X c (s, c0) = (x, (s', c1))"
  shows "holder_of (view s') = holder_of (view s) \<and>
    (\<forall>z. owner_of (view s) z \<noteq> [] \<or> z \<notin> set (cli_domains c) \<longrightarrow> owner_of (view s') z = owner_of (view s) z) \<and>
    (\<forall>z n. n \<noteq> ''__owner__'' \<longrightarrow> rrs (abs_dns (view s')) z n = rrs (abs_dns (view s)) z n) \<and>
    (\<forall>i r. cached (pf_Store P) (view s') i = Some r \<longrightarrow> cached (pf_Store P) (view s) i = Some r) \<and>
    (\<forall>i r. cached (pf_Store P) (view s) i = Some r \<and> (Type r \<noteq> Gateway4To6Reservation (ext_enums X) \<or> \<not> is4To6Enabled c) \<longrightarrow>
      cached (pf_Store P) (view s') i = Some r) \<and>
    (\<forall>st. x = Inr st \<longrightarrow>
      (\<forall>d \<in> set (cli_domains c). owner_of (view s') d = kp_Identity (st_kp st)) \<and>
      (is4To6Enabled c \<longrightarrow> Gateway4To6Reservation (ext_enums X) \<notin> Type ` ran (cached (pf_Store P) (view s'))) \<and>
      (st_wg st \<noteq> None) = is4To6Enabled c)"
proof -
  have spec: "gateway_host.start_spec rd P X c (view s) x (view s')"
    using wpM_D [OF gateway_host.up_run_start [OF assms(1-3)] assms(4)] by simp
  note tunnels = gateway_host.without_tunnels_Some [OF assms(1)]
  show ?thesis
    using spec unfolding gateway_host.start_spec_def [OF assms(1)]
    by (cases x; cases "is4To6Enabled c") (auto simp: tunnels ran_def)
qed

text \<open>The gateway manages one domain and serves tunnels; redis holds a sub-domain of somebody else.\<close>

definition demo_cli :: cli where
  "demo_cli = cli_defaults\<lparr>cli_redis := ''unix:///redis'', cli_domains := [''x.y''], cli_nameservers := [''ns.x.y'']\<rparr>"

definition demo_start :: world where
  "demo_start = (demo_store, [])"

lemma demo_start_view [simp]: "redis_view demo_start = mem_view demo_store"
  by (simp add: redis_view_def demo_start_def)

lemma demo_start_cache: "wf_cache sc (mem_view demo_store)" "cached sc (mem_view demo_store) = Map.empty"
  by (simp_all add: wf_cache_def cached_def fun_eq_iff reservationsKey_def)

lemma demo_platform_store [simp]: "pf_Store demo_platform = demo_codec"
  by (simp add: demo_platform_def)

lemma start_claims_domains_witness:
  "owner_of (redis_view (fst (snd (run_start demo_platform demo_X demo_cli (demo_start, zero_counters))))) ''b.c'' = ''7''"
proof -
  obtain x s' c1 where run: "run_start demo_platform demo_X demo_cli (demo_start, zero_counters) = (x, (s', c1))"
    using prod_cases3 by blast
  have "owner_of (mem_view demo_store) ''b.c'' = ''7''" by (simp add: owner_of_def)
  with start_claims_domains [OF demo_host.gateway_host_axioms _ _ run] run show ?thesis
    by (simp add: demo_start_cache)
qed

text \<open>
  C3: once the gateway has started, the domains it manages stay its own along any sequence of steps of
  all components on behalf of users with another name than its identity, whatever calls fail.
\<close>

theorem managed_domains_stay:
  assumes "gateway_host rd view P X" and "wf_dns (view s)" and "wf_cache (pf_Store P) (view s)"
    and "run_start P X c (s, c0) = (Inr st, (s', c1))" and "d \<in> set (cli_domains c)"
    and "gateway_world rd view X (st_client st)" and "\<And>r t. encode_reservation (pf_Store P) r \<noteq> Inl (Panic t)"
    and "q = NewProvisioner X (proxy_New (st_pool st)) (st_dns st) (st_wg st) (st_kp st) (st_client st)"
    and "gateway_reach (pf_Store P) (st_store st) q (\<lambda>op1. step_user op1 \<noteq> Some (kp_Identity (st_kp st))) s' s''"
  shows "owner_of (view s'') d = kp_Identity (st_kp st)"
proof -
  let ?i = "kp_Identity (st_kp st)" and ?P = "\<lambda>v. owner_of v d = kp_Identity (st_kp st)"
  have "gateway_host.start_spec rd P X c (view s) (Inr st) (view s')"
    using wpM_D [OF gateway_host.up_run_start [OF assms(1-3)] assms(4)] by simp
  then have st: "owner_of (view s') d = ?i" "st_pool st = rd" "st_store st = NewRedis rd" "st_dns st = dns_New rd ?i" "?i \<noteq> []"
    using assms(5) by (simp_all add: gateway_host.start_spec_def [OF assms(1)])
  have serv: "redis_service rd view" using assms(6) by (simp add: gateway_world_def)
  have mgrs: "dns_redis (dns_New rd ?i) = rd" "proxy_redis (proxy_New rd) = rd" by (simp_all add: dns_New_def proxy_New_def)
  show ?thesis
    using assms(9) st(1)
  proof (rule gateway_reach_invariant [where P = ?P])
    fix op1 assume user: "step_user op1 \<noteq> Some ?i"
    have q: "q = NewProvisioner X (proxy_New rd) (dns_New rd ?i) (st_wg st) (st_kp st) (st_client st)"
      by (simp add: assms(8) st)
    show "maintains view ?P (run_gateway (pf_Store P) (st_store st) q op1)"
    proof (rule gateway_world.gateway_step [OF assms(6) q st(3) assms(7)])
      fix dop assume "op_user dop = step_user op1"
      with user show "safe_call view ?P (run_dns (ext_isDNSName X) (dns_New rd ?i) dop)"
        by (intro redis_service.foreign_owner [OF serv mgrs(1) st(5)]) simp
    next
      fix pop show "safe_call view ?P (run_proxy (proxy_New rd) pop)"
        by (rule redis_service.proxy_keeps_owner [OF serv mgrs(2)])
    qed (simp add: owner_of_def reservationsKey_def)
  qed
qed

text \<open>
  C14: a start succeeds when redis has an address of a known scheme, the key file can be read, the
  explorer and the location service answer, every name is a DNS name, no managed domain belongs to
  somebody else, and the wireguard interface, if there is to be one, can be made.
\<close>

theorem start_succeeds:
  assumes "gateway_host_up rd view P X kp" and "wf_dns (view s)" and "wf_cache (pf_Store P) (view s)"
    and "NewPool (cli_redis c) = Inr cfg" and "validDomains X (cli_domains c)" "validDomains X (cli_nameservers c)"
    and "\<forall>d \<in> set (cli_domains c). owner_of (view s) d \<in> {[], kp_Identity kp} \<and> validateDomain (ext_isDNSName X) d = None"
    and "is4To6Enabled c \<Longrightarrow> \<forall>s. \<exists>m s'. wg_New (ext_wg X) kp (NewIPPool kp) (cli_endpoint c) (cli_wg_iface c) s = (Inr m, s')"
  shows "\<exists>st. fst (run_start P X c (s, c0)) = Inr st"
proof -
  have "wpM (run_start P X c) (\<lambda>x st'. \<exists>y. x = Inr y) (s, c0)"
    using assms(8) by (intro gateway_host_up.run_start_up [OF assms(1-7)])
  from wpM_run [OF this] show ?thesis by fastforce
qed

lemma demo_names [simp]: "validDomains demo_X (cli_domains demo_cli)" "validDomains demo_X (cli_nameservers demo_cli)"
  by (simp_all add: demo_cli_def validDomain_def)

lemma demo_domain: "validateDomain (ext_isDNSName demo_X) ''x.y'' = None"
proof -
  have "CountByte ''x.y'' (CHR ''.'') = 1" "\<not> Contains ''x.y'' ''..''" by code_simp+
  then show ?thesis by (simp add: validateDomain_def)
qed

lemma demo_free:
  "\<forall>d \<in> set (cli_domains demo_cli). owner_of (redis_view demo_start) d \<in> {[], kp_Identity demo_kp} \<and>
     validateDomain (ext_isDNSName demo_X) d = None"
  using demo_domain by (simp add: demo_cli_def owner_of_def)

lemma demo_pool: "\<exists>cfg. NewPool (cli_redis demo_cli) = Inr cfg"
  using parse_unix [of "''redis''"]
  by (simp add: demo_cli_def NewPool_def Let_def path_text_def unbroken_def byte_val_def)

lemma demo_no_tunnels: "\<not> is4To6Enabled demo_cli"
  by (simp add: is4To6Enabled_def demo_cli_def cli_defaults_def)

lemma start_succeeds_witness:
  "\<exists>st. fst (run_start demo_platform demo_X demo_cli (demo_start, zero_counters)) = Inr st"
proof -
  obtain cfg where "NewPool (cli_redis demo_cli) = Inr cfg" using demo_pool by blast
  from start_succeeds [OF demo_host.gateway_host_up_axioms _ _ this demo_names demo_free] show ?thesis
    by (simp add: demo_start_cache demo_no_tunnels)
qed

lemma managed_domains_stay_witness:
  "\<exists>st s' c1. run_start demo_platform demo_X demo_cli (demo_start, zero_counters) = (Inr st, (s', c1)) \<and>
    owner_of (redis_view (snd (run_gateway demo_codec (st_store st) (NewProvisioner demo_X (proxy_New (st_pool st)) (st_dns st)
      (st_wg st) (st_kp st) (st_client st)) CleanZones s'))) ''x.y'' = kp_Identity (st_kp st)"
proof -
  have wf: "wf_dns (redis_view demo_start)" "wf_cache (pf_Store demo_platform) (redis_view demo_start)"
    by (simp_all add: demo_start_cache)
  obtain cfg where cfg: "NewPool (cli_redis demo_cli) = Inr cfg" using demo_pool by blast
  obtain st s' c1 where run: "run_start demo_platform demo_X demo_cli (demo_start, zero_counters) = (Inr st, (s', c1))"
    using wpM_run [OF demo_host.run_start_up [OF wf cfg demo_names demo_free]] demo_no_tunnels by fastforce
  have "st_client st = no_explorer"
    using wpM_D [OF demo_host.up_run_start [OF wf] run]
    unfolding gateway_host.start_spec_def [OF demo_host.gateway_host_axioms]
      gateway_host.from_client_def [OF demo_host.gateway_host_axioms]
    by (auto simp: demo_platform_def returnM_def)
  then have world: "gateway_world (redis_on_fst mem_redis) redis_view demo_X (st_client st)"
    by (simp add: world_gateway.gateway_world_axioms)
  have "''x.y'' \<in> set (cli_domains demo_cli)" by (simp add: demo_cli_def)
  from managed_domains_stay [OF demo_host.gateway_host_axioms wf run this world _ refl one_step [of _ CleanZones]] run
  show ?thesis by (simp add: demo.json_no_panic)
qed

section \<open>What the start counts\<close>

text \<open>Calls that leave the counters alone.\<close>

definition keeps_counters :: "('s \<times> 'c, 'a) go \<Rightarrow> bool" where
  "keeps_counters m \<longleftrightarrow> (\<forall>st r st'. m st = (r, st') \<longrightarrow> snd st' = snd st)"

lemma keeps_basic: "keeps_counters (returnM x)" "keeps_counters (raiseM e)" "keeps_counters (on_cache m)"
  by (auto simp: keeps_counters_def returnM_def raiseM_def on_cache_def split: prod.splits)

lemma keeps_bind: "keeps_counters m \<Longrightarrow> (\<And>x. keeps_counters (f x)) \<Longrightarrow> keeps_counters (bindM m f)"
  unfolding keeps_counters_def bindM_def by (fastforce split: prod.splits sum.splits)

lemma keeps_wrap: "keeps_counters m \<Longrightarrow> keeps_counters (wrapM g m)"
  unfolding keeps_counters_def wrapM_def handleM_def raiseM_def returnM_def by (fastforce split: prod.splits sum.splits)

lemma keeps_if: "keeps_counters a \<Longrightarrow> keeps_counters b \<Longrightarrow> keeps_counters (if c then a else b)"
  by simp

lemmas keeps_rules = keeps_if keeps_basic keeps_bind keeps_wrap

lemma keepsD: "keeps_counters m \<Longrightarrow> m st = (r, st') \<Longrightarrow> snd st' = snd st"
  unfolding keeps_counters_def by blast

lemma bindE:
  assumes "bindM m f t = (Inr y, t')"
  obtains x t1 where "m t = (Inr x, t1)" "f x t1 = (Inr y, t')"
  using assms by (auto simp: bindM_Inr)

text \<open>The counters after a start are those of the synchronisation.\<close>

lemma run_start_counters:
  assumes run: "run_start P X c (s, c0) = (Inr st, (s', c1))"
  shows "\<exists>cfg kp s1 s2. ensureID P (cli_seed c) s = (Inr kp, s1) \<and>
    Sync (pf_Store P) (Counters_Increment (pf_Counter P) (ext_enums X)) (NewRedis (pf_Open P cfg)) (s1, pf_Counters P) =
      (Inr (), (s2, c1))"
proof -
  show ?thesis
    using run unfolding run_start_def Let_def
  proof (elim bindE [where m = "wrapM f (liftM r)" for f r] bindE [where m = "on_cache (ensureID P (cli_seed c))"]
      bindE [where m = "on_statser f" for f] bindE [where m = "wrapM f (Sync sc inc store)" for f sc inc store], goal_cases)
    case (1 cfg t1 kp t2 u t3 v t4)
    from 1(1-4) obtain s1 s2 c2 where "ensureID P (cli_seed c) s = (Inr kp, s1)" "t4 = (s2, c2)"
      "Sync (pf_Store P) (Counters_Increment (pf_Counter P) (ext_enums X)) (NewRedis (pf_Open P cfg)) (s1, pf_Counters P) = (Inr (), t4)"
      by (cases t1; cases t4) (auto simp: wrapM_Inr liftM_def returnM_def raiseM_def on_cache_def on_statser_def split: sum.splits prod.splits)
    moreover have "snd (s', c1) = snd t4"
      by (rule keepsD [where m = "bindM m1 f1" for m1 f1, OF _ 1(5)]) (intro keeps_rules)
    ultimately show ?case by auto
  qed
qed

text \<open>
  C28: the amounts a gateway reports when it has started are the numbers of reservations its cache holds
  then, type by type and in 16 bits, although the cached tunnels have been dropped since they were
  counted.
\<close>

theorem started_counts:
  assumes "gateway_host rd view P X" and "wf_dns (view s)" and "wf_cache (pf_Store P) (view s)"
    and "counter_uint64 (pf_Counter P)" and "distinct_types (ext_enums X)"
    and "counts (pf_Counter P) (ext_enums X) (pf_Counters P) = (\<lambda>t. 0)" and "counted (ext_enums X) t"
    and "run_start P X c (s, c0) = (Inr st, (s', c1))"
  shows "amount (ext_enums X) (CurrentWorkloads (pf_Counter P) c1) t =
    of_nat (card {i \<in> dom (cached (pf_Store P) (view s')). Type (the (cached (pf_Store P) (view s') i)) = t})"
proof -
  let ?m = "cached (pf_Store P) (view s)" and ?m' = "cached (pf_Store P) (view s')" and ?E = "ext_enums X"
  note host = assms(1)
  obtain cfg kp s1 s2 where id: "ensureID P (cli_seed c) s = (Inr kp, s1)"
    and sync: "Sync (pf_Store P) (Counters_Increment (pf_Counter P) ?E) (NewRedis (pf_Open P cfg)) (s1, pf_Counters P) = (Inr (), (s2, c1))"
    using run_start_counters [OF assms(8)] by blast
  have s1: "view s1 = view s" using quietD [OF gateway_host.quiet_ensureID [OF host]] id by blast
  have pool: "cache_pool (NewRedis (pf_Open P cfg)) = rd" by (simp add: NewRedis_def gateway_host.open_pool [OF host])
  have rel: "redis_reliable rd view" using host by (simp add: gateway_host_def)
  have "amount ?E (CurrentWorkloads (pf_Counter P) c1) t = of_nat (card {i \<in> dom ?m. Type (the (?m i)) = t})"
    using startup_counts [OF _ _ assms(4-7) sync] rel assms(3) by (simp add: pool s1)
  moreover have "t \<noteq> Gateway4To6Reservation ?E"
    using assms(5,7) by (auto simp: counted_def distinct_types_def reservation_types)
  then have "(\<exists>r. ?m i = Some r \<and> Type r = t) \<longleftrightarrow> (\<exists>r. ?m' i = Some r \<and> Type r = t)" for i
    using wpM_D [OF gateway_host.up_run_start [OF assms(1-3)] assms(8)]
    unfolding gateway_host.start_spec_def [OF host]
    by (auto simp: gateway_host.without_tunnels_Some [OF host])
  then have "{i \<in> dom ?m. Type (the (?m i)) = t} = {i \<in> dom ?m'. Type (the (?m' i)) = t}" by force
  ultimately show ?thesis by simp
qed

lemma cache_store_dns: "k \<noteq> reservationsKey \<Longrightarrow> hfield (mem_view cache_store) k = Map.empty"
    "hash_key (mem_view cache_store) k" "wf_dns (mem_view cache_store)"
proof -
  show empty: "k \<noteq> reservationsKey \<Longrightarrow> hfield (mem_view cache_store) k = Map.empty"
    and hash: "hash_key (mem_view cache_store) k" for k
    by (auto simp: cache_store_def mem_view_def hfield_def hash_key_def)
  have "''zone'' \<noteq> reservationsKey" "z @ ''.'' \<noteq> reservationsKey" for z by (simp_all add: reservationsKey_def)
  then show "wf_dns (mem_view cache_store)" by (simp add: wf_dns_def empty hash readable_def)
qed

lemma started_counts_witness:
  "\<exists>st s' c1. run_start demo_platform demo_X demo_cli ((cache_store, []), zero_counters) = (Inr st, (s', c1)) \<and>
    amount demo_enums (CurrentWorkloads word_counter c1) ''proxy'' = 1"
proof -
  let ?s = "(cache_store, []) :: world"
  have view: "redis_view ?s = mem_view cache_store" by (simp add: redis_view_def)
  have wf: "wf_dns (redis_view ?s)" "wf_cache (pf_Store demo_platform) (redis_view ?s)"
    by (simp_all add: view cache_store_dns demo_cache_wf)
  obtain cfg where cfg: "NewPool (cli_redis demo_cli) = Inr cfg" using demo_pool by blast
  have free: "\<forall>d \<in> set (cli_domains demo_cli). owner_of (redis_view ?s) d \<in> {[], kp_Identity demo_kp} \<and>
      validateDomain (ext_isDNSName demo_X) d = None"
    using demo_domain by (simp add: demo_cli_def owner_of_def view cache_store_dns(1) reservationsKey_def)
  obtain st s' c1 where run: "run_start demo_platform demo_X demo_cli (?s, zero_counters) = (Inr st, (s', c1))"
    using wpM_run [OF demo_host.run_start_up [OF wf cfg demo_names free]] demo_no_tunnels by fastforce
  have same: "cached demo_codec (redis_view s') = cached demo_codec (mem_view cache_store)"
    using wpM_D [OF demo_host.up_run_start [OF wf] run] demo_no_tunnels
    unfolding gateway_host.start_spec_def [OF demo_host.gateway_host_axioms] by (simp add: view)
  have plat: "pf_Store demo_platform = demo_codec" "pf_Counter demo_platform = word_counter"
    "pf_Counters demo_platform = zero_counters" "ext_enums demo_X = demo_enums" by (simp_all add: demo_platform_def)
  have "counted demo_enums ''proxy''" by (simp add: counted_def reservation_types demo_enums_def)
  then have "amount demo_enums (CurrentWorkloads word_counter c1) ''proxy'' = of_nat 1"
    using started_counts [OF demo_host.gateway_host_axioms wf _ _ _ _ run, of "''proxy''"]
    unfolding plat same demo_proxies by (simp add: word_counter.counter_uint64_axioms)
  with run show ?thesis by auto
qed

section \<open>Identity and retries\<close>

text \<open>
  C30: with a key store that gives back what was saved, the identity of a gateway is for ever: a key pair
  that is in the file is used and nothing is written; a new one is in the file when the call returns, so
  that the next start has the same identity.
\<close>

theorem ensureID_stable:
  assumes "\<And>s. pf_LoadKeyPair P f s = ((case files s of Some kp \<Rightarrow> Inr kp | None \<Rightarrow> Inl (path_error ''open'' f ENOENT)), s)"
    and "\<And>kp s s'. pf_Save P kp f s = (Inr (), s') \<Longrightarrow> files s' = Some kp"
    and "ensureID P f s = (Inr kp, s')"
  shows "ensureID P f s' = (Inr kp, s') \<and> (\<forall>k. files s = Some k \<longrightarrow> kp = k \<and> s' = s)"
proof (cases "files s")
  case (Some k)
  with assms(1,3) show ?thesis by (simp add: ensureID_def handleM_def returnM_def)
next
  case None
  have "IsNotExist (path_error ''open'' f ENOENT)" by (simp add: IsNotExist_def path_error_def)
  with assms(1) [of s] assms(3) None obtain s1 u where "pf_Save P kp f s1 = (Inr u, s')"
    unfolding ensureID_def handleM_def
    by (auto simp only: prod.case sum.case option.case bindM_Inr wrapM_Inr returnM_def prod.inject sum.inject not_True_eq_False if_False)
  then have "pf_Save P kp f s1 = (Inr (), s')" by simp
  with assms(2) have "files s' = Some kp" by blast
  with assms(1) [of s'] None show ?thesis by (simp add: ensureID_def handleM_def returnM_def)
qed

text \<open>A platform whose state is the key file.\<close>

definition key_platform :: "(KeyPair option, unit, 64 word) platform" where
  "key_platform = \<lparr>pf_Open = (\<lambda>cfg. \<lparr>do_HGET = (\<lambda>k f. raiseM ErrNil), do_HSET = (\<lambda>k f x. returnM ()),
       do_HDEL = (\<lambda>k f. returnM ()), do_HEXISTS = (\<lambda>k f. returnM False), do_HKEYS = (\<lambda>k. returnM []),
       do_GET = (\<lambda>k. raiseM ErrNil), do_SET = (\<lambda>k x. returnM ()), do_DEL = (\<lambda>k. returnM ()),
       do_KEYS = (\<lambda>p. returnM []), do_TYPE = (\<lambda>k. returnM [])\<rparr>),
     pf_LoadKeyPair = (\<lambda>f s. (case s of Some kp \<Rightarrow> Inr kp | None \<Rightarrow> Inl (path_error ''open'' f ENOENT), s)),
     pf_GenerateKeyPair = returnM demo_kp, pf_Save = (\<lambda>kp f s. (Inr (), Some kp)), pf_Sign = (\<lambda>k b. Inr b),
     pf_NewClient = (\<lambda>u n. returnM no_explorer),
     pf_Geoip = returnM \<lparr>geo_Continent = [], geo_Country = [], geo_City = [], geo_Longitute = [], geo_Latitude = []\<rparr>,
     pf_Version = [], pf_Store = demo_codec, pf_Counter = word_counter, pf_Counters = zero_counters,
     pf_Retry = (\<lambda>b. retry 2), pf_HostUptime = returnM 0,
     pf_NewEngine = (\<lambda>ops. None), pf_RunEngine = (\<lambda>ops. returnM ())\<rparr>"

lemma ensureID_stable_witness:
  "ensureID key_platform ''seed'' (Some demo_kp) = (Inr demo_kp, Some demo_kp)"
proof -
  have load: "pf_LoadKeyPair key_platform f s =
      ((case s of Some kp \<Rightarrow> Inr kp | None \<Rightarrow> Inl (path_error ''open'' f ENOENT)), s)" for f s
    by (simp add: key_platform_def)
  have save: "pf_Save key_platform kp f s = (Inr (), Some kp)" for kp f s by (simp add: key_platform_def)
  have generate: "pf_GenerateKeyPair key_platform = returnM demo_kp" by (simp add: key_platform_def)
  have "IsNotExist (path_error ''open'' ''seed'' ENOENT)" by (simp add: IsNotExist_def path_error_def)
  then have "ensureID key_platform ''seed'' None = (Inr demo_kp, Some demo_kp)"
    by (simp add: ensureID_def handleM_def bindM_def wrapM_def returnM_def load save generate)
  from ensureID_stable [OF load _ this] save show ?thesis by auto
qed

end
