(* ===== verification/Spec2Isabelle.thy ===== *)
theory Spec2Isabelle
  imports DnsFindings ProxyProps CacheProps WgProps CountersProps FsCacheProps GatewayProps ProvisionProps GatewayStartProps
begin

text \<open>
  A verification development for the threefold gateway (the Go module tfgateway). The gateway takes
  reservations from the explorer and turns them into configuration: sub-domains and delegated
  domains for CoreDNS, services of the TCP router, peers of a wireguard interface. CoreDNS and the
  router read their configuration from the redis server the gateway writes to.

  \<^bold>\<open>The program and how its parts meet.\<close> \<open>run\<close> of cmd/tfgateway/main.go opens the pool of
  redis/pool.go, reads or makes the identity, counts the cached reservations (cache/cache.go into
  counters.go), cleans up CoreDNS's zones, takes over the domains the gateway manages
  (dns/coredns.go), registers at the explorer, makes the wireguard interface (wg/manager.go) when
  tunnels are enabled, and hands the tables of handlers of provision.go to the engine. The engine,
  a package of its own, polls the explorer, converts each workload with
  \<open>WorkloadToProvisionType\<close>, keeps it in the cache and calls the handler of its type, which
  calls the managers of dns, proxy and wg; results go back through feedback.go. All managers and the
  cache share one redis server.

  \<^bold>\<open>Go in HOL\<close> (Prelude, GoStrings, Utf8, GoMap, Base64, Json, JsonValid, JsonCodec, NetIP, ParseIP,
  IPText, NetCIDR, NetURL, MD5, FileSystem). A call is a function from a state to a result, an error
  or a value, and the next state; errors, panics among them, are values. Strings are byte sequences.
  The functions of the standard library the program uses are definitions that run: the JSON encoder
  and decoder with their handling of invalid UTF-8, \<open>net.ParseIP\<close> and the texts of addresses and
  networks, base64, MD5, \<open>url.Parse\<close>, and a tree of files with finite room. The JSON parser
  recurses on fuel, which is twice the length of the text plus one;
  \<open>pvalue_fuel_enough\<close> shows that more changes nothing. Every other loop is structural or has
  its termination proof. Lemmas here give the round trips that the components' rest on, as locales
  (\<open>codec\<close>, \<open>json_codec\<close>, \<open>go_map\<close>) with an interpretation for every type that is stored.

  \<^bold>\<open>Redis\<close> (Redis, RedisMem, RedisPool). The server is a record of the calls the program makes.
  \<open>redis_service\<close> is what may be relied on when any call may fail, its effect done or not;
  \<open>redis_reliable\<close> adds that calls succeed. The weakest-precondition rules of both (\<open>wpM\<close>)
  carry all proofs about the managers. An in-memory server and one that loses answers interpret them.
  RedisPool is redis/pool.go.

  \<^bold>\<open>Component dns\<close> (DnsZone for dns/dns_zone.go, Dns for dns/coredns.go and dns/errors.go). The Go
  \<open>Mgr\<close> is the record \<open>dns_Mgr\<close>; its state is in redis: the hash \<open>zone\<close>, the hash
  \<open>managed_domains\<close>, and one hash per zone. DnsSpec states what it promises without redis; DnsRefine
  proves that three of the four operations implement it. For the fourth, RemoveDomainDelagate, DnsSpec
  has what its comment asks for (\<open>spec_undelegate\<close>, the records go) and what it does
  (\<open>code_undelegate\<close>, they stay), and \<open>RemoveDomainDelagate_exact\<close> says when the two agree; DnsCleanup is about the clean-up, DnsFaults and
  DnsIsolation about what users can do to one another when calls fail, as an inductive relation of
  steps with invariants; DnsProps and DnsFindings hold the properties.

  \<^bold>\<open>Component proxy\<close> (Proxy for proxy/tcp_router.go and proxy/errors.go, ProxyProps): the services of
  the router, the bytes they are stored as, their refinement and isolation.

  \<^bold>\<open>The two caches\<close> (Reservation, Cache for cache/cache.go, FsCache for reservation_cache.go, CacheProps,
  FsCacheProps). The locale \<open>reservation_cache\<close> is the contract that both implement; the bulk
  operations are shown to act on exactly the reservations they should.

  \<^bold>\<open>Workloads, handlers, counters, feedback\<close> (Workloads, WorkloadCodec, Provision, ProvisionSpec,
  Explorer, Counters; ProvisionProps, CountersProps): provision.go, delegate.go, subdomain.go,
  proxy.go, reserse_proxy.go, 4to6.go, feedback.go, counters.go. ProvisionSpec says which call of a
  manager each workload stands for; conversion, dispatch and handler together are shown to be it.

  \<^bold>\<open>Tunnels\<close> (IPPool for wg/ip-pool.go, Wg for wg/manager.go, WgMem, WgProps): addresses as bytes of
  an MD5 digest, the wireguard device as a map from keys to peers behind the locale \<open>wg_kernel\<close>. A
  configuration that fails may have made any of the changes it asked for, or none.

  \<^bold>\<open>The whole gateway\<close> (World, GatewaySteps, GatewayIsolation, GatewayProps, and GatewayMain,
  GatewayStart, GatewayStartProps for cmd/tfgateway/main.go). A step is a call of a handler, of
  the clean-up, or of the cache, the engine's reads of it among them; \<open>gateway_reach\<close> is any sequence
  of them. What a tenant holds in one
  component survives the steps of all, since no component writes another's keys. The start is one
  definition, \<open>run_start\<close>, followed by \<open>run_gateway_main\<close>; its properties say which domains
  it takes over, which cached reservations it forgets, and when it succeeds.

  \<^bold>\<open>Parameters.\<close> What is not in the repository is an argument of the definitions, and what is
  relied on is a named assumption with an instance: the server and client of redis, the kernel
  (netlink, wgctrl, sysctl), the ciphers and the versioned storage of zos, the explorer's client, the
  check of DNS names, the atomic counter, the key file, the location service, the package that retries
  calls, and the engine, to which \<open>engine_for\<close> hands its node, cache, source, tables, feedback, signer and
  statser. A retried call is made once or more, until it succeeds or the package
  gives up; how often depends on the clock, and the theorems hold for any number.

  \<^bold>\<open>Integers.\<close> Go's \<open>int\<close> and \<open>int64\<close> are \<open>int\<close> with the bounds written where a value is
  decoded; ports are 32-bit words, the reported amounts 16-bit and the counters 64-bit words, digests
  32-bit words.

  \<^bold>\<open>Not modelled.\<close> Log messages. The parsing of the command line and the log level (\<open>main\<close>, the
  hook \<open>Before\<close>). The scheduling of the goroutine that sends the heart-beat: its loop is a
  definition over the events it waits for, and it touches nothing but the explorer. The locks of
  the caches, which make each call one step. Links and permissions of the file system. Tests,
  scripts and the archive of the earlier product.
\<close>

end
